(* ===== verification/Prelude.thy ===== *)
theory Prelude
  imports Main "HOL-Library.Word" "HOL-Library.Multiset"
begin

text \<open>
  Shared vocabulary of the development: identifiers, instants and durations, the
  wrap-around of Go's 64-bit integers, the SQL row primitives (\<open>UPDATE \<dots> WHERE\<close>,
  \<open>count(*)\<close>, \<open>LIMIT\<close>, \<open>TIMESTAMPTZ\<close>), and the lemmas about them that the
  component theories use.  Nothing here is specific to one component.
\<close>

section \<open>Lemma collections\<close>

named_theorems row_simps \<open>rewrite rules for the SQL row primitives\<close>
named_theorems go_simps \<open>definitions of constants of the Go source\<close>

section \<open>Identifiers, instants, durations\<close>

text \<open>
  A UUID is 16 bytes, ordered bytewise: a 128-bit unsigned word.  An instant
  (\<open>time.Time\<close>) is its distance from the Unix epoch in nanoseconds; a
  \<open>time.Duration\<close> is a number of nanoseconds, kept in the int64 range by \<open>wrap64\<close>
  wherever the source multiplies durations.
\<close>

type_synonym uuid = "128 word"
type_synonym gotime = int
type_synonym duration = int

definition Nanosecond :: duration where [go_simps]: "Nanosecond = 1"
definition Millisecond :: duration where [go_simps]: "Millisecond = 1000000"
definition Second :: duration where [go_simps]: "Second = 1000000000"
definition Minute :: duration where [go_simps]: "Minute = 60 * 1000000000"
definition Hour :: duration where [go_simps]: "Hour = 3600 * 1000000000"

text \<open>Two's complement wrap-around of Go's \<open>int64\<close> (and \<open>int\<close> on 64-bit targets).\<close>

definition wrap64 :: "int \<Rightarrow> int" where
  "wrap64 x = (x + 2 ^ 63) mod 2 ^ 64 - 2 ^ 63"

lemma wrap64_range: "- (2 ^ 63) \<le> wrap64 x" "wrap64 x < 2 ^ 63"
proof -
  have "0 \<le> (x + 2 ^ 63) mod 18446744073709551616" "(x + 2 ^ 63) mod 18446744073709551616 < 18446744073709551616"
    by simp_all
  then show "- (2 ^ 63) \<le> wrap64 x" "wrap64 x < 2 ^ 63"
    by (simp_all add: wrap64_def)
qed

lemma wrap64_id: "- (2 ^ 63) \<le> x \<Longrightarrow> x < 2 ^ 63 \<Longrightarrow> wrap64 x = x"
  unfolding wrap64_def by (subst mod_pos_pos_trivial) auto

section \<open>SQL row primitives\<close>

text \<open>
  A table is the list of its rows.  \<open>upd_where p f\<close> is \<open>UPDATE \<dots> SET f WHERE p\<close>,
  \<open>count_where p\<close> is \<open>count(*) \<dots> WHERE p\<close>, and \<open>find_row p\<close> the single row a
  \<open>QueryRow\<close> scans.  \<open>sql_limit\<close> is \<open>LIMIT n\<close>, which PostgreSQL rejects for a negative
  \<open>n\<close>.  \<open>timestamptz\<close> is the microsecond resolution of the column type: an instant bound
  to a statement keeps its microseconds and loses the rest.
\<close>

definition upd_where :: "('a \<Rightarrow> bool) \<Rightarrow> ('a \<Rightarrow> 'a) \<Rightarrow> 'a list \<Rightarrow> 'a list" where
  "upd_where p f rows = map (\<lambda>r. if p r then f r else r) rows"

definition count_where :: "('a \<Rightarrow> bool) \<Rightarrow> 'a list \<Rightarrow> nat" where
  "count_where p rows = length (filter p rows)"

definition find_row :: "('a \<Rightarrow> bool) \<Rightarrow> 'a list \<Rightarrow> 'a option" where
  "find_row p rows = find p rows"

definition sql_limit :: "int \<Rightarrow> 'a list \<Rightarrow> string + 'a list" where
  "sql_limit n rows =
     (if n < 0 then Inl ''LIMIT must not be negative'' else Inr (take (nat n) rows))"

definition timestamptz :: "gotime \<Rightarrow> gotime" where
  "timestamptz t = t div 1000 * 1000"

lemma timestamptz_idem [simp]: "timestamptz (timestamptz t) = timestamptz t"
  by (simp add: timestamptz_def)

lemma upd_where_Nil [row_simps, simp]: "upd_where p f [] = []"
  by (simp add: upd_where_def)

lemma upd_where_Cons [row_simps, simp]:
  "upd_where p f (r # rs) = (if p r then f r else r) # upd_where p f rs"
  by (simp add: upd_where_def)

lemma length_upd_where [row_simps, simp]: "length (upd_where p f rows) = length rows"
  by (simp add: upd_where_def)

lemma set_upd_where: "set (upd_where p f rows) = (\<lambda>r. if p r then f r else r) ` set rows"
  by (simp add: upd_where_def)

lemma in_upd_whereE:
  assumes "r \<in> set (upd_where p f rows)"
  obtains "r \<in> set rows" "\<not> p r" | r0 where "r0 \<in> set rows" "p r0" "r = f r0"
  using assms by (auto simp: set_upd_where split: if_splits)

lemma map_upd_where_same [row_simps]:
  "(\<And>r. p r \<Longrightarrow> k (f r) = k r) \<Longrightarrow> map k (upd_where p f rows) = map k rows"
  by (induction rows) auto

lemma upd_where_id: "(\<And>r. r \<in> set rows \<Longrightarrow> \<not> p r) \<Longrightarrow> upd_where p f rows = rows"
  by (induction rows) auto

lemma filter_upd_where_same:
  "(\<And>r. p r \<Longrightarrow> q (f r) = q r) \<Longrightarrow> filter q (upd_where p f rows) = upd_where p f (filter q rows)"
  by (induction rows) auto

lemma filter_upd_where_disjoint:
  "(\<And>r. p r \<Longrightarrow> \<not> q r \<and> \<not> q (f r)) \<Longrightarrow> filter q (upd_where p f rows) = filter q rows"
  by (induction rows) auto

lemma count_where_Nil [row_simps, simp]: "count_where p [] = 0"
  by (simp add: count_where_def)

lemma count_where_Cons [row_simps, simp]:
  "count_where p (r # rs) = (if p r then Suc (count_where p rs) else count_where p rs)"
  by (simp add: count_where_def)

lemma count_where_append [row_simps, simp]:
  "count_where p (rs @ rs') = count_where p rs + count_where p rs'"
  by (simp add: count_where_def)

lemma count_where_le: "count_where p rows \<le> length rows"
  by (simp add: count_where_def)

lemma count_where_mono: "(\<And>r. p r \<Longrightarrow> q r) \<Longrightarrow> count_where p rows \<le> count_where q rows"
  by (induction rows) (auto simp: le_Suc_eq)

lemma count_where_cong:
  "(\<And>r. r \<in> set rows \<Longrightarrow> p r = q r) \<Longrightarrow> count_where p rows = count_where q rows"
  unfolding count_where_def by (metis filter_cong)

lemma count_where_pos: "r \<in> set rows \<Longrightarrow> p r \<Longrightarrow> 0 < count_where p rows"
  by (induction rows) auto

lemma count_where_zero: "count_where p rows = 0 \<longleftrightarrow> (\<forall>r\<in>set rows. \<not> p r)"
  by (induction rows) auto

lemma count_where_upd_same:
  "(\<And>r. p r \<Longrightarrow> q (f r) = q r) \<Longrightarrow> count_where q (upd_where p f rows) = count_where q rows"
  by (induction rows) auto

lemma find_row_Some: "find_row p rows = Some r \<Longrightarrow> r \<in> set rows \<and> p r"
  unfolding find_row_def by (auto simp: find_Some_iff)

lemma find_row_None: "find_row p rows = None \<longleftrightarrow> (\<forall>r\<in>set rows. \<not> p r)"
  unfolding find_row_def by (auto simp: find_None_iff)

lemma find_row_append_Some: "find_row p rows = Some r \<Longrightarrow> find_row p (rows @ rows') = Some r"
  unfolding find_row_def by (induction rows) auto

lemma find_row_append_None: "find_row p rows = None \<Longrightarrow> find_row p (rows @ rows') = find_row p rows'"
  unfolding find_row_def by (induction rows) auto

lemma find_row_snoc: "find_row p rows = None \<Longrightarrow> p r \<Longrightarrow> find_row p (rows @ [r]) = Some r"
  unfolding find_row_def by (induction rows) (auto split: if_splits)

text \<open>Rows with a key: in a table whose keys are distinct, a key selects one row.\<close>

lemma distinct_key_unique:
  "distinct (map k rows) \<Longrightarrow> r \<in> set rows \<Longrightarrow> r' \<in> set rows \<Longrightarrow> k r = k r' \<Longrightarrow> r = r'"
  by (simp add: distinct_map inj_on_def)

lemma find_row_key:
  assumes "distinct (map k rows)" "r \<in> set rows"
  shows "find_row (\<lambda>x. k x = k r) rows = Some r"
proof (cases "find_row (\<lambda>x. k x = k r) rows")
  case None
  with assms show ?thesis by (auto simp: find_row_None)
next
  case (Some r')
  then have "r' \<in> set rows \<and> k r' = k r" by (rule find_row_Some)
  with assms Some show ?thesis by (metis distinct_key_unique)
qed

text \<open>
  Updating the one row with a given key changes a count by what that row contributes.
\<close>

lemma count_where_upd_key:
  assumes "distinct (map k rows)" "r \<in> set rows"
  shows "count_where q (upd_where (\<lambda>x. k x = k r) f rows) + (if q r then 1 else 0)
       = count_where q rows + (if q (f r) then 1 else 0)"
  using assms
proof (induction rows)
  case Nil
  then show ?case by simp
next
  case (Cons x xs)
  show ?case
  proof (cases "x = r")
    case True
    with Cons.prems have "upd_where (\<lambda>x. k x = k r) f xs = xs"
      by (intro upd_where_id) (metis distinct.simps(2) image_eqI list.map(2) list.set_map)
    with True show ?thesis by simp
  next
    case False
    with Cons.prems have "r \<in> set xs" "distinct (map k xs)" by auto
    with Cons.IH have "count_where q (upd_where (\<lambda>x. k x = k r) f xs) + (if q r then 1 else 0)
       = count_where q xs + (if q (f r) then 1 else 0)" by blast
    moreover from Cons.prems False have "k x \<noteq> k r" by auto
    ultimately show ?thesis by simp
  qed
qed

end
