(* ===== verification/Domain.thy ===== *)
theory Domain
  imports Prelude
begin

text \<open>
  The package \<open>internal/domain\<close>: channels, priorities, request and delivery statuses,
  errors, the entities, the stream messages, the list filter, and the aggregation of
  delivery statuses into a request status.
\<close>

section \<open>Enumerations (enums.go)\<close>

text \<open>
  \<open>Channel\<close> and \<open>Priority\<close> are Go string types: a value decoded from a request may be
  any string, which is why \<open>Valid\<close> exists.
\<close>

type_synonym Channel = string
type_synonym Priority = string

definition ChannelSMS :: Channel where [go_simps]: "ChannelSMS = ''sms''"
definition ChannelEmail :: Channel where [go_simps]: "ChannelEmail = ''email''"
definition ChannelPush :: Channel where [go_simps]: "ChannelPush = ''push''"

definition AllChannels :: "Channel list" where
  [go_simps]: "AllChannels = [ChannelSMS, ChannelEmail, ChannelPush]"

definition Channel_Valid :: "Channel \<Rightarrow> bool" where
  "Channel_Valid c \<longleftrightarrow> c = ChannelSMS \<or> c = ChannelEmail \<or> c = ChannelPush"

definition PriorityHigh :: Priority where [go_simps]: "PriorityHigh = ''high''"
definition PriorityNormal :: Priority where [go_simps]: "PriorityNormal = ''normal''"
definition PriorityLow :: Priority where [go_simps]: "PriorityLow = ''low''"

definition AllPriorities :: "Priority list" where
  [go_simps]: "AllPriorities = [PriorityHigh, PriorityNormal, PriorityLow]"

definition Priority_Valid :: "Priority \<Rightarrow> bool" where
  "Priority_Valid p \<longleftrightarrow> p = PriorityHigh \<or> p = PriorityNormal \<or> p = PriorityLow"

datatype RequestStatus =
  RequestPending | RequestPartial | RequestSent | RequestFailed | RequestCancelled

datatype DeliveryStatus =
    DeliveryScheduled | DeliveryPending | DeliveryProcessing | DeliveryRetrying
  | DeliverySent | DeliveryFailed | DeliveryCancelled

fun RequestStatus_string :: "RequestStatus \<Rightarrow> string" where
  "RequestStatus_string RequestPending = ''PENDING''"
| "RequestStatus_string RequestPartial = ''PARTIAL''"
| "RequestStatus_string RequestSent = ''SENT''"
| "RequestStatus_string RequestFailed = ''FAILED''"
| "RequestStatus_string RequestCancelled = ''CANCELLED''"

fun DeliveryStatus_string :: "DeliveryStatus \<Rightarrow> string" where
  "DeliveryStatus_string DeliveryScheduled = ''SCHEDULED''"
| "DeliveryStatus_string DeliveryPending = ''PENDING''"
| "DeliveryStatus_string DeliveryProcessing = ''PROCESSING''"
| "DeliveryStatus_string DeliveryRetrying = ''RETRYING''"
| "DeliveryStatus_string DeliverySent = ''SENT''"
| "DeliveryStatus_string DeliveryFailed = ''FAILED''"
| "DeliveryStatus_string DeliveryCancelled = ''CANCELLED''"

fun IsTerminal :: "DeliveryStatus \<Rightarrow> bool" where
  "IsTerminal DeliverySent = True"
| "IsTerminal DeliveryFailed = True"
| "IsTerminal DeliveryCancelled = True"
| "IsTerminal _ = False"

definition Stream :: "Priority \<Rightarrow> Channel \<Rightarrow> string" where
  "Stream p c = ''notifications.'' @ p @ ''.'' @ c"

section \<open>Errors (errors.go)\<close>

text \<open>
  The sentinel errors and \<open>ValidationError\<close>; \<open>ErrInfra\<close> is an error of the database
  driver wrapped by \<open>fmt.Errorf\<close>.  \<open>ErrTemplateVariablesMissing\<close> carries the joined list
  the template service wraps it with.
\<close>

datatype error =
    ErrNotFound
  | ErrConflict
  | ErrValidation
  | ErrTemplateVariablesMissing string
  | ErrCancelNotAllowed
  | ValidationError string string
  | ErrInfra string

type_synonym 'a result = "error + 'a"

definition NewValidationError :: "string \<Rightarrow> string \<Rightarrow> error" where
  "NewValidationError field message = ValidationError field message"

text \<open>\<open>errors.Is(err, ErrValidation)\<close>, through \<open>ValidationError.Unwrap\<close>.\<close>

fun is_ErrValidation :: "error \<Rightarrow> bool" where
  "is_ErrValidation ErrValidation = True"
| "is_ErrValidation (ValidationError _ _) = True"
| "is_ErrValidation _ = False"

section \<open>Entities (models.go, message.go, provider.go)\<close>

record Batch =
  b_ID :: uuid
  b_UserID :: string
  b_IdempotencyKey :: "string option"
  b_TotalCount :: int
  b_PendingCount :: int
  b_SentCount :: int
  b_FailedCount :: int
  b_CancelledCount :: int
  b_CreatedAt :: gotime

record Template =
  t_ID :: uuid
  t_Name :: string
  t_Channel :: Channel
  t_Content :: string
  t_RequiredVariables :: "string list"
  t_CreatedAt :: gotime

record Request =
  r_ID :: uuid
  r_UserID :: string
  r_BatchID :: "uuid option"
  r_Recipient :: string
  r_Channel :: Channel
  r_Priority :: Priority
  r_TemplateID :: "uuid option"
  r_RenderedContent :: string
  r_IdempotencyKey :: "string option"
  r_Status :: RequestStatus
  r_CreatedAt :: gotime

record Delivery =
  d_ID :: uuid
  d_RequestID :: uuid
  d_Channel :: Channel
  d_Priority :: Priority
  d_Status :: DeliveryStatus
  d_AttemptCount :: int
  d_ProviderMessageID :: "string option"
  d_LastError :: "string option"
  d_NextRetryAt :: "gotime option"
  d_LockedUntil :: "gotime option"
  d_SendAt :: "gotime option"
  d_CreatedAt :: gotime
  d_UpdatedAt :: gotime

definition DLQStream :: string where [go_simps]: "DLQStream = ''notifications.dlq''"

record DeliveryMessage =
  m_DeliveryID :: uuid
  m_DeliveryCreatedAt :: gotime
  m_RequestID :: uuid
  m_Channel :: Channel
  m_Priority :: Priority
  m_CorrelationID :: string

record DLQMessage =
  dlq_Original :: DeliveryMessage
  dlq_Reason :: string
  dlq_Error :: string
  dlq_AttemptCount :: int
  dlq_Stream :: string
  dlq_EntryID :: string
  dlq_Timestamp :: gotime

record StreamMessage =
  sm_Stream :: string
  sm_ID :: string
  sm_Delivery :: DeliveryMessage

record OutboxRecord =
  or_ID :: uuid
  or_DeliveryID :: uuid
  or_DeliveryCreatedAt :: gotime
  or_Stream :: string
  or_Message :: DeliveryMessage

record BatchItem =
  bi_Request :: Request
  bi_Delivery :: Delivery
  bi_Outbox :: "OutboxRecord option"

record BatchResult =
  br_Batch :: Batch
  br_CreatedCount :: int
  br_DuplicateCount :: int

record OutboxEntry =
  oe_ID :: uuid
  oe_Stream :: string
  oe_Message :: DeliveryMessage

record ProviderRequest =
  pr_DeliveryID :: string
  pr_To :: string
  pr_Channel :: Channel
  pr_Content :: string

record ProviderResult =
  res_MessageID :: string
  res_Status :: string
  res_Timestamp :: gotime

record ProviderError =
  pe_Permanent :: bool
  pe_StatusCode :: int
  pe_RetryAfter :: "duration option"
  pe_BreakerOpen :: bool
  pe_Err :: "string option"

definition ProviderError_Error :: "ProviderError \<Rightarrow> string" where
  "ProviderError_Error e = (case pe_Err e of Some msg \<Rightarrow> msg | None \<Rightarrow> ''provider error'')"

section \<open>List filter (query.go)\<close>

record ListFilter =
  f_UserID :: string
  f_Status :: "string option"
  f_Channel :: "Channel option"
  f_From :: "gotime option"
  f_To :: "gotime option"
  f_Limit :: int
  f_Cursor :: "uuid option"
  f_CursorAt :: "gotime option"

definition Normalize :: "ListFilter \<Rightarrow> ListFilter" where
  "Normalize f =
     (let f1 = (if f_Limit f \<le> 0 then f\<lparr>f_Limit := 50\<rparr> else f)
      in if f_Limit f1 > 200 then f1\<lparr>f_Limit := 200\<rparr> else f1)"

record Page =
  pg_Items :: "Request list"
  pg_NextCursor :: "uuid option"
  pg_NextAt :: "gotime option"

section \<open>Status aggregation (status.go)\<close>

text \<open>The counting loop; \<open>None\<close> is its early \<open>return RequestPending\<close>.\<close>

fun aggregate_loop :: "int \<Rightarrow> int \<Rightarrow> int \<Rightarrow> DeliveryStatus list \<Rightarrow> (int \<times> int \<times> int) option" where
  "aggregate_loop sent failed cancelled [] = Some (sent, failed, cancelled)"
| "aggregate_loop sent failed cancelled (s # ss) =
     (if \<not> IsTerminal s then None
      else case s of
          DeliverySent \<Rightarrow> aggregate_loop (sent + 1) failed cancelled ss
        | DeliveryFailed \<Rightarrow> aggregate_loop sent (failed + 1) cancelled ss
        | DeliveryCancelled \<Rightarrow> aggregate_loop sent failed (cancelled + 1) ss
        | _ \<Rightarrow> aggregate_loop sent failed cancelled ss)"

definition AggregateRequestStatus :: "DeliveryStatus list \<Rightarrow> RequestStatus" where
  "AggregateRequestStatus ds =
     (if ds = [] then RequestPending
      else case aggregate_loop 0 0 0 ds of
          None \<Rightarrow> RequestPending
        | Some (sent, failed, cancelled) \<Rightarrow>
            let total = int (length ds) in
            if sent = total then RequestSent
            else if cancelled = total then RequestCancelled
            else if sent = 0 \<and> failed > 0 then RequestFailed
            else RequestPartial)"

section \<open>Lemmas\<close>

lemma IsTerminal_iff [simp]:
  "IsTerminal s \<longleftrightarrow> s = DeliverySent \<or> s = DeliveryFailed \<or> s = DeliveryCancelled"
  by (cases s) auto

lemma Normalize_Limit: "f_Limit (Normalize f) = (if f_Limit f \<le> 0 then 50 else min (f_Limit f) 200)"
  by (simp add: Normalize_def Let_def)

lemma Normalize_frame [simp]:
  "f_UserID (Normalize f) = f_UserID f" "f_Status (Normalize f) = f_Status f"
  "f_Channel (Normalize f) = f_Channel f" "f_From (Normalize f) = f_From f"
  "f_To (Normalize f) = f_To f" "f_Cursor (Normalize f) = f_Cursor f"
  "f_CursorAt (Normalize f) = f_CursorAt f"
  by (simp_all add: Normalize_def Let_def)

lemma aggregate_loop_spec:
  "aggregate_loop a b c ds =
     (if list_all IsTerminal ds
      then Some (a + int (count_list ds DeliverySent), b + int (count_list ds DeliveryFailed),
                 c + int (count_list ds DeliveryCancelled))
      else None)"
proof (induction ds arbitrary: a b c)
  case Nil
  then show ?case by simp
next
  case (Cons s ss)
  then show ?case by (cases s) (simp_all add: algebra_simps)
qed

lemma terminal_counts:
  "list_all IsTerminal ds \<Longrightarrow>
     count_list ds DeliverySent + count_list ds DeliveryFailed + count_list ds DeliveryCancelled
     = length ds"
  by (induction ds) auto

lemma count_list_eq_length: "count_list ds s = length ds \<longleftrightarrow> set ds \<subseteq> {s}"
proof (induction ds)
  case (Cons d ds)
  then show ?case using count_le_length [of ds s] by auto
qed simp

lemma AggregateRequestStatus_nonterminal:
  "s \<in> set ds \<Longrightarrow> \<not> IsTerminal s \<Longrightarrow> AggregateRequestStatus ds = RequestPending"
  by (auto simp: AggregateRequestStatus_def aggregate_loop_spec list_all_iff)

lemma AggregateRequestStatus_cases:
  "AggregateRequestStatus ds =
     (if ds = [] \<or> \<not> set ds \<subseteq> {DeliverySent, DeliveryFailed, DeliveryCancelled} then RequestPending
      else if set ds \<subseteq> {DeliverySent} then RequestSent
      else if set ds \<subseteq> {DeliveryCancelled} then RequestCancelled
      else if DeliverySent \<notin> set ds then RequestFailed
      else RequestPartial)"
proof (cases "ds = [] \<or> \<not> list_all IsTerminal ds")
  case True
  then show ?thesis
    by (auto simp: AggregateRequestStatus_def aggregate_loop_spec list_all_iff)
next
  case False
  then have t: "list_all IsTerminal ds" and ne: "ds \<noteq> []" by auto
  then have sub: "set ds \<subseteq> {DeliverySent, DeliveryFailed, DeliveryCancelled}"
    by (auto simp: list_all_iff)
  have sent0: "DeliverySent \<notin> set ds \<longleftrightarrow> count_list ds DeliverySent = 0"
    by (simp add: count_list_0_iff)
  have fpos: "0 < count_list ds DeliveryFailed"
    if "DeliverySent \<notin> set ds" "\<not> set ds \<subseteq> {DeliveryCancelled}"
    using that terminal_counts [OF t] by (simp add: sent0 flip: count_list_eq_length)
  show ?thesis
    using t ne sub fpos
    by (auto simp: AggregateRequestStatus_def aggregate_loop_spec sent0 Let_def
        simp flip: count_list_eq_length)
qed

end
