(* ===== verification/Float64.thy ===== *)
theory Float64
  imports Prelude "HOL-Library.Log_Nat" Complex_Main
begin

text \<open>
  The fragment of Go's \<open>float64\<close> arithmetic that the retry jitter uses.  A finite double is
  the rational it denotes, and every operation is the exact one followed by \<open>f64\<close>, rounding
  to 53 significant bits with ties to even (IEEE 754 binary64 without the exponent bounds,
  which durations in nanoseconds never reach).  \<open>duration_of_f64\<close> is the conversion
  \<open>time.Duration(x)\<close>, which discards the fraction.
\<close>

section \<open>Rounding\<close>

definition ilog2 :: "rat \<Rightarrow> int" where
  "ilog2 x = (let (a, b) = quotient_of x;
                  k = int (floorlog 2 (nat a)) - int (floorlog 2 (nat b))
              in if 2 powi k \<le> x then k else k - 1)"

definition round_even :: "rat \<Rightarrow> int" where
  "round_even y = (let n = \<lfloor>y\<rfloor>; r = y - of_int n
                   in if r < 1/2 \<or> (r = 1/2 \<and> even n) then n else n + 1)"

definition f64 :: "rat \<Rightarrow> rat" where
  "f64 x = (if x = 0 then 0
            else let e = ilog2 \<bar>x\<bar> - 52 in of_int (round_even (x / 2 powi e)) * 2 powi e)"

definition duration_of_f64 :: "rat \<Rightarrow> int" where
  "duration_of_f64 x = (if x < 0 then \<lceil>x\<rceil> else \<lfloor>x\<rfloor>)"

section \<open>Properties of the rounding\<close>

lemma powi2_less_iff: "(2::rat) powi m < 2 powi n \<longleftrightarrow> m < n"
  using power_int_strict_increasing [of m n "2::rat"] power_int_increasing [of n m "2::rat"]
  by (cases "m < n") auto

lemma powi2_le_iff: "(2::rat) powi m \<le> 2 powi n \<longleftrightarrow> m \<le> n"
  using powi2_less_iff [of n m] by (simp add: not_less [symmetric])

lemma floorlog_bounds: "0 < n \<Longrightarrow> 2 ^ (floorlog 2 n - 1) \<le> n \<and> n < 2 ^ floorlog 2 n \<and> 0 < floorlog 2 n"
  using floorlog_bounds [of n 2] by (auto simp: floorlog_def)

lemma ilog2_bounds:
  assumes "0 < x"
  shows "2 powi ilog2 x \<le> x" "x < 2 powi (ilog2 x + 1)"
proof -
  obtain a b where q: "quotient_of x = (a, b)" by (cases "quotient_of x")
  then have b: "0 < b" and x: "x = of_int a / of_int b"
    by (rule quotient_of_denom_pos, rule quotient_of_div)
  with assms have a: "0 < a" by (simp add: zero_less_divide_iff)
  define m where "m = floorlog 2 (nat a)"
  define n where "n = floorlog 2 (nat b)"
  have m: "2 ^ (m - 1) \<le> nat a" "nat a < 2 ^ m" "0 < m"
    and n: "2 ^ (n - 1) \<le> nat b" "nat b < 2 ^ n" "0 < n"
    using floorlog_bounds [of "nat a"] floorlog_bounds [of "nat b"] a b by (auto simp: m_def n_def)
  have am: "(2::rat) ^ (m - 1) \<le> of_int a" "of_int a < (2::rat) ^ m"
  proof -
    have "of_nat (2 ^ (m - 1)) \<le> (of_nat (nat a) :: rat)" using m(1) by (rule of_nat_mono)
    then show "(2::rat) ^ (m - 1) \<le> of_int a" using a by simp
    have "(of_nat (nat a) :: rat) < of_nat (2 ^ m)" using m(2) by (simp only: of_nat_less_iff)
    then show "of_int a < (2::rat) ^ m" using a by simp
  qed
  have bn: "(2::rat) ^ (n - 1) \<le> of_int b" "of_int b < (2::rat) ^ n"
  proof -
    have "of_nat (2 ^ (n - 1)) \<le> (of_nat (nat b) :: rat)" using n(1) by (rule of_nat_mono)
    then show "(2::rat) ^ (n - 1) \<le> of_int b" using b by simp
    have "(of_nat (nat b) :: rat) < of_nat (2 ^ n)" using n(2) by (simp only: of_nat_less_iff)
    then show "of_int b < (2::rat) ^ n" using b by simp
  qed
  define k where "k = int m - int n"
  have lo: "2 powi (k - 1) \<le> x"
  proof -
    have "2 powi (k - 1) = (2::rat) ^ (m - 1) / 2 ^ n"
      using m(3) by (simp add: k_def power_int_diff of_nat_diff flip: power_int_of_nat)
    also have "\<dots> \<le> of_int a / of_int b" using am bn a b by (intro frac_le) auto
    finally show ?thesis by (simp add: x)
  qed
  have hi: "x < 2 powi (k + 1)"
  proof -
    have "of_int a / of_int b < (2::rat) ^ m / 2 ^ (n - 1)" using am bn b a by (intro frac_less) auto
    also have "\<dots> = 2 powi (k + 1)"
      using n(3) by (simp add: k_def power_int_diff power_int_add of_nat_diff flip: power_int_of_nat)
    finally show ?thesis by (simp add: x)
  qed
  have "ilog2 x = (if 2 powi k \<le> x then k else k - 1)"
    by (simp add: ilog2_def q k_def m_def n_def)
  then show "2 powi ilog2 x \<le> x" "x < 2 powi (ilog2 x + 1)" using lo hi by auto
qed

lemma round_even_mono: "x \<le> y \<Longrightarrow> round_even x \<le> round_even y"
proof -
  assume xy: "x \<le> y"
  then have f: "\<lfloor>x\<rfloor> \<le> \<lfloor>y\<rfloor>" by (rule floor_mono)
  show ?thesis
  proof (cases "\<lfloor>x\<rfloor> = \<lfloor>y\<rfloor>")
    case True
    with xy show ?thesis by (auto simp: round_even_def Let_def)
  next
    case False
    with f show ?thesis by (auto simp: round_even_def Let_def)
  qed
qed

lemma round_even_of_int [simp]: "round_even (of_int n) = n"
  by (simp add: round_even_def)

lemma round_even_minus: "round_even (- x) = - round_even x"
proof (cases "x = of_int \<lfloor>x\<rfloor>")
  case True
  then show ?thesis by (metis of_int_minus round_even_of_int)
next
  case False
  define n where "n = \<lfloor>x\<rfloor>"
  have b: "of_int n < x" "x < of_int n + 1" using False n_def floor_correct [of x] by linarith+
  have "\<lfloor>- x\<rfloor> = - n - 1" using b by (intro floor_unique) auto
  then show ?thesis using b n_def [symmetric] by (auto simp: round_even_def Let_def)
qed

lemma ilog2_mono:
  assumes "0 < x" "x \<le> y"
  shows "ilog2 x \<le> ilog2 y"
proof -
  have "2 powi ilog2 x < (2::rat) powi (ilog2 y + 1)"
    using ilog2_bounds [of x] ilog2_bounds [of y] assms by linarith
  then have "ilog2 x < ilog2 y + 1" by (simp add: powi2_less_iff)
  then show ?thesis by simp
qed

lemma f64_zero [simp]: "f64 0 = 0"
  by (simp add: f64_def)

lemma f64_minus: "f64 (- x) = - f64 x"
  by (simp add: f64_def Let_def round_even_minus flip: minus_divide_left)

lemma f64_binade:
  assumes "0 < x"
  shows "2 powi ilog2 x \<le> f64 x" "f64 x \<le> 2 powi (ilog2 x + 1)"
proof -
  define e where "e = ilog2 x - 52"
  have p: "(0::rat) < 2 powi e" by simp
  have b: "2 ^ 52 * 2 powi e \<le> x" "x \<le> 2 ^ 53 * 2 powi e"
    using ilog2_bounds [OF assms] by (simp_all add: e_def power_int_diff power_int_add)
  then have "of_int (2 ^ 52) \<le> x / 2 powi e" "x / 2 powi e \<le> of_int (2 ^ 53)"
    using p by (simp_all add: pos_le_divide_eq pos_divide_le_eq)
  then have r: "2 ^ 52 \<le> round_even (x / 2 powi e)" "round_even (x / 2 powi e) \<le> 2 ^ 53"
    by (metis round_even_mono round_even_of_int)+
  have f: "f64 x = of_int (round_even (x / 2 powi e)) * 2 powi e"
    using assms by (simp add: f64_def Let_def e_def)
  have "of_int (2 ^ 52) * 2 powi e \<le> f64 x" "f64 x \<le> of_int (2 ^ 53) * 2 powi e"
    unfolding f using r p by (auto intro!: mult_right_mono simp del: of_int_power of_int_numeral)
  then show "2 powi ilog2 x \<le> f64 x" "f64 x \<le> 2 powi (ilog2 x + 1)"
    by (simp_all add: e_def power_int_diff power_int_add)
qed

lemma f64_pos: "0 < x \<Longrightarrow> 0 < f64 x"
  using f64_binade(1) [of x] by (meson less_le_trans zero_less_numeral zero_less_power_int)

lemma f64_mono_pos:
  assumes "0 < x" "x \<le> y"
  shows "f64 x \<le> f64 y"
proof (cases "ilog2 x = ilog2 y")
  case True
  have "round_even (x / 2 powi (ilog2 y - 52)) \<le> round_even (y / 2 powi (ilog2 y - 52))"
    using assms by (intro round_even_mono divide_right_mono) auto
  with True assms show ?thesis by (simp add: f64_def Let_def mult_right_mono)
next
  case False
  with ilog2_mono [OF assms] have "ilog2 x + 1 \<le> ilog2 y" by simp
  then have "(2::rat) powi (ilog2 x + 1) \<le> 2 powi ilog2 y"
    by (simp add: powi2_le_iff)
  with f64_binade(2) [of x] f64_binade(1) [of y] assms show ?thesis by linarith
qed

lemma f64_mono:
  assumes "x \<le> y"
  shows "f64 x \<le> f64 y"
proof -
  consider "0 < x" | "y < 0" | "x \<le> 0" "0 \<le> y" by linarith
  then show ?thesis
  proof cases
    case 1
    with assms show ?thesis by (intro f64_mono_pos)
  next
    case 2
    with assms have "f64 (- y) \<le> f64 (- x)" by (intro f64_mono_pos) auto
    then show ?thesis by (simp add: f64_minus)
  next
    case 3
    have "f64 x \<le> 0" using 3 f64_pos [of "- x"] by (cases "x = 0") (auto simp: f64_minus)
    moreover have "0 \<le> f64 y" using 3 f64_pos [of y] by (cases "y = 0") auto
    ultimately show ?thesis by simp
  qed
qed

text \<open>A number with at most 53 significant bits is a double: rounding keeps it.\<close>

lemma f64_exact_pos:
  assumes "0 < n" "n \<le> 2 ^ 53"
  shows "f64 (of_int n * 2 powi e) = of_int n * 2 powi e"
proof -
  define v where "v = (of_int n * 2 powi e :: rat)"
  define e' where "e' = ilog2 v - 52"
  have v: "0 < v" using assms by (simp add: v_def)
  have "\<exists>k. v = of_int k * 2 powi e'"
  proof (cases "e' \<le> e")
    case True
    have "(2::rat) powi e = 2 powi (e - e') * 2 powi e'" by (simp flip: power_int_add)
    also have "(2::rat) powi (e - e') = of_int (2 ^ nat (e - e'))" using True by (simp add: power_int_def)
    finally have "v = of_int (n * 2 ^ nat (e - e')) * 2 powi e'" by (simp add: v_def)
    then show ?thesis by blast
  next
    case False
    have "of_int n \<le> (of_int (2 ^ 53) :: rat)" using assms(2) by (simp only: of_int_le_iff)
    then have le: "v \<le> 2 ^ 53 * 2 powi e" by (simp add: v_def)
    have "(2::rat) powi (e + 53) \<le> 2 powi ilog2 v"
      using False by (simp add: e'_def powi2_le_iff)
    also have "\<dots> \<le> v" using v by (rule ilog2_bounds)
    finally have "2 powi (e + 53) \<le> v" .
    with le have "v = 2 powi (e + 53)" by (simp add: power_int_add)
    moreover from this have "ilog2 v = e + 53"
    proof -
      have "(2::rat) powi ilog2 v \<le> 2 powi (e + 53)" "(2::rat) powi (e + 53) < 2 powi (ilog2 v + 1)"
        using ilog2_bounds [OF v] \<open>v = 2 powi (e + 53)\<close> by auto
      then show ?thesis by (simp add: powi2_le_iff powi2_less_iff)
    qed
    ultimately have "v = of_int (2 ^ 52) * 2 powi e'"
      by (simp add: e'_def power_int_add)
    then show ?thesis by blast
  qed
  then obtain k where k: "v = of_int k * 2 powi e'" by blast
  then have "round_even (v / 2 powi e') = k" by simp
  moreover have "f64 v = of_int (round_even (v / 2 powi e')) * 2 powi e'"
    using v by (simp add: f64_def Let_def e'_def)
  ultimately have "f64 v = v" by (simp add: k)
  then show ?thesis by (simp add: v_def)
qed

lemma f64_exact:
  assumes "\<bar>n\<bar> \<le> 2 ^ 53"
  shows "f64 (of_int n * 2 powi e) = of_int n * 2 powi e"
proof -
  consider "0 < n" | "n = 0" | "0 < - n" by linarith
  then show ?thesis
  proof cases
    case 3
    with assms have "f64 (of_int (- n) * 2 powi e) = of_int (- n) * 2 powi e"
      by (intro f64_exact_pos) auto
    then show ?thesis by (simp add: f64_minus)
  qed (use assms f64_exact_pos in auto)
qed

lemma f64_of_int: "\<bar>n\<bar> \<le> 2 ^ 53 \<Longrightarrow> f64 (of_int n) = of_int n"
  using f64_exact [of n 0] by simp

lemma f64_idem [simp]: "f64 (f64 x) = f64 x"
proof (cases "x = 0")
  case False
  define e where "e = ilog2 \<bar>x\<bar> - 52"
  define n where "n = round_even (\<bar>x\<bar> / 2 powi e)"
  have x: "0 < \<bar>x\<bar>" using False by simp
  have f: "f64 \<bar>x\<bar> = of_int n * 2 powi e" using x by (simp add: f64_def Let_def e_def n_def)
  have "f64 \<bar>x\<bar> \<le> of_int (2 ^ 53) * 2 powi e"
    using f64_binade(2) [OF x] by (simp add: e_def power_int_diff power_int_add)
  then have "n \<le> 2 ^ 53" unfolding f by (simp del: of_int_power of_int_numeral)
  moreover have "\<not> (2::rat) powi e < 0" by (simp add: not_less)
  then have "0 < n" using f64_pos [OF x] unfolding f by (simp add: zero_less_mult_iff)
  ultimately have "f64 (f64 \<bar>x\<bar>) = f64 \<bar>x\<bar>" unfolding f by (intro f64_exact_pos)
  then show ?thesis by (cases "x < 0") (auto simp: f64_minus)
qed simp

lemma f64_abs: "f64 \<bar>x\<bar> = \<bar>f64 x\<bar>"
  using f64_mono [of 0 x] f64_mono [of x 0] by (cases "x < 0") (auto simp: f64_minus)

text \<open>Scaling a double by a factor of at most one never leaves its magnitude.\<close>

lemma f64_scale_le:
  assumes "\<bar>m\<bar> \<le> 1"
  shows "\<bar>f64 (m * f64 x)\<bar> \<le> \<bar>f64 x\<bar>"
proof -
  have "\<bar>m * f64 x\<bar> \<le> \<bar>f64 x\<bar>" using assms by (simp add: abs_mult mult_left_le_one_le)
  then have "f64 \<bar>m * f64 x\<bar> \<le> f64 \<bar>f64 x\<bar>" by (rule f64_mono)
  then show ?thesis by (simp add: f64_abs)
qed

lemma duration_of_f64_mono: "x \<le> y \<Longrightarrow> duration_of_f64 x \<le> duration_of_f64 y"
proof -
  assume xy: "x \<le> y"
  have "\<lceil>x\<rceil> \<le> \<lfloor>y\<rfloor>" if "x < 0" "0 \<le> y"
  proof -
    from that have "\<lceil>x\<rceil> \<le> 0" by (simp add: ceiling_le_iff)
    also have "0 \<le> \<lfloor>y\<rfloor>" using that by simp
    finally show ?thesis .
  qed
  with xy show ?thesis by (auto simp: duration_of_f64_def ceiling_mono floor_mono)
qed

lemma duration_of_f64_of_int [simp]: "duration_of_f64 (of_int n) = n"
  by (simp add: duration_of_f64_def)


section \<open>Values that are not finite\<close>

text \<open>
  A \<open>float64\<close> as the configuration may hold it; \<open>Infinite True\<close> is the negative infinity.
  A comparison with \<open>NaN\<close> is false.
\<close>

datatype float64 = Finite rat | Infinite bool | NaN

fun f64_ge :: "float64 \<Rightarrow> float64 \<Rightarrow> bool" where
  "f64_ge NaN y = False"
| "f64_ge x NaN = False"
| "f64_ge (Finite x) (Finite y) = (x \<ge> y)"
| "f64_ge (Infinite neg) (Finite y) = (\<not> neg)"
| "f64_ge (Finite x) (Infinite neg) = neg"
| "f64_ge (Infinite neg) (Infinite neg') = (\<not> neg \<or> neg')"

text \<open>The quotient of two unsigned integers that a double holds exactly.\<close>

definition f64_ratio :: "nat \<Rightarrow> nat \<Rightarrow> float64" where
  "f64_ratio a b =
     (if b = 0 then if a = 0 then NaN else Infinite False else Finite (f64 (of_nat a / of_nat b)))"

end
