(* ===== verification/Retry.thy ===== *)
theory Retry
  imports Domain Float64
begin

text \<open>
  The package \<open>internal/delivery\<close> (retry.go): the retry policy.  A draw of
  \<open>rng.Float64()\<close> is the argument \<open>u\<close> of the functions that make it.  An index out of
  range panics in Go; \<open>backoffFor\<close> and \<open>EvaluateFailure\<close> return \<open>None\<close> there.
\<close>

section \<open>Model\<close>

record Policy =
  MaxAttempts :: int
  Backoff :: "duration list"
  JitterRatio :: rat

definition NewPolicy :: "int \<Rightarrow> duration list \<Rightarrow> rat \<Rightarrow> Policy" where
  "NewPolicy maxAttempts backoff jitterRatio =
     \<lparr>MaxAttempts = maxAttempts, Backoff = backoff, JitterRatio = jitterRatio\<rparr>"

record Outcome =
  out_Status :: DeliveryStatus
  out_AttemptCount :: int
  out_NextRetryAt :: "gotime option"

definition applyJitter :: "Policy \<Rightarrow> rat \<Rightarrow> duration \<Rightarrow> duration" where
  "applyJitter p u d =
     (if JitterRatio p \<le> 0 then d
      else let delta = f64 (f64 (of_int d) * JitterRatio p);
               offset = f64 (f64 (f64 (u * 2) - 1) * delta);
               jittered = duration_of_f64 (f64 (f64 (of_int d) + offset))
           in if jittered < 0 then 0 else jittered)"

definition backoffFor :: "Policy \<Rightarrow> rat \<Rightarrow> int \<Rightarrow> duration option" where
  "backoffFor p u attempt =
     (if Backoff p = [] then Some Minute
      else let idx = attempt - 1;
               idx = (if idx \<ge> int (length (Backoff p)) then int (length (Backoff p)) - 1 else idx)
           in if idx < 0 then None
              else Some (applyJitter p u (Backoff p ! nat idx)))"

definition EvaluateFailure :: "Policy \<Rightarrow> rat \<Rightarrow> gotime \<Rightarrow> int \<Rightarrow> ProviderError option \<Rightarrow> Outcome option" where
  "EvaluateFailure p u now currentAttempts perr =
     (let attempts = currentAttempts + 1;
          failed = \<lparr>out_Status = DeliveryFailed, out_AttemptCount = attempts, out_NextRetryAt = None\<rparr>;
          retry = (\<lambda>wait. \<lparr>out_Status = DeliveryRetrying, out_AttemptCount = attempts,
                           out_NextRetryAt = Some (now + wait)\<rparr>)
      in case perr of
           Some e \<Rightarrow>
             if pe_Permanent e then Some failed
             else if attempts \<ge> MaxAttempts p then Some failed
             else (case pe_RetryAfter e of
                     Some ra \<Rightarrow> if ra > 0 then Some (retry ra)
                                else map_option retry (backoffFor p u attempts)
                   | None \<Rightarrow> map_option retry (backoffFor p u attempts))
         | None \<Rightarrow>
             if attempts \<ge> MaxAttempts p then Some failed
             else map_option retry (backoffFor p u attempts))"

text \<open>
  The attempts of one delivery: a failure history is the list of what each failed attempt saw
  (draw, instant, error).  \<open>attempt_history\<close> feeds the outcome of each failure into the next
  one and stops at the first outcome that is not a retry.
\<close>

type_synonym failure = "rat \<times> gotime \<times> ProviderError option"

fun attempt_history :: "Policy \<Rightarrow> int \<Rightarrow> failure list \<Rightarrow> Outcome list" where
  "attempt_history p n [] = []"
| "attempt_history p n ((u, now, e) # fs) =
     (case EvaluateFailure p u now n e of
        None \<Rightarrow> []
      | Some out \<Rightarrow>
          if out_Status out = DeliveryRetrying
          then out # attempt_history p (out_AttemptCount out) fs
          else [out])"

section \<open>Lemmas\<close>

lemma applyJitter_nonneg: "0 \<le> d \<Longrightarrow> 0 \<le> applyJitter p u d"
  by (simp add: applyJitter_def Let_def)

lemma unit_draw:
  assumes "0 \<le> u" "u \<le> 1"
  shows "\<bar>f64 (f64 (u * 2) - 1)\<bar> \<le> 1"
proof -
  have two: "f64 2 = 2" and one: "f64 1 = 1" using f64_of_int [of 2] f64_of_int [of 1] by simp_all
  have "0 \<le> f64 (u * 2)" "f64 (u * 2) \<le> 2"
    using f64_mono [of 0 "u * 2"] f64_mono [of "u * 2" 2] assms two by simp_all
  then have "f64 (- 1) \<le> f64 (f64 (u * 2) - 1)" "f64 (f64 (u * 2) - 1) \<le> f64 1"
    by (auto intro!: f64_mono)
  then show ?thesis by (simp add: one f64_minus)
qed

lemma applyJitter_within:
  fixes p d
  defines "delta \<equiv> f64 (f64 (of_int d) * JitterRatio p)"
  assumes "0 < JitterRatio p" "0 \<le> u" "u \<le> 1" "0 \<le> d"
  shows "max 0 (duration_of_f64 (f64 (f64 (of_int d) - delta))) \<le> applyJitter p u d"
    and "applyJitter p u d \<le> duration_of_f64 (f64 (f64 (of_int d) + delta))"
proof -
  define m where "m = f64 (f64 (u * 2) - 1)"
  have fd: "0 \<le> f64 (of_int d)" using f64_mono [of 0 "of_int d"] assms by simp
  then have delta0: "0 \<le> delta"
    unfolding delta_def using f64_mono [of 0 "f64 (of_int d) * JitterRatio p"] assms by simp
  have "\<bar>f64 (m * delta)\<bar> \<le> \<bar>delta\<bar>"
    unfolding delta_def m_def using assms by (intro f64_scale_le unit_draw)
  with delta0 have off: "- delta \<le> f64 (m * delta)" "f64 (m * delta) \<le> delta" by auto
  have lo: "f64 (f64 (of_int d) - delta) \<le> f64 (f64 (of_int d) + f64 (m * delta))"
    and hi: "f64 (f64 (of_int d) + f64 (m * delta)) \<le> f64 (f64 (of_int d) + delta)"
    using off by (auto intro: f64_mono)
  have "0 \<le> f64 (f64 (of_int d) + delta)"
    using f64_mono [of 0 "f64 (of_int d) + delta"] fd delta0 by simp
  then have nonneg: "0 \<le> duration_of_f64 (f64 (f64 (of_int d) + delta))"
    by (simp add: duration_of_f64_def)
  have j: "applyJitter p u d = max 0 (duration_of_f64 (f64 (f64 (of_int d) + f64 (m * delta))))"
    using assms by (simp add: applyJitter_def Let_def delta_def m_def max_def)
  show "max 0 (duration_of_f64 (f64 (f64 (of_int d) - delta))) \<le> applyJitter p u d"
    "applyJitter p u d \<le> duration_of_f64 (f64 (f64 (of_int d) + delta))"
    unfolding j using duration_of_f64_mono [OF lo] duration_of_f64_mono [OF hi] nonneg by auto
qed

lemma backoffFor_defined:
  assumes "1 \<le> attempt"
  shows "backoffFor p u attempt =
     Some (if Backoff p = [] then Minute
           else applyJitter p u (Backoff p ! min (nat attempt - 1) (length (Backoff p) - 1)))"
proof (cases "Backoff p")
  case (Cons b bs)
  have "nat (attempt - 1) = nat attempt - 1" by simp
  with Cons assms show ?thesis by (auto simp: backoffFor_def Let_def min_def nat_le_iff)
qed (simp add: backoffFor_def)

lemmas EvaluateFailure_unfold = EvaluateFailure_def Let_def

lemma EvaluateFailure_attempts:
  "EvaluateFailure p u now n e = Some out \<Longrightarrow> out_AttemptCount out = n + 1"
  by (auto simp: EvaluateFailure_unfold split: option.splits if_splits)

lemma EvaluateFailure_retrying:
  "EvaluateFailure p u now n e = Some out \<Longrightarrow> out_Status out = DeliveryRetrying \<Longrightarrow> n + 1 < MaxAttempts p"
  by (auto simp: EvaluateFailure_unfold split: option.splits if_splits)

lemma EvaluateFailure_defined:
  assumes "0 \<le> n"
  shows "\<exists>out. EvaluateFailure p u now n e = Some out
           \<and> (out_Status out = DeliveryRetrying \<or> out_Status out = DeliveryFailed)"
  using backoffFor_defined [of "n + 1" p u] assms
  by (auto simp: EvaluateFailure_unfold split: option.splits)

lemma attempt_history_length:
  "0 \<le> n \<Longrightarrow> length (attempt_history p n fs) \<le> nat (MaxAttempts p - n) \<or> length (attempt_history p n fs) \<le> 1"
proof (induction p n fs rule: attempt_history.induct)
  case (2 p n u now e fs)
  obtain out where out: "EvaluateFailure p u now n e = Some out"
    using EvaluateFailure_defined [OF "2.prems"] by blast
  show ?case
  proof (cases "out_Status out = DeliveryRetrying")
    case True
    have lt: "n + 1 < MaxAttempts p" using EvaluateFailure_retrying [OF out True] .
    have a: "out_AttemptCount out = n + 1" using EvaluateFailure_attempts [OF out] .
    from "2.IH" [OF out True] "2.prems" a
    have "length (attempt_history p (n + 1) fs) \<le> nat (MaxAttempts p - (n + 1))
        \<or> length (attempt_history p (n + 1) fs) \<le> 1" by simp
    with out True a lt show ?thesis by auto
  next
    case False
    with out show ?thesis by simp
  qed
qed simp

section \<open>Properties\<close>

text \<open>
  C21. \<open>EvaluateFailure\<close> never panics on a non-negative attempt count, counts the attempt, fails
  the delivery on a permanent error or when the attempts are used up, and otherwise schedules
  the retry at the provider's positive \<open>Retry-After\<close> or else at the jittered backoff entry of
  this attempt, the last entry serving every later attempt.
\<close>

theorem EvaluateFailure_correct:
  assumes "0 \<le> n"
  shows "EvaluateFailure p u now n perr = Some
     (if (\<exists>e. perr = Some e \<and> pe_Permanent e) \<or> MaxAttempts p \<le> n + 1
      then \<lparr>out_Status = DeliveryFailed, out_AttemptCount = n + 1, out_NextRetryAt = None\<rparr>
      else \<lparr>out_Status = DeliveryRetrying, out_AttemptCount = n + 1,
            out_NextRetryAt = Some (now +
              (case Option.bind perr pe_RetryAfter of
                 Some ra \<Rightarrow> if 0 < ra then ra
                   else if Backoff p = [] then Minute
                   else applyJitter p u (Backoff p ! min (nat n) (length (Backoff p) - 1))
               | None \<Rightarrow> if Backoff p = [] then Minute
                   else applyJitter p u (Backoff p ! min (nat n) (length (Backoff p) - 1))))\<rparr>)"
  using backoffFor_defined [of "n + 1" p u] assms
  by (auto simp: EvaluateFailure_unfold nat_add_distrib split: option.splits)

theorem EvaluateFailure_correct_witness:
  "EvaluateFailure \<lparr>MaxAttempts = 3, Backoff = [60, 300], JitterRatio = 0\<rparr> 0 1000 1 None =
     Some \<lparr>out_Status = DeliveryRetrying, out_AttemptCount = 2, out_NextRetryAt = Some 1300\<rparr>"
  using EvaluateFailure_correct [of 1 "\<lparr>MaxAttempts = 3, Backoff = [60, 300], JitterRatio = 0\<rparr>" 0 1000 None]
  by (simp add: applyJitter_def)

text \<open>
  C33. Attempts are bounded: whatever the provider answers, a delivery that starts with no
  attempts sees at most \<open>max 1 MaxAttempts\<close> outcomes before the policy stops retrying it.
\<close>

theorem attempts_bounded:
  "length (attempt_history p 0 fs) \<le> nat (max 1 (MaxAttempts p))"
  using attempt_history_length [of 0 p fs] by auto



end
