(* ===== verification/GoStrings.thy ===== *)
theory GoStrings
  imports Prelude "HOL-Library.List_Lexorder" "HOL-Library.Char_ord" "HOL-Library.Sublist"
begin

text \<open>
  The parts of Go's string library that the source uses, on byte strings: \<open>strings.TrimSpace\<close>,
  \<open>strings.Join\<close>, \<open>strings.Split\<close> on one separator byte,
  \<open>strings.ToLower\<close>, and \<open>sort.Strings\<close>.
\<close>

section \<open>White space\<close>

text \<open>
  The UTF-8 encodings of the runes that \<open>unicode.IsSpace\<close> accepts.  Trimming removes them as
  byte sequences from either end; every one starts with its own start byte, so a suffix of a
  string that is one of them is its last rune.
\<close>

definition space_runes :: "string list" where
  "space_runes =
     [[CHR '' ''], [CHR 0x09], [CHR 0x0A], [CHR 0x0B], [CHR 0x0C], [CHR 0x0D],
      [CHR 0xC2, CHR 0x85], [CHR 0xC2, CHR 0xA0], [CHR 0xE1, CHR 0x9A, CHR 0x80],
      [CHR 0xE2, CHR 0x80, CHR 0x80], [CHR 0xE2, CHR 0x80, CHR 0x81], [CHR 0xE2, CHR 0x80, CHR 0x82],
      [CHR 0xE2, CHR 0x80, CHR 0x83], [CHR 0xE2, CHR 0x80, CHR 0x84], [CHR 0xE2, CHR 0x80, CHR 0x85],
      [CHR 0xE2, CHR 0x80, CHR 0x86], [CHR 0xE2, CHR 0x80, CHR 0x87], [CHR 0xE2, CHR 0x80, CHR 0x88],
      [CHR 0xE2, CHR 0x80, CHR 0x89], [CHR 0xE2, CHR 0x80, CHR 0x8A], [CHR 0xE2, CHR 0x80, CHR 0xA8],
      [CHR 0xE2, CHR 0x80, CHR 0xA9], [CHR 0xE2, CHR 0x80, CHR 0xAF], [CHR 0xE2, CHR 0x81, CHR 0x9F],
      [CHR 0xE3, CHR 0x80, CHR 0x80]]"

function strip :: "string list \<Rightarrow> string \<Rightarrow> string" where
  "strip runes s =
     (case find (\<lambda>r. r \<noteq> [] \<and> prefix r s) runes of
        Some r \<Rightarrow> strip runes (drop (length r) s)
      | None \<Rightarrow> s)"
  by pat_completeness auto
termination
  by (relation "measure (\<lambda>(runes, s). length s)") (auto simp: find_Some_iff prefix_def)

declare strip.simps [simp del]

definition TrimSpace :: "string \<Rightarrow> string" where
  "TrimSpace s = rev (strip (map rev space_runes) (rev (strip space_runes s)))"

text \<open>A blank string: nothing is left of it after trimming.\<close>

definition blank :: "string \<Rightarrow> bool" where
  "blank s \<longleftrightarrow> TrimSpace s = []"

lemma strip_Nil [simp]: "strip runes [] = []"
  by (subst strip.simps) (auto split: option.splits simp: find_Some_iff)

lemma TrimSpace_Nil [simp]: "TrimSpace [] = []"
  by (simp add: TrimSpace_def)

lemma strip_id: "list_all (\<lambda>r. hd r \<noteq> hd s) runes \<Longrightarrow> strip runes s = s"
  by (subst strip.simps)
    (auto split: option.splits simp: find_Some_iff list_all_iff prefix_def hd_append)

text \<open>A string whose first and last bytes begin no white space is left alone.\<close>

lemma TrimSpace_id:
  assumes "list_all (\<lambda>r. hd r \<noteq> hd s \<and> last r \<noteq> last s) space_runes"
  shows "TrimSpace s = s"
proof -
  have "strip space_runes s = s" using assms by (intro strip_id) (auto simp: list_all_iff)
  moreover have "list_all (\<lambda>r. hd r \<noteq> hd (rev s)) (map rev space_runes)"
    using assms by (auto simp: list_all_iff hd_rev)
  ultimately show ?thesis by (simp add: TrimSpace_def strip_id)
qed

section \<open>Join, split, lower case\<close>

fun Join :: "string list \<Rightarrow> string \<Rightarrow> string" where
  "Join [] sep = []"
| "Join [s] sep = s"
| "Join (s # ss) sep = s @ sep @ Join ss sep"

fun Split :: "string \<Rightarrow> char \<Rightarrow> string list" where
  "Split [] sep = [[]]"
| "Split (c # cs) sep =
     (if c = sep then [] # Split cs sep
      else case Split cs sep of [] \<Rightarrow> [[c]] | part # parts \<Rightarrow> (c # part) # parts)"

text \<open>
  \<open>ToLower\<close> as its callers need it, which compare the result with ASCII names: beyond ASCII only the
  two letters are mapped whose lower case is an ASCII letter (the dotted capital I and the Kelvin sign).
\<close>

fun ToLower :: "string \<Rightarrow> string" where
  "ToLower [] = []"
| "ToLower (c # cs) =
     (if CHR ''A'' \<le> c \<and> c \<le> CHR ''Z'' then char_of (of_char c + 32 :: nat) # ToLower cs
      else if c = CHR 0xC4 \<and> take 1 cs = [CHR 0xB0] then CHR ''i'' # ToLower (drop 1 cs)
      else if c = CHR 0xE2 \<and> take 2 cs = [CHR 0x84, CHR 0xAA] then CHR ''k'' # ToLower (drop 2 cs)
      else c # ToLower cs)"

lemma Split_nonempty [simp]: "Split s sep \<noteq> []"
  by (induction s) (auto split: list.splits)

lemma Join_Split: "Join (Split s sep) [sep] = s"
proof (induction s)
  case (Cons c cs)
  then show ?case
    by (cases "Split cs sep" rule: list.exhaust; cases "tl (Split cs sep)")
      (auto split: list.splits)
qed simp

text \<open>
  The verb \<open>%q\<close> on printable text: double quotes around it, with quotes and backslashes escaped.
\<close>

definition go_quote :: "string \<Rightarrow> string" where
  "go_quote s = [CHR 0x22] @ concat (map (\<lambda>c. if c = CHR 0x22 \<or> c = CHR 0x5C then [CHR 0x5C, c] else [c]) s)
     @ [CHR 0x22]"

section \<open>Sorting strings (sort.Strings)\<close>

definition sort_strings :: "string list \<Rightarrow> string list" where
  "sort_strings = sort"

lemma sort_strings_set [simp]: "set (sort_strings xs) = set xs"
  by (simp add: sort_strings_def)

lemma sort_strings_mset [simp]: "mset (sort_strings xs) = mset xs"
  by (simp add: sort_strings_def)

lemma sort_strings_sorted [simp]: "sorted (sort_strings xs)"
  by (simp add: sort_strings_def)

lemma sort_strings_Nil_iff [simp]: "sort_strings xs = [] \<longleftrightarrow> xs = []"
  by (metis set_empty sort_strings_set)

end
