(* ===== verification/Template.thy ===== *)
theory Template
  imports Domain GoStrings
begin

text \<open>
  The package \<open>internal/template\<close> (service.go): required variables and placeholder
  substitution.  The regular expression \<open>\{\{\s*([a-zA-Z0-9_]+)\s*\}\}\<close> is matched by
  \<open>match_placeholder\<close>; since white space and word characters are disjoint, its greedy
  repetitions never backtrack.  A variables map is a partial function.
\<close>

section \<open>Model\<close>

text \<open>The classes \<open>\s\<close> (RE2: tab, newline, form feed, carriage return, space) and \<open>[a-zA-Z0-9_]\<close>.\<close>

definition re_space :: "char \<Rightarrow> bool" where
  "re_space c \<longleftrightarrow> c \<in> {CHR 0x09, CHR 0x0A, CHR 0x0C, CHR 0x0D, CHR '' ''}"

definition re_word :: "char \<Rightarrow> bool" where
  "re_word c \<longleftrightarrow> (CHR ''a'' \<le> c \<and> c \<le> CHR ''z'') \<or> (CHR ''A'' \<le> c \<and> c \<le> CHR ''Z'')
     \<or> (CHR ''0'' \<le> c \<and> c \<le> CHR ''9'') \<or> c = CHR ''_''"

text \<open>One match at the start of the text: the matched text, its submatch, the rest.\<close>

definition match_placeholder :: "string \<Rightarrow> (string \<times> string \<times> string) option" where
  "match_placeholder s =
     (case s of
        a # b # s1 \<Rightarrow>
          if a = CHR ''{'' \<and> b = CHR ''{'' then
            let ws1 = takeWhile re_space s1; s2 = dropWhile re_space s1;
                key = takeWhile re_word s2; s3 = dropWhile re_word s2;
                ws2 = takeWhile re_space s3; s4 = dropWhile re_space s3
            in if key = [] then None
               else (case s4 of
                       c # d # rest \<Rightarrow>
                         if c = CHR ''}'' \<and> d = CHR ''}''
                         then Some (a # b # ws1 @ key @ ws2 @ [c, d], key, rest) else None
                     | _ \<Rightarrow> None)
          else None
      | _ \<Rightarrow> None)"

lemma match_placeholder_parts:
  "match_placeholder s = Some (m, key, rest) \<Longrightarrow> s = m @ rest \<and> key \<noteq> [] \<and> list_all re_word key"
  by (auto simp: match_placeholder_def Let_def list_all_iff takeWhile_dropWhile_id
      dest: set_takeWhileD split: list.splits if_splits)
    (metis append.assoc append_Cons takeWhile_dropWhile_id)+

lemma match_placeholder_shorter:
  assumes "match_placeholder s = Some (m, key, rest)"
  shows "length rest < length s"
proof -
  have s: "s = m @ rest" using match_placeholder_parts [OF assms] by simp
  have "m \<noteq> []" using assms by (auto simp: match_placeholder_def Let_def split: list.splits if_splits)
  with s show ?thesis by simp
qed

text \<open>\<open>ReplaceAllStringFunc\<close> with the callback of \<open>RenderContent\<close>: leftmost matches, no overlap.\<close>

function RenderContent :: "string \<Rightarrow> (string \<rightharpoonup> string) \<Rightarrow> string" where
  "RenderContent s vars =
     (case match_placeholder s of
        Some (m, key, rest) \<Rightarrow>
          (case vars (TrimSpace key) of Some val \<Rightarrow> val | None \<Rightarrow> m) @ RenderContent rest vars
      | None \<Rightarrow> (case s of [] \<Rightarrow> [] | c # cs \<Rightarrow> c # RenderContent cs vars))"
  by pat_completeness auto
termination
  by (relation "measure (\<lambda>(s, vars). length s)") (auto dest: match_placeholder_shorter)

declare RenderContent.simps [simp del]

definition MissingVariables :: "string list \<Rightarrow> (string \<rightharpoonup> string) \<Rightarrow> string list" where
  "MissingVariables required vars =
     sort_strings (filter (\<lambda>key. case vars key of None \<Rightarrow> True | Some v \<Rightarrow> TrimSpace v = []) required)"

definition channel_mismatch :: "Channel \<Rightarrow> Channel \<Rightarrow> string" where
  "channel_mismatch tc c =
     ''template channel '' @ go_quote tc @ '' does not match notification channel '' @ go_quote c"

definition Render :: "(uuid \<Rightarrow> Template result) \<Rightarrow> uuid \<Rightarrow> Channel \<Rightarrow> (string \<rightharpoonup> string) \<Rightarrow> (Template \<times> string) result" where
  "Render getTemplateByID templateID channel vars =
     (case getTemplateByID templateID of
        Inl err \<Rightarrow> Inl err
      | Inr tmpl \<Rightarrow>
          if t_Channel tmpl \<noteq> channel
          then Inl (NewValidationError ''channel'' (channel_mismatch (t_Channel tmpl) channel))
          else let missing = MissingVariables (t_RequiredVariables tmpl) vars
               in if missing \<noteq> [] then Inl (ErrTemplateVariablesMissing (Join missing '', ''))
                  else Inr (tmpl, RenderContent (t_Content tmpl) vars))"

section \<open>Reference semantics: segments\<close>

text \<open>
  A template text is a sequence of literal bytes and placeholders; substitution acts on each
  segment on its own.
\<close>

datatype segment = Lit char | Hole (hole_text: string) (hole_key: string)

fun segment_text :: "segment \<Rightarrow> string" where
  "segment_text (Lit c) = [c]"
| "segment_text (Hole m key) = m"

fun subst_segment :: "(string \<rightharpoonup> string) \<Rightarrow> segment \<Rightarrow> string" where
  "subst_segment vars (Lit c) = [c]"
| "subst_segment vars (Hole m key) = (case vars key of Some val \<Rightarrow> val | None \<Rightarrow> m)"

function segments :: "string \<Rightarrow> segment list" where
  "segments s =
     (case match_placeholder s of
        Some (m, key, rest) \<Rightarrow> Hole m key # segments rest
      | None \<Rightarrow> (case s of [] \<Rightarrow> [] | c # cs \<Rightarrow> Lit c # segments cs))"
  by pat_completeness auto
termination
  by (relation "measure length") (auto dest: match_placeholder_shorter)

declare segments.simps [simp del]

section \<open>Lemmas\<close>

lemma re_word_not_space:
  "re_word c \<Longrightarrow> list_all (\<lambda>r. hd r \<noteq> c) space_runes"
  "re_word c \<Longrightarrow> list_all (\<lambda>r. last r \<noteq> c) space_runes"
  by (auto simp: re_word_def space_runes_def)

lemma TrimSpace_word:
  assumes "list_all re_word key"
  shows "TrimSpace key = key"
proof (cases "key = []")
  case False
  with assms have "re_word (hd key)" "re_word (last key)" by (simp_all add: list_all_iff)
  with re_word_not_space show ?thesis by (intro TrimSpace_id) (auto simp: list_all_iff)
qed simp

lemma concat_segments: "concat (map segment_text (segments s)) = s"
proof (induction s rule: segments.induct)
  case (1 s)
  show ?case
  proof (cases "match_placeholder s")
    case None
    show ?thesis
    proof (cases s)
      case (Cons c cs)
      show ?thesis using None 1(1) [OF None Cons] unfolding Cons by (subst segments.simps) simp
    qed (subst segments.simps, use None in simp)
  next
    case (Some t)
    obtain m key rest where t: "t = (m, key, rest)" by (cases t)
    from t Some have "segments s = Hole m key # segments rest" by (subst segments.simps) simp
    moreover from 1(2) [OF Some] t have "concat (map segment_text (segments rest)) = rest" by simp
    moreover from t Some have "s = m @ rest" using match_placeholder_parts by blast
    ultimately show ?thesis by simp
  qed
qed

lemma RenderContent_segments: "RenderContent s vars = concat (map (subst_segment vars) (segments s))"
proof (induction s rule: segments.induct)
  case (1 s)
  show ?case
  proof (cases "match_placeholder s")
    case None
    show ?thesis
    proof (cases s)
      case (Cons c cs)
      show ?thesis using None 1(1) [OF None Cons] unfolding Cons
        by (subst segments.simps, subst RenderContent.simps) simp
    qed (subst segments.simps, subst RenderContent.simps, use None in simp)
  next
    case (Some t)
    obtain m key rest where t: "t = (m, key, rest)" by (cases t)
    with Some match_placeholder_parts [of s m key rest] have "TrimSpace key = key"
      by (simp add: TrimSpace_word)
    with Some t 1(2) show ?thesis by (simp add: segments.simps [of s] RenderContent.simps [of s])
  qed
qed

lemma subst_segment_keep:
  "(\<And>key. vars key = None) \<Longrightarrow> subst_segment vars seg = segment_text seg"
  by (cases seg) auto

lemma MissingVariables_set:
  "set (MissingVariables required vars) =
     {key \<in> set required. case vars key of None \<Rightarrow> True | Some v \<Rightarrow> blank v}"
  by (auto simp: MissingVariables_def blank_def split: option.splits)

section \<open>Properties\<close>


text \<open>
  With no variables at all rendering is the identity, so unknown placeholders survive.
\<close>

theorem RenderContent_no_variables: "RenderContent content Map.empty = content"
proof -
  have "subst_segment Map.empty = segment_text"
    by (rule ext) (simp add: subst_segment_keep)
  then show ?thesis by (simp add: RenderContent_segments concat_segments)
qed

text \<open>
  C30. \<open>Render\<close> succeeds exactly when the template loads, its channel is the notification's and
  every required variable is present and not blank; the result is then the template and its
  substituted content.
\<close>

theorem Render_succeeds_iff:
  "Render getTemplateByID tid channel vars = Inr (tmpl, content) \<longleftrightarrow>
     getTemplateByID tid = Inr tmpl \<and> t_Channel tmpl = channel
     \<and> set (t_RequiredVariables tmpl) \<subseteq> {key. \<exists>v. vars key = Some v \<and> \<not> blank v}
     \<and> content = RenderContent (t_Content tmpl) vars"
proof -
  have "MissingVariables req vars = [] \<longleftrightarrow>
      set req \<subseteq> {key. \<exists>v. vars key = Some v \<and> \<not> blank v}" for req
  proof -
    have "MissingVariables req vars = [] \<longleftrightarrow>
        (\<forall>key\<in>set req. \<not> (case vars key of None \<Rightarrow> True | Some v \<Rightarrow> blank v))"
      unfolding set_empty [symmetric] MissingVariables_set by blast
    then show ?thesis by (force split: option.splits)
  qed
  then show ?thesis by (auto simp: Render_def Let_def split: sum.splits if_splits)
qed

end
