(* ===== verification/Store.thy ===== *)
theory Store
  imports Domain "HOL-Library.Product_Lexorder"
begin

text \<open>
  The package \<open>internal/adapters/postgres\<close>: the tables and the repository operations on
  requests, deliveries, the outbox and batches (store.go, request.go, delivery.go, outbox.go,
  batch.go) with the constraints of the migrations.  A table is the list of its rows in
  insertion order.  Each operation is one transaction: its argument of type \<open>fault\<close> is the
  outcome of the driver, \<open>Some msg\<close> when a statement, the begin or the commit fails, in which
  case the error is returned and nothing changes.  \<open>now\<close> is the server's \<open>now()\<close>.
\<close>

section \<open>Tables\<close>

record outbox_row =
  o_ID :: uuid
  o_DeliveryID :: uuid
  o_DeliveryCreatedAt :: gotime
  o_Stream :: string
  o_Payload :: DeliveryMessage
  o_CreatedAt :: gotime
  o_PublishedAt :: "gotime option"

record store =
  batches :: "Batch list"
  templates :: "Template list"
  requests :: "Request list"
  deliveries :: "Delivery list"
  archived :: "Delivery list"
  outbox :: "outbox_row list"
  partitions :: "int list"

type_synonym fault = "string option"

definition empty_store :: store where
  "empty_store = \<lparr>batches = [], templates = [], requests = [], deliveries = [], archived = [],
                  outbox = [], partitions = []\<rparr>"

text \<open>The primary key of a delivery, which the partitioning makes composite.\<close>

definition d_key :: "Delivery \<Rightarrow> uuid \<times> gotime" where
  "d_key d = (d_ID d, d_CreatedAt d)"

section \<open>Transactions (store.go)\<close>

definition withTx :: "fault \<Rightarrow> (store \<Rightarrow> ('a \<times> store) result) \<Rightarrow> store \<Rightarrow> 'a result \<times> store" where
  "withTx flt fn st =
     (case flt of
        Some msg \<Rightarrow> (Inl (ErrInfra msg), st)
      | None \<Rightarrow> (case fn st of
                   Inl err \<Rightarrow> (Inl err, st)
                 | Inr (x, st') \<Rightarrow> (Inr x, st')))"

section \<open>Requests (request.go)\<close>

definition same_idempotency_key :: "Request \<Rightarrow> Request \<Rightarrow> bool" where
  "same_idempotency_key r x \<longleftrightarrow>
     r_IdempotencyKey r \<noteq> None \<and> r_UserID x = r_UserID r \<and> r_IdempotencyKey x = r_IdempotencyKey r"

definition request_fk_ok :: "store \<Rightarrow> Request \<Rightarrow> bool" where
  "request_fk_ok st r \<longleftrightarrow>
     (case r_BatchID r of None \<Rightarrow> True | Some b \<Rightarrow> b \<in> set (map b_ID (batches st)))
   \<and> (case r_TemplateID r of None \<Rightarrow> True | Some t \<Rightarrow> t \<in> set (map t_ID (templates st)))"

definition stored_request :: "Request \<Rightarrow> Request" where
  "stored_request r = r\<lparr>r_CreatedAt := timestamptz (r_CreatedAt r)\<rparr>"

text \<open>
  A statement the server refuses answers with its SQLSTATE: 23505 for a unique key, 23503 for a
  foreign key.
\<close>

definition uniqueViolationCode :: string where
  "uniqueViolationCode = ''23505''"

definition isUniqueViolation :: "string \<Rightarrow> bool" where
  "isUniqueViolation code \<longleftrightarrow> code = uniqueViolationCode"

definition exec_insert_request :: "Request \<Rightarrow> store \<Rightarrow> string + store" where
  "exec_insert_request r st =
     (if list_ex (\<lambda>x. r_ID x = r_ID r \<or> same_idempotency_key r x) (requests st) then Inl ''23505''
      else if \<not> request_fk_ok st r then Inl ''23503''
      else Inr (st\<lparr>requests := requests st @ [stored_request r]\<rparr>))"

definition insertRequest :: "Request \<Rightarrow> store \<Rightarrow> store result" where
  "insertRequest r st =
     (case exec_insert_request r st of
        Inl code \<Rightarrow> if isUniqueViolation code then Inl ErrConflict else Inl (ErrInfra ''insert request'')
      | Inr st' \<Rightarrow> Inr st')"

definition stored_delivery :: "Delivery \<Rightarrow> Delivery" where
  "stored_delivery d = d\<lparr>d_NextRetryAt := map_option timestamptz (d_NextRetryAt d),
     d_LockedUntil := map_option timestamptz (d_LockedUntil d),
     d_SendAt := map_option timestamptz (d_SendAt d),
     d_CreatedAt := timestamptz (d_CreatedAt d), d_UpdatedAt := timestamptz (d_UpdatedAt d)\<rparr>"

definition insertDelivery :: "Delivery \<Rightarrow> store \<Rightarrow> store result" where
  "insertDelivery d st =
     (if list_ex (\<lambda>x. d_key x = d_key (stored_delivery d)) (deliveries st)
      then Inl (ErrInfra ''insert delivery'')
      else Inr (st\<lparr>deliveries := deliveries st @ [stored_delivery d]\<rparr>))"

definition outbox_row_of :: "gotime \<Rightarrow> OutboxRecord \<Rightarrow> outbox_row" where
  "outbox_row_of now o' = \<lparr>o_ID = or_ID o', o_DeliveryID = or_DeliveryID o',
     o_DeliveryCreatedAt = timestamptz (or_DeliveryCreatedAt o'), o_Stream = or_Stream o',
     o_Payload = or_Message o', o_CreatedAt = now, o_PublishedAt = None\<rparr>"

definition insertOutbox :: "gotime \<Rightarrow> OutboxRecord \<Rightarrow> store \<Rightarrow> store result" where
  "insertOutbox now o' st =
     (if list_ex (\<lambda>x. o_ID x = or_ID o') (outbox st) then Inl (ErrInfra ''insert outbox'')
      else Inr (st\<lparr>outbox := outbox st @ [outbox_row_of now o']\<rparr>))"

definition insert_delivery_and_outbox :: "gotime \<Rightarrow> Delivery \<Rightarrow> OutboxRecord option \<Rightarrow> store \<Rightarrow> store result" where
  "insert_delivery_and_outbox now del ob st =
     (case insertDelivery del st of
        Inl err \<Rightarrow> Inl err
      | Inr st2 \<Rightarrow> (case ob of None \<Rightarrow> Inr st2 | Some o' \<Rightarrow> insertOutbox now o' st2))"

definition CreateNotification ::
  "fault \<Rightarrow> gotime \<Rightarrow> Request \<Rightarrow> Delivery \<Rightarrow> OutboxRecord option \<Rightarrow> store \<Rightarrow> unit result \<times> store" where
  "CreateNotification flt now req del ob =
     withTx flt (\<lambda>st.
       case insertRequest req st of
         Inl err \<Rightarrow> Inl err
       | Inr st1 \<Rightarrow> (case insert_delivery_and_outbox now del ob st1 of
                        Inl err \<Rightarrow> Inl err
                      | Inr st2 \<Rightarrow> Inr ((), st2)))"

definition scanRequest :: "fault \<Rightarrow> Request option \<Rightarrow> Request result" where
  "scanRequest flt row =
     (case flt of Some msg \<Rightarrow> Inl (ErrInfra msg)
      | None \<Rightarrow> (case row of None \<Rightarrow> Inl ErrNotFound | Some r \<Rightarrow> Inr r))"

definition GetRequestByID :: "fault \<Rightarrow> uuid \<Rightarrow> store \<Rightarrow> Request result" where
  "GetRequestByID flt i st = scanRequest flt (find_row (\<lambda>r. r_ID r = i) (requests st))"

definition GetRequestByIdempotencyKey :: "fault \<Rightarrow> string \<Rightarrow> string \<Rightarrow> store \<Rightarrow> Request result" where
  "GetRequestByIdempotencyKey flt userID key st =
     scanRequest flt (find_row (\<lambda>r. r_UserID r = userID \<and> r_IdempotencyKey r = Some key) (requests st))"

section \<open>Batch counters (batch.go)\<close>

datatype counter_column = pending_count | sent_count | failed_count | cancelled_count

fun bucketColumn :: "RequestStatus \<Rightarrow> counter_column" where
  "bucketColumn RequestSent = sent_count"
| "bucketColumn RequestPartial = sent_count"
| "bucketColumn RequestFailed = failed_count"
| "bucketColumn RequestCancelled = cancelled_count"
| "bucketColumn RequestPending = pending_count"

fun column :: "counter_column \<Rightarrow> Batch \<Rightarrow> int" where
  "column pending_count b = b_PendingCount b"
| "column sent_count b = b_SentCount b"
| "column failed_count b = b_FailedCount b"
| "column cancelled_count b = b_CancelledCount b"

fun set_column :: "counter_column \<Rightarrow> int \<Rightarrow> Batch \<Rightarrow> Batch" where
  "set_column pending_count n b = b\<lparr>b_PendingCount := n\<rparr>"
| "set_column sent_count n b = b\<lparr>b_SentCount := n\<rparr>"
| "set_column failed_count n b = b\<lparr>b_FailedCount := n\<rparr>"
| "set_column cancelled_count n b = b\<lparr>b_CancelledCount := n\<rparr>"

definition adjustBatchCountersTx :: "uuid \<Rightarrow> RequestStatus \<Rightarrow> RequestStatus \<Rightarrow> store \<Rightarrow> store" where
  "adjustBatchCountersTx batchID from to st =
     (let fromCol = bucketColumn from; toCol = bucketColumn to
      in if fromCol = toCol then st
         else st\<lparr>batches := upd_where (\<lambda>b. b_ID b = batchID)
                (\<lambda>b. set_column toCol (column toCol b + 1)
                       (set_column fromCol (max (column fromCol b - 1) 0) b)) (batches st)\<rparr>)"

section \<open>Deliveries (delivery.go)\<close>

definition delivery_statuses :: "store \<Rightarrow> uuid \<Rightarrow> DeliveryStatus list" where
  "delivery_statuses st requestID = map d_Status (filter (\<lambda>d. d_RequestID d = requestID) (deliveries st))"

definition recomputeRequestStatusTx :: "uuid \<Rightarrow> store \<Rightarrow> store result" where
  "recomputeRequestStatusTx requestID st =
     (case find_row (\<lambda>r. r_ID r = requestID) (requests st) of
        None \<Rightarrow> Inl (ErrInfra ''load request for recompute'')
      | Some r \<Rightarrow>
          let newStatus = AggregateRequestStatus (delivery_statuses st requestID)
          in if newStatus = r_Status r then Inr st
             else let st1 = st\<lparr>requests := upd_where (\<lambda>x. r_ID x = requestID)
                                (\<lambda>x. x\<lparr>r_Status := newStatus\<rparr>) (requests st)\<rparr>
                  in Inr (case r_BatchID r of
                            None \<Rightarrow> st1
                          | Some b \<Rightarrow> adjustBatchCountersTx b (r_Status r) newStatus st1))"

definition at_key :: "uuid \<Rightarrow> gotime \<Rightarrow> Delivery \<Rightarrow> bool" where
  "at_key i createdAt d \<longleftrightarrow> d_ID d = i \<and> d_CreatedAt d = timestamptz createdAt"

definition scanDelivery :: "fault \<Rightarrow> Delivery option \<Rightarrow> Delivery result" where
  "scanDelivery flt row =
     (case flt of Some msg \<Rightarrow> Inl (ErrInfra msg)
      | None \<Rightarrow> (case row of None \<Rightarrow> Inl ErrNotFound | Some d \<Rightarrow> Inr d))"

definition GetDelivery :: "fault \<Rightarrow> uuid \<Rightarrow> gotime \<Rightarrow> store \<Rightarrow> Delivery result" where
  "GetDelivery flt i createdAt st = scanDelivery flt (find_row (at_key i createdAt) (deliveries st))"

definition GetDeliveriesByRequest :: "fault \<Rightarrow> uuid \<Rightarrow> store \<Rightarrow> Delivery list result" where
  "GetDeliveriesByRequest flt requestID st =
     (case flt of Some msg \<Rightarrow> Inl (ErrInfra msg)
      | None \<Rightarrow> Inr (sort_key d_CreatedAt (filter (\<lambda>d. d_RequestID d = requestID) (deliveries st))))"

definition claimable :: "DeliveryStatus \<Rightarrow> bool" where
  "claimable s \<longleftrightarrow> s = DeliveryPending \<or> s = DeliveryRetrying"

definition claimed_row :: "gotime \<Rightarrow> gotime \<Rightarrow> Delivery \<Rightarrow> Delivery" where
  "claimed_row now leaseUntil d =
     d\<lparr>d_Status := DeliveryProcessing, d_LockedUntil := Some (timestamptz leaseUntil), d_UpdatedAt := now\<rparr>"

text \<open>
  The \<open>UPDATE \<dots> RETURNING\<close> of the claim: the row it returns, if it matches one, and the table it leaves.
  \<open>None\<close> in the result of \<open>ClaimDelivery\<close> is \<open>claimed = false\<close>.
\<close>

definition exec_claim :: "gotime \<Rightarrow> uuid \<Rightarrow> gotime \<Rightarrow> gotime \<Rightarrow> store \<Rightarrow> Delivery option \<times> store" where
  "exec_claim now i createdAt leaseUntil st =
     (let p = (\<lambda>d. at_key i createdAt d \<and> claimable (d_Status d))
      in (map_option (claimed_row now leaseUntil) (find_row p (deliveries st)),
          st\<lparr>deliveries := upd_where p (claimed_row now leaseUntil) (deliveries st)\<rparr>))"

definition ClaimDelivery ::
  "fault \<Rightarrow> gotime \<Rightarrow> uuid \<Rightarrow> gotime \<Rightarrow> gotime \<Rightarrow> store \<Rightarrow> Delivery option result \<times> store" where
  "ClaimDelivery flt now i createdAt leaseUntil st =
     (let (row, st') = (case flt of Some _ \<Rightarrow> (None, st) | None \<Rightarrow> exec_claim now i createdAt leaseUntil st) in
      case scanDelivery flt row of
        Inl err \<Rightarrow> if err = ErrNotFound then (Inr None, st') else (Inl err, st')
      | Inr d \<Rightarrow> (Inr (Some d), st'))"

definition MarkSent ::
  "fault \<Rightarrow> gotime \<Rightarrow> uuid \<Rightarrow> gotime \<Rightarrow> uuid \<Rightarrow> string \<Rightarrow> store \<Rightarrow> unit result \<times> store" where
  "MarkSent flt now i createdAt requestID providerMessageID =
     withTx flt (\<lambda>st.
       let st1 = st\<lparr>deliveries := upd_where (at_key i createdAt)
             (\<lambda>d. d\<lparr>d_Status := DeliverySent, d_ProviderMessageID := Some providerMessageID,
                    d_LastError := None, d_LockedUntil := None, d_UpdatedAt := now\<rparr>) (deliveries st)\<rparr>
       in map_sum id (Pair ()) (recomputeRequestStatusTx requestID st1))"

definition MarkRetrying ::
  "fault \<Rightarrow> gotime \<Rightarrow> uuid \<Rightarrow> gotime \<Rightarrow> int \<Rightarrow> gotime \<Rightarrow> string \<Rightarrow> store \<Rightarrow> unit result \<times> store" where
  "MarkRetrying flt now i createdAt attemptCount nextRetryAt lastErr st =
     (case flt of
        Some msg \<Rightarrow> (Inl (ErrInfra msg), st)
      | None \<Rightarrow>
          (Inr (), st\<lparr>deliveries := upd_where (at_key i createdAt)
             (\<lambda>d. d\<lparr>d_Status := DeliveryRetrying, d_AttemptCount := attemptCount,
                    d_NextRetryAt := Some (timestamptz nextRetryAt), d_LastError := Some lastErr,
                    d_LockedUntil := None, d_UpdatedAt := now\<rparr>) (deliveries st)\<rparr>))"

definition MarkFailed ::
  "fault \<Rightarrow> gotime \<Rightarrow> uuid \<Rightarrow> gotime \<Rightarrow> uuid \<Rightarrow> int \<Rightarrow> string \<Rightarrow> store \<Rightarrow> unit result \<times> store" where
  "MarkFailed flt now i createdAt requestID attemptCount lastErr =
     withTx flt (\<lambda>st.
       let st1 = st\<lparr>deliveries := upd_where (at_key i createdAt)
             (\<lambda>d. d\<lparr>d_Status := DeliveryFailed, d_AttemptCount := attemptCount,
                    d_LastError := Some lastErr, d_LockedUntil := None, d_UpdatedAt := now\<rparr>) (deliveries st)\<rparr>
       in map_sum id (Pair ()) (recomputeRequestStatusTx requestID st1))"

section \<open>Cancellation (request.go)\<close>

definition cancellable :: "DeliveryStatus \<Rightarrow> bool" where
  "cancellable s \<longleftrightarrow> s = DeliveryScheduled \<or> s = DeliveryPending \<or> s = DeliveryRetrying"

definition CancelRequest :: "fault \<Rightarrow> gotime \<Rightarrow> uuid \<Rightarrow> store \<Rightarrow> Request result \<times> store" where
  "CancelRequest flt now i =
     withTx flt (\<lambda>st.
       case GetRequestByID None i st of
         Inl err \<Rightarrow> Inl err
       | Inr _ \<Rightarrow>
           let p = (\<lambda>d. d_RequestID d = i \<and> cancellable (d_Status d));
               st1 = st\<lparr>deliveries := upd_where p
                         (\<lambda>d. d\<lparr>d_Status := DeliveryCancelled, d_UpdatedAt := now\<rparr>) (deliveries st)\<rparr>
           in if count_where p (deliveries st) = 0 then Inl ErrCancelNotAllowed
              else (case recomputeRequestStatusTx i st1 of
                      Inl err \<Rightarrow> Inl err
                    | Inr st2 \<Rightarrow> (case GetRequestByID None i st2 of
                                    Inl err \<Rightarrow> Inl err
                                  | Inr r \<Rightarrow> Inr (r, st2))))"

section \<open>Batches (batch.go)\<close>

definition insertRequestOnConflict :: "Request \<Rightarrow> store \<Rightarrow> (bool \<times> store) result" where
  "insertRequestOnConflict r st =
     (if list_ex (same_idempotency_key r) (requests st) then Inr (False, st)
      else if list_ex (\<lambda>x. r_ID x = r_ID r) (requests st) \<or> \<not> request_fk_ok st r
      then Inl (ErrInfra ''insert request on conflict'')
      else Inr (True, st\<lparr>requests := requests st @ [stored_request r]\<rparr>))"

definition same_batch_key :: "Batch \<Rightarrow> Batch \<Rightarrow> bool" where
  "same_batch_key b x \<longleftrightarrow>
     b_IdempotencyKey b \<noteq> None \<and> b_UserID x = b_UserID b \<and> b_IdempotencyKey x = b_IdempotencyKey b"

definition exec_insert_batch :: "Batch \<Rightarrow> store \<Rightarrow> string + store" where
  "exec_insert_batch b st =
     (if list_ex (\<lambda>x. b_ID x = b_ID b \<or> same_batch_key b x) (batches st) then Inl ''23505''
      else Inr (st\<lparr>batches := batches st @
                  [b\<lparr>b_TotalCount := 0, b_PendingCount := 0, b_SentCount := 0, b_FailedCount := 0,
                     b_CancelledCount := 0, b_CreatedAt := timestamptz (b_CreatedAt b)\<rparr>]\<rparr>))"

definition insertBatch :: "Batch \<Rightarrow> store \<Rightarrow> store result" where
  "insertBatch b st =
     (case exec_insert_batch b st of
        Inl code \<Rightarrow> if isUniqueViolation code then Inl ErrConflict else Inl (ErrInfra ''insert batch'')
      | Inr st' \<Rightarrow> Inr st')"

fun insert_items :: "gotime \<Rightarrow> BatchItem list \<Rightarrow> int \<Rightarrow> store \<Rightarrow> (int \<times> store) result" where
  "insert_items now [] created st = Inr (created, st)"
| "insert_items now (item # items) created st =
     (case insertRequestOnConflict (bi_Request item) st of
        Inl err \<Rightarrow> Inl err
      | Inr (inserted, st1) \<Rightarrow>
          if \<not> inserted then insert_items now items created st1
          else (case insert_delivery_and_outbox now (bi_Delivery item) (bi_Outbox item) st1 of
                  Inl err \<Rightarrow> Inl err
                | Inr st2 \<Rightarrow> insert_items now items (created + 1) st2))"

definition CreateBatch :: "fault \<Rightarrow> gotime \<Rightarrow> Batch \<Rightarrow> BatchItem list \<Rightarrow> store \<Rightarrow> BatchResult result \<times> store" where
  "CreateBatch flt now batch items =
     withTx flt (\<lambda>st.
       case insertBatch batch st of
         Inl err \<Rightarrow> Inl err
       | Inr st1 \<Rightarrow>
           (case insert_items now items 0 st1 of
              Inl err \<Rightarrow> Inl err
            | Inr (created, st2) \<Rightarrow>
                Inr (\<lparr>br_Batch = batch\<lparr>b_TotalCount := created, b_PendingCount := created\<rparr>,
                      br_CreatedCount = created, br_DuplicateCount = int (length items) - created\<rparr>,
                     st2\<lparr>batches := upd_where (\<lambda>b. b_ID b = b_ID batch)
                           (\<lambda>b. b\<lparr>b_TotalCount := created, b_PendingCount := created\<rparr>) (batches st2)\<rparr>)))"

definition scanBatch :: "fault \<Rightarrow> Batch option \<Rightarrow> Batch result" where
  "scanBatch flt row =
     (case flt of Some msg \<Rightarrow> Inl (ErrInfra msg)
      | None \<Rightarrow> (case row of None \<Rightarrow> Inl ErrNotFound | Some b \<Rightarrow> Inr b))"

definition GetBatchByID :: "fault \<Rightarrow> uuid \<Rightarrow> store \<Rightarrow> Batch result" where
  "GetBatchByID flt i st = scanBatch flt (find_row (\<lambda>b. b_ID b = i) (batches st))"

definition GetBatchByIdempotencyKey :: "fault \<Rightarrow> string \<Rightarrow> string \<Rightarrow> store \<Rightarrow> Batch result" where
  "GetBatchByIdempotencyKey flt userID key st =
     scanBatch flt (find_row (\<lambda>b. b_UserID b = userID \<and> b_IdempotencyKey b = Some key) (batches st))"

definition GetTemplateByID :: "fault \<Rightarrow> uuid \<Rightarrow> store \<Rightarrow> Template result" where
  "GetTemplateByID flt i st =
     (case flt of Some msg \<Rightarrow> Inl (ErrInfra msg)
      | None \<Rightarrow> (case find_row (\<lambda>t. t_ID t = i) (templates st) of
                   None \<Rightarrow> Inl ErrNotFound | Some t \<Rightarrow> Inr t))"

section \<open>What the statements come to\<close>

lemma insertRequest_eq:
  "insertRequest r st =
     (if list_ex (\<lambda>x. r_ID x = r_ID r \<or> same_idempotency_key r x) (requests st) then Inl ErrConflict
      else if \<not> request_fk_ok st r then Inl (ErrInfra ''insert request'')
      else Inr (st\<lparr>requests := requests st @ [stored_request r]\<rparr>))"
  by (simp add: insertRequest_def exec_insert_request_def isUniqueViolation_def uniqueViolationCode_def)

lemma insertBatch_eq:
  "insertBatch b st =
     (if list_ex (\<lambda>x. b_ID x = b_ID b \<or> same_batch_key b x) (batches st) then Inl ErrConflict
      else Inr (st\<lparr>batches := batches st @
                  [b\<lparr>b_TotalCount := 0, b_PendingCount := 0, b_SentCount := 0, b_FailedCount := 0,
                     b_CancelledCount := 0, b_CreatedAt := timestamptz (b_CreatedAt b)\<rparr>]\<rparr>))"
  by (simp add: insertBatch_def exec_insert_batch_def isUniqueViolation_def uniqueViolationCode_def)

lemma GetDelivery_eq:
  "GetDelivery flt i createdAt st =
     (case flt of Some msg \<Rightarrow> Inl (ErrInfra msg)
      | None \<Rightarrow> (case find_row (at_key i createdAt) (deliveries st) of
                   None \<Rightarrow> Inl ErrNotFound | Some d \<Rightarrow> Inr d))"
  by (simp add: GetDelivery_def scanDelivery_def)

text \<open>An \<open>UPDATE\<close> that matches no row changes nothing.\<close>

lemma upd_where_no_row: "find_row p xs = None \<Longrightarrow> upd_where p f xs = xs"
  by (induction xs) (auto simp: find_row_def upd_where_def split: if_splits)

lemma ClaimDelivery_eq:
  "ClaimDelivery flt now i createdAt leaseUntil st =
     (case flt of
        Some msg \<Rightarrow> (Inl (ErrInfra msg), st)
      | None \<Rightarrow>
          (let p = (\<lambda>d. at_key i createdAt d \<and> claimable (d_Status d))
           in case find_row p (deliveries st) of
                None \<Rightarrow> (Inr None, st)
              | Some d \<Rightarrow> (Inr (Some (claimed_row now leaseUntil d)),
                           st\<lparr>deliveries := upd_where p (claimed_row now leaseUntil) (deliveries st)\<rparr>)))"
  by (auto simp: ClaimDelivery_def exec_claim_def scanDelivery_def Let_def upd_where_no_row split: option.split)

end
