(* ===== verification/Store_Inv.thy ===== *)
theory Store_Inv
  imports Store
begin

text \<open>
  The invariant of the database and its preservation by the repository operations: the
  constraints of the schema (\<open>wf_store\<close>), the agreement of the denormalized batch counters with
  the request rows (\<open>counters_ok\<close>), and the agreement of each request status with the statuses
  of its deliveries (\<open>status_ok\<close>).
\<close>

section \<open>The invariant\<close>

definition wf_store :: "store \<Rightarrow> bool" where
  "wf_store st \<longleftrightarrow>
     distinct (map b_ID (batches st)) \<and> distinct (map r_ID (requests st))
   \<and> distinct (map d_key (deliveries st)) \<and> distinct (map o_ID (outbox st))
   \<and> (\<forall>r\<in>set (requests st). \<forall>x\<in>set (requests st). same_idempotency_key r x \<longrightarrow> x = r)
   \<and> (\<forall>b\<in>set (batches st). \<forall>x\<in>set (batches st). same_batch_key b x \<longrightarrow> x = b)
   \<and> (\<forall>r\<in>set (requests st). request_fk_ok st r)
   \<and> (\<forall>d\<in>set (deliveries st). d_RequestID d \<in> r_ID ` set (requests st))"

definition in_column :: "uuid \<Rightarrow> counter_column \<Rightarrow> Request \<Rightarrow> bool" where
  "in_column bid col r \<longleftrightarrow> r_BatchID r = Some bid \<and> bucketColumn (r_Status r) = col"

definition in_batch :: "uuid \<Rightarrow> Request \<Rightarrow> bool" where
  "in_batch bid r \<longleftrightarrow> r_BatchID r = Some bid"

definition batch_counters_ok :: "store \<Rightarrow> Batch \<Rightarrow> bool" where
  "batch_counters_ok st b \<longleftrightarrow>
     b_TotalCount b = int (count_where (in_batch (b_ID b)) (requests st))
   \<and> b_PendingCount b = int (count_where (in_column (b_ID b) pending_count) (requests st))
   \<and> b_SentCount b = int (count_where (in_column (b_ID b) sent_count) (requests st))
   \<and> b_FailedCount b = int (count_where (in_column (b_ID b) failed_count) (requests st))
   \<and> b_CancelledCount b = int (count_where (in_column (b_ID b) cancelled_count) (requests st))"

definition counters_ok :: "store \<Rightarrow> bool" where
  "counters_ok st \<longleftrightarrow> (\<forall>b\<in>set (batches st). batch_counters_ok st b)"

text \<open>A request whose deliveries were archived keeps the status it had.\<close>

definition request_status_ok :: "store \<Rightarrow> Request \<Rightarrow> bool" where
  "request_status_ok st r \<longleftrightarrow>
     delivery_statuses st (r_ID r) \<noteq> [] \<longrightarrow>
     r_Status r = AggregateRequestStatus (delivery_statuses st (r_ID r))"

definition status_ok :: "store \<Rightarrow> bool" where
  "status_ok st \<longleftrightarrow> (\<forall>r\<in>set (requests st). request_status_ok st r)"

definition store_inv :: "store \<Rightarrow> bool" where
  "store_inv st \<longleftrightarrow> wf_store st \<and> counters_ok st \<and> status_ok st"

lemma store_invI: "wf_store st \<Longrightarrow> counters_ok st \<Longrightarrow> status_ok st \<Longrightarrow> store_inv st"
  by (simp add: store_inv_def)

lemma store_invD:
  assumes "store_inv st"
  shows "wf_store st" "counters_ok st" "status_ok st"
  using assms by (simp_all add: store_inv_def)

lemma store_inv_empty: "store_inv empty_store"
  by (simp add: store_inv_def wf_store_def counters_ok_def status_ok_def empty_store_def)

section \<open>Generic preservation lemmas\<close>

lemma withTx_inv:
  assumes "I st" "\<And>x st'. fn st = Inr (x, st') \<Longrightarrow> I st'"
  shows "I (snd (withTx flt fn st))"
  using assms by (auto simp: withTx_def split: option.splits sum.splits)

lemma withTx_cases:
  assumes "withTx flt fn st = (res, st')"
  obtains (fault) msg where "flt = Some msg" "res = Inl (ErrInfra msg)" "st' = st"
  | (rollback) err where "flt = None" "fn st = Inl err" "res = Inl err" "st' = st"
  | (commit) x where "flt = None" "fn st = Inr (x, st')" "res = Inr x"
  using assms by (auto simp: withTx_def split: option.splits sum.splits)

text \<open>Tables the predicates do not read may change freely.\<close>

lemma counters_ok_cong:
  "batches st' = batches st \<Longrightarrow> requests st' = requests st \<Longrightarrow> counters_ok st' = counters_ok st"
  by (simp add: counters_ok_def batch_counters_ok_def)

lemma status_ok_cong:
  "requests st' = requests st \<Longrightarrow> deliveries st' = deliveries st \<Longrightarrow> status_ok st' = status_ok st"
  by (simp add: status_ok_def request_status_ok_def delivery_statuses_def)

lemma request_fk_ok_frame [simp]:
  "request_fk_ok (st\<lparr>deliveries := ds\<rparr>) r = request_fk_ok st r"
  "request_fk_ok (st\<lparr>requests := rs\<rparr>) r = request_fk_ok st r"
  "request_fk_ok (st\<lparr>outbox := os\<rparr>) r = request_fk_ok st r"
  "request_fk_ok (st\<lparr>archived := as\<rparr>) r = request_fk_ok st r"
  "request_fk_ok (st\<lparr>partitions := ps\<rparr>) r = request_fk_ok st r"
  by (simp_all add: request_fk_ok_def split: option.split)

lemma request_fk_ok_ids:
  assumes "map b_ID bs = map b_ID (batches st)"
  shows "request_fk_ok (st\<lparr>batches := bs\<rparr>) r = request_fk_ok st r"
proof -
  have "b_ID ` set bs = b_ID ` set (batches st)" using assms by (metis list.set_map)
  then show ?thesis by (simp add: request_fk_ok_def split: option.split)
qed

text \<open>Updating delivery rows in place, keeping their keys and their request.\<close>

lemma wf_upd_deliveries:
  assumes "wf_store st" "\<And>d. p d \<Longrightarrow> d_key (f d) = d_key d \<and> d_RequestID (f d) = d_RequestID d"
  shows "wf_store (st\<lparr>deliveries := upd_where p f (deliveries st)\<rparr>)"
proof -
  have "map d_key (upd_where p f (deliveries st)) = map d_key (deliveries st)"
    by (rule map_upd_where_same) (simp add: assms)
  moreover have "d_RequestID d \<in> r_ID ` set (requests st)" if "d \<in> set (upd_where p f (deliveries st))" for d
    using that assms by (auto elim!: in_upd_whereE simp: wf_store_def)
  ultimately show ?thesis using assms(1) by (simp add: wf_store_def)
qed

lemma delivery_statuses_upd_other:
  assumes "\<And>d. p d \<Longrightarrow> d_RequestID d \<noteq> i \<and> d_RequestID (f d) = d_RequestID d"
  shows "delivery_statuses (st\<lparr>deliveries := upd_where p f (deliveries st)\<rparr>) i = delivery_statuses st i"
proof -
  have "filter (\<lambda>d. d_RequestID d = i) (upd_where p f (deliveries st)) =
      filter (\<lambda>d. d_RequestID d = i) (deliveries st)"
    by (rule filter_upd_where_disjoint) (use assms in auto)
  then show ?thesis by (simp add: delivery_statuses_def)
qed

lemma status_ok_upd_nonterminal:
  assumes "status_ok st"
    and p: "\<And>d. p d \<Longrightarrow> \<not> IsTerminal (d_Status d) \<and> \<not> IsTerminal (d_Status (f d)) \<and> d_RequestID (f d) = d_RequestID d"
  shows "status_ok (st\<lparr>deliveries := upd_where p f (deliveries st)\<rparr>)"
  unfolding status_ok_def
proof
  fix r assume "r \<in> set (requests (st\<lparr>deliveries := upd_where p f (deliveries st)\<rparr>))"
  then have ok: "request_status_ok st r" using assms(1) by (simp add: status_ok_def)
  let ?ds = "filter (\<lambda>d. d_RequestID d = r_ID r) (deliveries st)"
  have new: "delivery_statuses (st\<lparr>deliveries := upd_where p f (deliveries st)\<rparr>) (r_ID r)
      = map d_Status (upd_where p f ?ds)"
    using p by (simp add: delivery_statuses_def filter_upd_where_same)
  show "request_status_ok (st\<lparr>deliveries := upd_where p f (deliveries st)\<rparr>) r"
  proof (cases "\<exists>d\<in>set ?ds. p d")
    case True
    then obtain d where d: "d \<in> set ?ds" "p d" by blast
    have "AggregateRequestStatus (delivery_statuses st (r_ID r)) = RequestPending"
      by (rule AggregateRequestStatus_nonterminal [of "d_Status d"])
        (use d p in \<open>auto simp: delivery_statuses_def\<close>)
    moreover have "AggregateRequestStatus (map d_Status (upd_where p f ?ds)) = RequestPending"
      by (rule AggregateRequestStatus_nonterminal [of "d_Status (f d)"])
        (use d p in \<open>auto simp: set_upd_where image_iff\<close>)
    moreover have "delivery_statuses st (r_ID r) \<noteq> []" using d by (auto simp: delivery_statuses_def filter_empty_conv)
    ultimately show ?thesis using ok by (simp add: request_status_ok_def new)
  next
    case False
    then have "upd_where p f ?ds = ?ds" by (intro upd_where_id) auto
    then show ?thesis using ok by (simp add: request_status_ok_def new) (simp add: delivery_statuses_def)
  qed
qed

lemma store_inv_upd_nonterminal:
  assumes "store_inv st"
    and "\<And>d. p d \<Longrightarrow> \<not> IsTerminal (d_Status d) \<and> \<not> IsTerminal (d_Status (f d))
           \<and> d_RequestID (f d) = d_RequestID d \<and> d_key (f d) = d_key d"
  shows "store_inv (st\<lparr>deliveries := upd_where p f (deliveries st)\<rparr>)"
proof (rule store_invI)
  show "wf_store (st\<lparr>deliveries := upd_where p f (deliveries st)\<rparr>)"
    using assms by (intro wf_upd_deliveries store_invD) auto
  show "counters_ok (st\<lparr>deliveries := upd_where p f (deliveries st)\<rparr>)"
    using store_invD(2) [OF assms(1)] counters_ok_cong [of "st\<lparr>deliveries := upd_where p f (deliveries st)\<rparr>" st]
    by simp
  show "status_ok (st\<lparr>deliveries := upd_where p f (deliveries st)\<rparr>)"
    using assms by (intro status_ok_upd_nonterminal store_invD) auto
qed

section \<open>Batch counters\<close>

lemma column_set_column [simp]: "column c (set_column c' n b) = (if c = c' then n else column c b)"
  by (cases c; cases c') auto

lemma set_column_frame [simp]:
  "b_ID (set_column c n b) = b_ID b" "b_UserID (set_column c n b) = b_UserID b"
  "b_IdempotencyKey (set_column c n b) = b_IdempotencyKey b"
  "b_TotalCount (set_column c n b) = b_TotalCount b" "b_CreatedAt (set_column c n b) = b_CreatedAt b"
  by (cases c; simp)+

lemma batch_counters_ok_columns:
  "batch_counters_ok st b \<longleftrightarrow>
     b_TotalCount b = int (count_where (in_batch (b_ID b)) (requests st))
   \<and> (\<forall>col. column col b = int (count_where (in_column (b_ID b) col) (requests st)))"
proof -
  have "(\<forall>col. P col) \<longleftrightarrow> P pending_count \<and> P sent_count \<and> P failed_count \<and> P cancelled_count" for P
    by (metis counter_column.exhaust)
  then show ?thesis by (simp add: batch_counters_ok_def)
qed

lemma in_column_set_status:
  "in_column bid col (r\<lparr>r_Status := s\<rparr>) \<longleftrightarrow> in_batch bid r \<and> bucketColumn s = col"
  by (simp add: in_column_def in_batch_def)

lemma in_column_iff: "in_column bid col r \<longleftrightarrow> in_batch bid r \<and> bucketColumn (r_Status r) = col"
  by (simp add: in_column_def in_batch_def)

definition set_request_status :: "uuid \<Rightarrow> RequestStatus \<Rightarrow> Request list \<Rightarrow> Request list" where
  "set_request_status i s = upd_where (\<lambda>x. r_ID x = i) (\<lambda>x. x\<lparr>r_Status := s\<rparr>)"

lemma set_request_status_ids [simp]: "map r_ID (set_request_status i s rs) = map r_ID rs"
  unfolding set_request_status_def by (rule map_upd_where_same) simp

text \<open>What one status change does to the counts, and the counter adjustment that follows it.\<close>

lemma column_count_change:
  assumes "distinct (map r_ID rs)" "r \<in> set rs"
  shows "int (count_where (in_column bid col) (set_request_status (r_ID r) s rs))
     = int (count_where (in_column bid col) rs)
       - (if in_batch bid r \<and> bucketColumn (r_Status r) = col then 1 else 0)
       + (if in_batch bid r \<and> bucketColumn s = col then 1 else 0)"
  using count_where_upd_key [OF assms, of "in_column bid col" "\<lambda>x. x\<lparr>r_Status := s\<rparr>"]
  by (auto simp: set_request_status_def in_column_set_status in_column_iff [of bid col r] split: if_splits)

lemma batch_count_change:
  "count_where (in_batch bid) (set_request_status i s rs) = count_where (in_batch bid) rs"
  unfolding set_request_status_def by (rule count_where_upd_same) (simp add: in_batch_def)

lemma column_pos:
  "r \<in> set rs \<Longrightarrow> in_batch bid r \<Longrightarrow> 1 \<le> int (count_where (in_column bid (bucketColumn (r_Status r))) rs)"
  using count_where_pos [of r rs "in_column bid (bucketColumn (r_Status r))"]
  by (simp add: in_column_def in_batch_def)

lemma counters_ok_status_change:
  fixes s :: RequestStatus
  assumes ok: "counters_ok st" and wf: "wf_store st" and r: "r \<in> set (requests st)"
  defines "st1 \<equiv> st\<lparr>requests := set_request_status (r_ID r) s (requests st)\<rparr>"
  shows "counters_ok (case r_BatchID r of None \<Rightarrow> st1
                      | Some b \<Rightarrow> adjustBatchCountersTx b (r_Status r) s st1)"
proof -
  have d: "distinct (map r_ID (requests st))" using wf by (simp add: wf_store_def)
  note change = column_count_change [OF d r] batch_count_change
  show ?thesis
  proof (cases "r_BatchID r")
    case None
    then have "\<not> in_batch bid r" for bid by (simp add: in_batch_def)
    with ok None show ?thesis
      by (auto simp: counters_ok_def batch_counters_ok_columns st1_def change)
  next
    case (Some bid)
    then have ib: "in_batch bid' r \<longleftrightarrow> bid' = bid" for bid' by (auto simp: in_batch_def)
    show ?thesis
    proof (cases "bucketColumn (r_Status r) = bucketColumn s")
      case True
      with ok Some show ?thesis
        by (auto simp: counters_ok_def batch_counters_ok_columns st1_def change adjustBatchCountersTx_def ib)
    next
      case False
      have pos: "1 \<le> int (count_where (in_column bid (bucketColumn (r_Status r))) (requests st))"
        using r ib by (intro column_pos) auto
      show ?thesis
        unfolding counters_ok_def
      proof
        fix b assume "b \<in> set (batches (case r_BatchID r of None \<Rightarrow> st1
                      | Some b \<Rightarrow> adjustBatchCountersTx b (r_Status r) s st1))"
        then have "b \<in> set (upd_where (\<lambda>b. b_ID b = bid)
            (\<lambda>b. set_column (bucketColumn s) (column (bucketColumn s) b + 1)
              (set_column (bucketColumn (r_Status r)) (max (column (bucketColumn (r_Status r)) b - 1) 0) b))
            (batches st))"
          using Some False by (simp add: adjustBatchCountersTx_def st1_def Let_def)
        then show "batch_counters_ok (case r_BatchID r of None \<Rightarrow> st1
                      | Some b \<Rightarrow> adjustBatchCountersTx b (r_Status r) s st1) b"
          by (rule in_upd_whereE)
            (use ok Some False pos in \<open>auto simp: counters_ok_def batch_counters_ok_columns st1_def change
              adjustBatchCountersTx_def Let_def ib max_def\<close>)
      qed
    qed
  qed
qed

section \<open>Recomputation of the request status\<close>

lemma recompute_frame:
  assumes "recomputeRequestStatusTx i st = Inr st'"
  shows "deliveries st' = deliveries st" "outbox st' = outbox st" "templates st' = templates st"
    "archived st' = archived st" "partitions st' = partitions st"
    "map r_ID (requests st') = map r_ID (requests st)" "map b_ID (batches st') = map b_ID (batches st)"
  using assms
  by (auto simp: recomputeRequestStatusTx_def Let_def adjustBatchCountersTx_def map_upd_where_same
      split: option.splits if_splits)

lemma same_key_set_status:
  "same_idempotency_key (r\<lparr>r_Status := s\<rparr>) x = same_idempotency_key r x"
  "same_idempotency_key r (x\<lparr>r_Status := s\<rparr>) = same_idempotency_key r x"
  "request_fk_ok st (r\<lparr>r_Status := s\<rparr>) = request_fk_ok st r"
  by (simp_all add: same_idempotency_key_def request_fk_ok_def)

lemma wf_set_request_status:
  assumes wf: "wf_store st"
  shows "wf_store (st\<lparr>requests := set_request_status i s (requests st)\<rparr>)"
proof -
  let ?rs = "set_request_status i s (requests st)"
  have "r' = x'" if x': "x' \<in> set ?rs" and r': "r' \<in> set ?rs" and k: "same_idempotency_key r' x'" for x' r'
  proof -
    obtain x where x: "x \<in> set (requests st)" "x' = (if r_ID x = i then x\<lparr>r_Status := s\<rparr> else x)"
      using x' by (auto simp: set_request_status_def set_upd_where)
    obtain r where r: "r \<in> set (requests st)" "r' = (if r_ID r = i then r\<lparr>r_Status := s\<rparr> else r)"
      using r' by (auto simp: set_request_status_def set_upd_where)
    from k have "same_idempotency_key r x" by (simp add: x r same_key_set_status split: if_splits)
    with wf x r have "x = r" by (auto simp: wf_store_def)
    with x r show ?thesis by simp
  qed
  moreover have "request_fk_ok (st\<lparr>requests := ?rs\<rparr>) r" if r: "r \<in> set ?rs" for r
  proof -
    obtain x where "x \<in> set (requests st)" "r = (if r_ID x = i then x\<lparr>r_Status := s\<rparr> else x)"
      using r by (auto simp: set_request_status_def set_upd_where)
    with wf show ?thesis by (auto simp: wf_store_def same_key_set_status)
  qed
  moreover have "r_ID ` set ?rs = r_ID ` set (requests st)"
    by (metis list.set_map set_request_status_ids)
  ultimately show ?thesis using wf by (auto simp: wf_store_def)
qed

lemma wf_adjust:
  assumes wf: "wf_store st"
  shows "wf_store (adjustBatchCountersTx bid s s' st)"
proof -
  let ?f = "\<lambda>b. set_column (bucketColumn s') (column (bucketColumn s') b + 1)
              (set_column (bucketColumn s) (max (column (bucketColumn s) b - 1) 0) b)"
  let ?bs = "upd_where (\<lambda>b. b_ID b = bid) ?f (batches st)"
  have ids: "map b_ID ?bs = map b_ID (batches st)" by (rule map_upd_where_same) simp
  have keys: "x' = b'" if x': "x' \<in> set ?bs" and b': "b' \<in> set ?bs" and k: "same_batch_key b' x'" for x' b'
  proof -
    obtain x where x: "x \<in> set (batches st)" "x' = (if b_ID x = bid then ?f x else x)"
      using x' unfolding set_upd_where by blast
    obtain b where b: "b \<in> set (batches st)" "b' = (if b_ID b = bid then ?f b else b)"
      using b' unfolding set_upd_where by blast
    from k have "same_batch_key b x" by (simp add: x b same_batch_key_def split: if_splits)
    with wf x b have "x = b" by (auto simp: wf_store_def)
    with x b show ?thesis by simp
  qed
  have "wf_store (st\<lparr>batches := ?bs\<rparr>)"
    using wf ids keys by (auto simp: wf_store_def request_fk_ok_ids [OF ids])
  then show ?thesis using wf by (simp add: adjustBatchCountersTx_def Let_def)
qed

text \<open>Status agreement for every request but one, which the recomputation then restores.\<close>

definition status_ok_except :: "uuid \<Rightarrow> store \<Rightarrow> bool" where
  "status_ok_except i st \<longleftrightarrow> (\<forall>r\<in>set (requests st). r_ID r \<noteq> i \<longrightarrow> request_status_ok st r)"

lemma status_ok_set_request_status:
  assumes "status_ok_except i st" "s = AggregateRequestStatus (delivery_statuses st i)"
  shows "status_ok (st\<lparr>requests := set_request_status i s (requests st)\<rparr>)"
  using assms
  by (auto simp: status_ok_def status_ok_except_def request_status_ok_def delivery_statuses_def
      set_request_status_def elim!: in_upd_whereE)

lemma status_ok_adjust [simp]: "status_ok (adjustBatchCountersTx bid s s' st) = status_ok st"
  by (rule status_ok_cong) (simp_all add: adjustBatchCountersTx_def Let_def)

lemma recompute_inv:
  assumes wf: "wf_store st" and c: "counters_ok st" and s: "status_ok_except i st"
    and run: "recomputeRequestStatusTx i st = Inr st'"
  shows "store_inv st'"
proof -
  obtain r where fr: "find_row (\<lambda>r. r_ID r = i) (requests st) = Some r"
    using run by (auto simp: recomputeRequestStatusTx_def split: option.splits)
  then have r: "r \<in> set (requests st)" "r_ID r = i" by (auto dest: find_row_Some)
  define new where "new = AggregateRequestStatus (delivery_statuses st i)"
  show ?thesis
  proof (cases "new = r_Status r")
    case True
    with run fr have "st' = st" by (simp add: recomputeRequestStatusTx_def new_def)
    moreover have "request_status_ok st x" if "x \<in> set (requests st)" for x
    proof (cases "r_ID x = i")
      case xi: True
      have "distinct (map r_ID (requests st))" using wf by (simp add: wf_store_def)
      with that r xi have "x = r" by (metis distinct_key_unique)
      with True r show ?thesis by (simp add: request_status_ok_def new_def)
    next
      case False
      with s that show ?thesis by (simp add: status_ok_except_def)
    qed
    ultimately show ?thesis using wf c by (simp add: store_inv_def status_ok_def)
  next
    case False
    define st1 where "st1 = st\<lparr>requests := set_request_status (r_ID r) new (requests st)\<rparr>"
    have st': "st' = (case r_BatchID r of None \<Rightarrow> st1 | Some b \<Rightarrow> adjustBatchCountersTx b (r_Status r) new st1)"
      using run fr False
      by (cases "r_BatchID r")
        (auto simp: recomputeRequestStatusTx_def Let_def new_def st1_def set_request_status_def r)
    have "wf_store st1" unfolding st1_def using wf by (rule wf_set_request_status)
    then have "wf_store st'" unfolding st' by (auto intro: wf_adjust split: option.splits)
    moreover have "counters_ok st'" unfolding st' st1_def using c wf r(1) by (rule counters_ok_status_change)
    moreover have "status_ok st1"
      unfolding st1_def r(2) using s new_def by (rule status_ok_set_request_status)
    then have "status_ok st'" unfolding st' by (simp split: option.splits)
    ultimately show ?thesis by (rule store_invI)
  qed
qed

section \<open>Operations on deliveries\<close>

lemma at_key_eq: "at_key i t d \<longleftrightarrow> d_key d = (i, timestamptz t)"
  by (simp add: at_key_def d_key_def)

lemma ClaimDelivery_inv:
  assumes "store_inv st"
  shows "store_inv (snd (ClaimDelivery flt now i t lease st))"
proof -
  have "store_inv (st\<lparr>deliveries := upd_where (\<lambda>d. at_key i t d \<and> claimable (d_Status d))
      (claimed_row now lease) (deliveries st)\<rparr>)"
    by (rule store_inv_upd_nonterminal [OF assms])
      (auto simp: claimable_def claimed_row_def d_key_def)
  with assms show ?thesis by (simp add: ClaimDelivery_eq Let_def split: option.splits)
qed

text \<open>
  A delivery row changed to any status, then the status of its request recomputed: this is
  \<open>MarkSent\<close> and \<open>MarkFailed\<close>, whatever the row held before.
\<close>

lemma mark_and_recompute_inv:
  assumes inv: "store_inv st"
    and p: "\<And>d. d \<in> set (deliveries st) \<Longrightarrow> p d \<Longrightarrow> d_RequestID d = i"
    and f: "\<And>d. p d \<Longrightarrow> d_key (f d) = d_key d \<and> d_RequestID (f d) = d_RequestID d"
    and run: "recomputeRequestStatusTx i (st\<lparr>deliveries := upd_where p f (deliveries st)\<rparr>) = Inr st'"
  shows "store_inv st'"
proof (rule recompute_inv [OF _ _ _ run])
  show "wf_store (st\<lparr>deliveries := upd_where p f (deliveries st)\<rparr>)"
    using inv f by (intro wf_upd_deliveries store_invD) auto
  show "counters_ok (st\<lparr>deliveries := upd_where p f (deliveries st)\<rparr>)"
    using store_invD(2) [OF inv] counters_ok_cong [of "st\<lparr>deliveries := upd_where p f (deliveries st)\<rparr>" st]
    by simp
  have same: "upd_where p f (deliveries st) = upd_where (\<lambda>d. p d \<and> d_RequestID d = i) f (deliveries st)"
    using p by (auto simp: upd_where_def)
  have "delivery_statuses (st\<lparr>deliveries := upd_where p f (deliveries st)\<rparr>) j = delivery_statuses st j"
    if "j \<noteq> i" for j
    unfolding same using that f by (intro delivery_statuses_upd_other) auto
  then show "status_ok_except i (st\<lparr>deliveries := upd_where p f (deliveries st)\<rparr>)"
    using store_invD(3) [OF inv] by (auto simp: status_ok_except_def status_ok_def request_status_ok_def)
qed

text \<open>
  A caller names the request of the delivery it marks: \<open>owns\<close> says the named request is the
  one the delivery row carries.
\<close>

definition owns :: "store \<Rightarrow> uuid \<Rightarrow> gotime \<Rightarrow> uuid \<Rightarrow> bool" where
  "owns st i t requestID \<longleftrightarrow> (\<forall>d\<in>set (deliveries st). at_key i t d \<longrightarrow> d_RequestID d = requestID)"

lemma mark_tx_inv:
  assumes inv: "store_inv st" and own: "owns st i t rid"
    and f: "\<And>d. d_key (f d) = d_key d \<and> d_RequestID (f d) = d_RequestID d"
  shows "store_inv (snd (withTx flt (\<lambda>st.
    let st1 = st\<lparr>deliveries := upd_where (at_key i t) f (deliveries st)\<rparr>
    in map_sum id (Pair ()) (recomputeRequestStatusTx rid st1)) st))"
proof (rule withTx_inv [where I = store_inv, OF inv])
  fix x st'
  assume "(let st1 = st\<lparr>deliveries := upd_where (at_key i t) f (deliveries st)\<rparr>
    in map_sum id (Pair ()) (recomputeRequestStatusTx rid st1)) = Inr (x, st')"
  then have run: "recomputeRequestStatusTx rid (st\<lparr>deliveries := upd_where (at_key i t) f (deliveries st)\<rparr>) = Inr st'"
    by (auto simp: map_sum_def Let_def split: sum.splits)
  show "store_inv st'"
    by (rule mark_and_recompute_inv [OF inv _ _ run]) (use own f in \<open>auto simp: owns_def\<close>)
qed

lemma MarkSent_inv:
  assumes "store_inv st" "owns st i t rid"
  shows "store_inv (snd (MarkSent flt now i t rid msg st))"
  unfolding MarkSent_def by (rule mark_tx_inv [OF assms]) (simp add: d_key_def)

lemma MarkFailed_inv:
  assumes "store_inv st" "owns st i t rid"
  shows "store_inv (snd (MarkFailed flt now i t rid n msg st))"
  unfolding MarkFailed_def by (rule mark_tx_inv [OF assms]) (simp add: d_key_def)

text \<open>
  \<open>MarkRetrying\<close> neither guards on the current status nor recomputes the request status: it
  keeps the invariant only on a row that is not terminal.
\<close>

lemma MarkRetrying_inv:
  assumes inv: "store_inv st"
    and nt: "\<forall>d\<in>set (deliveries st). at_key i t d \<longrightarrow> \<not> IsTerminal (d_Status d)"
  shows "store_inv (snd (MarkRetrying flt now i t n next msg st))"
proof -
  let ?f = "\<lambda>d. d\<lparr>d_Status := DeliveryRetrying, d_AttemptCount := n, d_NextRetryAt := Some (timestamptz next),
      d_LastError := Some msg, d_LockedUntil := None, d_UpdatedAt := now\<rparr>"
  have "upd_where (at_key i t) ?f (deliveries st)
      = upd_where (\<lambda>d. at_key i t d \<and> \<not> IsTerminal (d_Status d)) ?f (deliveries st)"
    using nt by (auto simp: upd_where_def)
  moreover have "store_inv (st\<lparr>deliveries :=
      upd_where (\<lambda>d. at_key i t d \<and> \<not> IsTerminal (d_Status d)) ?f (deliveries st)\<rparr>)"
    by (rule store_inv_upd_nonterminal [OF inv]) (auto simp: d_key_def)
  ultimately show ?thesis using inv by (simp add: MarkRetrying_def split: option.splits)
qed

lemma CancelRequest_inv:
  assumes "store_inv st"
  shows "store_inv (snd (CancelRequest flt now i st))"
  unfolding CancelRequest_def
proof (rule withTx_inv [where I = store_inv, OF assms])
  let ?p = "\<lambda>d. d_RequestID d = i \<and> cancellable (d_Status d)"
  let ?f = "\<lambda>d::Delivery. d\<lparr>d_Status := DeliveryCancelled, d_UpdatedAt := now\<rparr>"
  fix x st'
  assume "(case GetRequestByID None i st of Inl err \<Rightarrow> Inl err
     | Inr _ \<Rightarrow> let p = ?p; st1 = st\<lparr>deliveries := upd_where p ?f (deliveries st)\<rparr>
         in if count_where p (deliveries st) = 0 then Inl ErrCancelNotAllowed
            else case recomputeRequestStatusTx i st1 of Inl err \<Rightarrow> Inl err
              | Inr st2 \<Rightarrow> (case GetRequestByID None i st2 of Inl err \<Rightarrow> Inl err | Inr r \<Rightarrow> Inr (r, st2)))
     = Inr (x, st')"
  then have run: "recomputeRequestStatusTx i (st\<lparr>deliveries := upd_where ?p ?f (deliveries st)\<rparr>) = Inr st'"
    by (auto simp: Let_def split: sum.splits if_splits)
  show "store_inv st'"
    by (rule mark_and_recompute_inv [OF assms _ _ run]) (auto simp: d_key_def)
qed

end
