(* ===== verification/Store_Create.thy ===== *)
theory Store_Create
  imports Store_Inv
begin

text \<open>
  Creation of notifications and batches (request.go, batch.go): both transactions keep the store
  invariant, and a batch is inserted with counters that agree with the rows it created.
\<close>

section \<open>Inserting single rows\<close>

lemma stored_request_frame [simp]:
  "r_ID (stored_request r) = r_ID r" "r_UserID (stored_request r) = r_UserID r"
  "r_BatchID (stored_request r) = r_BatchID r" "r_IdempotencyKey (stored_request r) = r_IdempotencyKey r"
  "r_Status (stored_request r) = r_Status r" "r_TemplateID (stored_request r) = r_TemplateID r"
  "r_Recipient (stored_request r) = r_Recipient r" "r_RenderedContent (stored_request r) = r_RenderedContent r"
  "r_Channel (stored_request r) = r_Channel r" "r_Priority (stored_request r) = r_Priority r"
  by (simp_all add: stored_request_def)

lemma stored_delivery_frame [simp]:
  "d_ID (stored_delivery d) = d_ID d" "d_RequestID (stored_delivery d) = d_RequestID d"
  "d_Status (stored_delivery d) = d_Status d" "d_AttemptCount (stored_delivery d) = d_AttemptCount d"
  "d_Channel (stored_delivery d) = d_Channel d" "d_Priority (stored_delivery d) = d_Priority d"
  "d_CreatedAt (stored_delivery d) = timestamptz (d_CreatedAt d)"
  by (simp_all add: stored_delivery_def)

lemma same_key_sym: "same_idempotency_key r x \<longleftrightarrow> same_idempotency_key x r"
  by (auto simp: same_idempotency_key_def)

lemma same_key_stored [simp]:
  "same_idempotency_key (stored_request r) x = same_idempotency_key r x"
  "same_idempotency_key x (stored_request r) = same_idempotency_key x r"
  "request_fk_ok st (stored_request r) = request_fk_ok st r"
  by (simp_all add: same_idempotency_key_def request_fk_ok_def)

definition add_request :: "Request \<Rightarrow> store \<Rightarrow> store" where
  "add_request r st = st\<lparr>requests := requests st @ [stored_request r]\<rparr>"

definition new_request :: "store \<Rightarrow> Request \<Rightarrow> bool" where
  "new_request st r \<longleftrightarrow> (\<forall>x\<in>set (requests st). r_ID x \<noteq> r_ID r \<and> \<not> same_idempotency_key r x)"

lemma insertRequest_Inr:
  "insertRequest r st = Inr st' \<longleftrightarrow> new_request st r \<and> request_fk_ok st r \<and> st' = add_request r st"
  by (auto simp: insertRequest_eq new_request_def add_request_def list_ex_iff)

lemma insertRequestOnConflict_Inr:
  "insertRequestOnConflict r st = Inr (True, st') \<longleftrightarrow> new_request st r \<and> request_fk_ok st r \<and> st' = add_request r st"
  "insertRequestOnConflict r st = Inr (False, st') \<longleftrightarrow> list_ex (same_idempotency_key r) (requests st) \<and> st' = st"
  by (auto simp: insertRequestOnConflict_def new_request_def add_request_def list_ex_iff)

lemma wf_add_request:
  assumes "wf_store st" "new_request st r" "request_fk_ok st r"
  shows "wf_store (add_request r st)"
  using assms same_key_sym
  by (auto simp: wf_store_def new_request_def add_request_def)

lemma no_deliveries_of_new: "wf_store st \<Longrightarrow> new_request st r \<Longrightarrow> delivery_statuses st (r_ID r) = []"
  by (auto simp: wf_store_def new_request_def delivery_statuses_def filter_empty_conv)

lemma delivery_statuses_add_request [simp]: "delivery_statuses (add_request r st) i = delivery_statuses st i"
  by (simp add: delivery_statuses_def add_request_def)

lemma status_ok_add_request:
  assumes "wf_store st" "status_ok st" "new_request st r"
  shows "status_ok (add_request r st)"
  using assms(2) no_deliveries_of_new [OF assms(1,3)]
  by (auto simp: status_ok_def request_status_ok_def) (auto simp: add_request_def)

lemma add_request_frame [simp]:
  "batches (add_request r st) = batches st" "deliveries (add_request r st) = deliveries st"
  "outbox (add_request r st) = outbox st" "templates (add_request r st) = templates st"
  "requests (add_request r st) = requests st @ [stored_request r]"
  "archived (add_request r st) = archived st" "partitions (add_request r st) = partitions st"
  by (simp_all add: add_request_def)

lemma in_batch_stored [simp]:
  "in_batch bid (stored_request r) = in_batch bid r" "in_column bid col (stored_request r) = in_column bid col r"
  by (simp_all add: in_batch_def in_column_def)

section \<open>Inserting the delivery and its outbox row\<close>

definition add_delivery :: "Delivery \<Rightarrow> store \<Rightarrow> store" where
  "add_delivery d st = st\<lparr>deliveries := deliveries st @ [stored_delivery d]\<rparr>"

definition add_outbox :: "gotime \<Rightarrow> OutboxRecord option \<Rightarrow> store \<Rightarrow> store" where
  "add_outbox now ob st =
     (case ob of None \<Rightarrow> st | Some o' \<Rightarrow> st\<lparr>outbox := outbox st @ [outbox_row_of now o']\<rparr>)"

lemma list_ex_key: "list_ex (\<lambda>x. k x = v) xs \<longleftrightarrow> v \<in> k ` set xs"
  by (induction xs) auto

lemma insert_delivery_and_outbox_Inr:
  "insert_delivery_and_outbox now d ob st = Inr st' \<longleftrightarrow>
     d_key (stored_delivery d) \<notin> d_key ` set (deliveries st)
   \<and> (case ob of None \<Rightarrow> True | Some o' \<Rightarrow> or_ID o' \<notin> o_ID ` set (outbox st))
   \<and> st' = add_outbox now ob (add_delivery d st)"
  unfolding insert_delivery_and_outbox_def insertDelivery_def insertOutbox_def list_ex_key
  by (auto simp: add_delivery_def add_outbox_def split: option.splits if_splits)

lemma add_frame [simp]:
  "batches (add_outbox now ob st) = batches st" "requests (add_outbox now ob st) = requests st"
  "deliveries (add_outbox now ob st) = deliveries st" "templates (add_outbox now ob st) = templates st"
  "batches (add_delivery d st) = batches st" "requests (add_delivery d st) = requests st"
  "outbox (add_delivery d st) = outbox st" "templates (add_delivery d st) = templates st"
  "deliveries (add_delivery d st) = deliveries st @ [stored_delivery d]"
  by (simp_all add: add_outbox_def add_delivery_def split: option.splits)

lemma outbox_add_outbox [simp]:
  "outbox (add_outbox now ob st) = outbox st @ (case ob of None \<Rightarrow> [] | Some o' \<Rightarrow> [outbox_row_of now o'])"
  by (simp add: add_outbox_def split: option.splits)

lemma wf_add_delivery:
  assumes "wf_store st" "d_key (stored_delivery d) \<notin> d_key ` set (deliveries st)"
    "d_RequestID d \<in> r_ID ` set (requests st)"
  shows "wf_store (add_delivery d st)"
  using assms by (auto simp: wf_store_def add_delivery_def)

lemma wf_add_outbox:
  assumes "wf_store st" "case ob of None \<Rightarrow> True | Some o' \<Rightarrow> or_ID o' \<notin> o_ID ` set (outbox st)"
  shows "wf_store (add_outbox now ob st)"
  using assms by (auto simp: wf_store_def add_outbox_def outbox_row_of_def split: option.splits)

lemma status_ok_add_delivery:
  assumes "status_ok st" "\<not> IsTerminal (d_Status d)"
    and pend: "\<And>r. r \<in> set (requests st) \<Longrightarrow> r_ID r = d_RequestID d \<Longrightarrow> r_Status r = RequestPending"
  shows "status_ok (add_delivery d st)"
  unfolding status_ok_def
proof
  fix r assume "r \<in> set (requests (add_delivery d st))"
  then have r: "r \<in> set (requests st)" by simp
  show "request_status_ok (add_delivery d st) r"
  proof (cases "r_ID r = d_RequestID d")
    case True
    then have "d_Status d \<in> set (delivery_statuses (add_delivery d st) (r_ID r))"
      by (simp add: delivery_statuses_def)
    then have "AggregateRequestStatus (delivery_statuses (add_delivery d st) (r_ID r)) = RequestPending"
      using assms(2) by (rule AggregateRequestStatus_nonterminal)
    with pend [OF r True] show ?thesis by (simp add: request_status_ok_def)
  next
    case False
    then have "delivery_statuses (add_delivery d st) (r_ID r) = delivery_statuses st (r_ID r)"
      by (simp add: delivery_statuses_def)
    with assms(1) r show ?thesis by (simp add: status_ok_def request_status_ok_def)
  qed
qed

text \<open>
  What the service builds for one notification: a pending request and a delivery of that request
  that is scheduled or pending.
\<close>

definition item_ok :: "Request \<Rightarrow> Delivery \<Rightarrow> bool" where
  "item_ok r d \<longleftrightarrow> r_Status r = RequestPending \<and> d_RequestID d = r_ID r \<and> d_Status d \<in> {DeliveryScheduled, DeliveryPending}"

lemma add_item:
  assumes wf: "wf_store st" and s: "status_ok st" and new: "new_request st r" "request_fk_ok st r"
    and ok: "item_ok r d"
    and ins: "insert_delivery_and_outbox now d ob (add_request r st) = Inr st'"
  shows "wf_store st'" "status_ok st'" "requests st' = requests st @ [stored_request r]" "batches st' = batches st"
proof -
  have st': "st' = add_outbox now ob (add_delivery d (add_request r st))"
    and k: "d_key (stored_delivery d) \<notin> d_key ` set (deliveries st)"
    and o: "case ob of None \<Rightarrow> True | Some o' \<Rightarrow> or_ID o' \<notin> o_ID ` set (outbox st)"
    using ins by (simp_all add: insert_delivery_and_outbox_Inr split: option.splits)
  have wf1: "wf_store (add_request r st)" using wf new by (rule wf_add_request)
  have wf2: "wf_store (add_delivery d (add_request r st))"
    using wf1 k ok by (intro wf_add_delivery) (auto simp: item_ok_def)
  show "wf_store st'" unfolding st' using wf2 o by (intro wf_add_outbox) (auto split: option.splits)
  have "status_ok (add_delivery d (add_request r st))"
  proof (rule status_ok_add_delivery)
    show "status_ok (add_request r st)" using wf s new(1) by (rule status_ok_add_request)
    show "\<not> IsTerminal (d_Status d)" using ok by (auto simp: item_ok_def)
    show "r_Status x = RequestPending" if "x \<in> set (requests (add_request r st))" "r_ID x = d_RequestID d" for x
      using that ok new by (auto simp: item_ok_def new_request_def)
  qed
  then show "status_ok st'" unfolding st'
    using status_ok_cong [of "add_outbox now ob (add_delivery d (add_request r st))" "add_delivery d (add_request r st)"]
    by simp
  show "requests st' = requests st @ [stored_request r]" "batches st' = batches st" unfolding st' by simp_all
qed

lemma counters_ok_add_plain:
  assumes "counters_ok st" "r_BatchID r = None" "requests st' = requests st @ [stored_request r]" "batches st' = batches st"
  shows "counters_ok st'"
  using assms by (simp add: counters_ok_def batch_counters_ok_def in_batch_def in_column_def)

lemma CreateNotification_inv:
  assumes inv: "store_inv st" and ok: "item_ok req del" and nb: "r_BatchID req = None"
  shows "store_inv (snd (CreateNotification flt now req del ob st))"
  unfolding CreateNotification_def
proof (rule withTx_inv [where I = store_inv, OF inv])
  fix x st'
  assume "(case insertRequest req st of Inl err \<Rightarrow> Inl err
    | Inr st1 \<Rightarrow> (case insert_delivery_and_outbox now del ob st1 of Inl err \<Rightarrow> Inl err
                   | Inr st2 \<Rightarrow> Inr ((), st2))) = Inr (x, st')"
  then have "new_request st req" "request_fk_ok st req"
    and ins: "insert_delivery_and_outbox now del ob (add_request req st) = Inr st'"
    by (auto simp: insertRequest_Inr split: sum.splits)
  note i = add_item [OF store_invD(1,3) [OF inv] this(1,2) ok ins]
  then show "store_inv st'"
    using counters_ok_add_plain [OF store_invD(2) [OF inv] nb] by (intro store_invI) auto
qed

section \<open>Batches\<close>

lemma columns_partition:
  "count_where (in_batch bid) rs =
     count_where (in_column bid pending_count) rs + count_where (in_column bid sent_count) rs
   + count_where (in_column bid failed_count) rs + count_where (in_column bid cancelled_count) rs"
proof (induction rs)
  case (Cons r rs)
  then show ?case by (cases "r_Status r") (auto simp: in_batch_def in_column_def)
qed simp

text \<open>The state of the loop over the items: \<open>n\<close> requests of the new batch, all pending so far.\<close>

definition batch_loop_inv :: "uuid \<Rightarrow> int \<Rightarrow> store \<Rightarrow> bool" where
  "batch_loop_inv bid n st \<longleftrightarrow>
     wf_store st \<and> status_ok st
   \<and> (\<forall>b\<in>set (batches st). b_ID b \<noteq> bid \<longrightarrow> batch_counters_ok st b)
   \<and> int (count_where (in_batch bid) (requests st)) = n
   \<and> int (count_where (in_column bid pending_count) (requests st)) = n"

lemma batch_loop_step:
  assumes inv: "batch_loop_inv bid n st" and new: "new_request st r" "request_fk_ok st r"
    and ok: "item_ok r d" and b: "r_BatchID r = Some bid"
    and ins: "insert_delivery_and_outbox now d ob (add_request r st) = Inr st'"
  shows "batch_loop_inv bid (n + 1) st'" "batches st' = batches st"
proof -
  note i = add_item [OF _ _ new ok ins]
  show "batches st' = batches st" using i inv by (simp add: batch_loop_inv_def)
  show "batch_loop_inv bid (n + 1) st'"
    using i inv b ok by (auto simp: batch_loop_inv_def batch_counters_ok_def in_batch_def in_column_def item_ok_def)
qed

lemma insert_items_inv:
  assumes "insert_items now items n st = Inr (n', st')" "batch_loop_inv bid n st"
    "\<forall>it\<in>set items. item_ok (bi_Request it) (bi_Delivery it) \<and> r_BatchID (bi_Request it) = Some bid"
  shows "batch_loop_inv bid n' st' \<and> batches st' = batches st \<and> n \<le> n' \<and> n' \<le> n + int (length items)"
  using assms
proof (induction now items n st rule: insert_items.induct)
  case (2 now item items n st)
  obtain inserted st1 where c: "insertRequestOnConflict (bi_Request item) st = Inr (inserted, st1)"
    using "2.prems"(1) by (auto split: sum.splits)
  show ?case
  proof (cases inserted)
    case False
    with c have st1: "st1 = st" by (simp add: insertRequestOnConflict_Inr)
    have "insert_items now items n st = Inr (n', st')"
      using "2.prems"(1) c False st1 by simp
    with "2.IH"(1) [OF c refl] False st1 "2.prems"(2,3) show ?thesis by simp
  next
    case True
    with c have new: "new_request st (bi_Request item)" "request_fk_ok st (bi_Request item)"
      and st1: "st1 = add_request (bi_Request item) st" by (auto simp: insertRequestOnConflict_Inr)
    obtain st2 where ins: "insert_delivery_and_outbox now (bi_Delivery item) (bi_Outbox item) st1 = Inr st2"
      using "2.prems"(1) c True by (auto split: sum.splits)
    have step: "batch_loop_inv bid (n + 1) st2" "batches st2 = batches st"
      using batch_loop_step [OF "2.prems"(2) new] ins st1 "2.prems"(3) by auto
    have "insert_items now items (n + 1) st2 = Inr (n', st')"
      using "2.prems"(1) c True ins by simp
    with "2.IH"(2) [OF c refl _ ins] True step "2.prems"(3) show ?thesis by auto
  qed
qed auto

lemma insertBatch_inv:
  assumes inv: "store_inv st" and ins: "insertBatch b st = Inr st1"
  shows "batch_loop_inv (b_ID b) 0 st1"
    "\<forall>x\<in>set (batches st1). b_ID x = b_ID b \<longrightarrow> b_SentCount x = 0 \<and> b_FailedCount x = 0 \<and> b_CancelledCount x = 0"
proof -
  define row where "row = b\<lparr>b_TotalCount := 0, b_PendingCount := 0, b_SentCount := 0, b_FailedCount := 0,
                     b_CancelledCount := 0, b_CreatedAt := timestamptz (b_CreatedAt b)\<rparr>"
  have new: "\<forall>x\<in>set (batches st). b_ID x \<noteq> b_ID b \<and> \<not> same_batch_key b x"
    and st1: "st1 = st\<lparr>batches := batches st @ [row]\<rparr>"
    using ins by (auto simp: insertBatch_eq list_ex_iff row_def split: if_splits)
  have row: "b_ID row = b_ID b" "b_SentCount row = 0" "b_FailedCount row = 0" "b_CancelledCount row = 0"
    "same_batch_key row x = same_batch_key b x" "same_batch_key x row = same_batch_key b x" for x
    by (auto simp: row_def same_batch_key_def)
  show "\<forall>x\<in>set (batches st1). b_ID x = b_ID b \<longrightarrow> b_SentCount x = 0 \<and> b_FailedCount x = 0 \<and> b_CancelledCount x = 0"
    using new row by (auto simp: st1)
  have wf: "wf_store st" using inv by (rule store_invD)
  have none: "r_BatchID r \<noteq> Some (b_ID b)" if "r \<in> set (requests st)" for r
    using wf new that by (fastforce simp: wf_store_def request_fk_ok_def split: option.splits)
  have "wf_store st1"
    using wf new row by (auto simp: st1 wf_store_def request_fk_ok_def split: option.splits)
  moreover have "status_ok st1"
    using store_invD(3) [OF inv] status_ok_cong [of st1 st] by (simp add: st1)
  moreover have "\<forall>x\<in>set (batches st1). b_ID x \<noteq> b_ID b \<longrightarrow> batch_counters_ok st1 x"
    using store_invD(2) [OF inv] row by (auto simp: st1 counters_ok_def batch_counters_ok_def)
  ultimately show "batch_loop_inv (b_ID b) 0 st1"
    using none by (simp add: batch_loop_inv_def count_where_zero in_batch_def in_column_def st1)
qed

lemma CreateBatch_inv:
  assumes inv: "store_inv st"
    and items: "\<forall>it\<in>set items. item_ok (bi_Request it) (bi_Delivery it) \<and> r_BatchID (bi_Request it) = Some (b_ID b)"
  shows "store_inv (snd (CreateBatch flt now b items st))"
  unfolding CreateBatch_def
proof (rule withTx_inv [where I = store_inv, OF inv])
  let ?f = "\<lambda>n x::Batch. x\<lparr>b_TotalCount := n, b_PendingCount := n\<rparr>"
  fix x st'
  assume "(case insertBatch b st of Inl err \<Rightarrow> Inl err
    | Inr st1 \<Rightarrow> (case insert_items now items 0 st1 of Inl err \<Rightarrow> Inl err
      | Inr (created, st2) \<Rightarrow>
          Inr (\<lparr>br_Batch = b\<lparr>b_TotalCount := created, b_PendingCount := created\<rparr>,
                br_CreatedCount = created, br_DuplicateCount = int (length items) - created\<rparr>,
               st2\<lparr>batches := upd_where (\<lambda>x. b_ID x = b_ID b) (?f created) (batches st2)\<rparr>))) = Inr (x, st')"
  then obtain st1 n st2 where ib: "insertBatch b st = Inr st1" and it: "insert_items now items 0 st1 = Inr (n, st2)"
    and st': "st' = st2\<lparr>batches := upd_where (\<lambda>x. b_ID x = b_ID b) (?f n) (batches st2)\<rparr>"
    by (auto split: sum.splits)
  have loop: "batch_loop_inv (b_ID b) n st2" and bs: "batches st2 = batches st1"
    using insert_items_inv [OF it insertBatch_inv(1) [OF inv ib] items] by auto
  have zero: "column col y = 0" if "y \<in> set (batches st2)" "b_ID y = b_ID b" "col \<noteq> pending_count" for y col
    using insertBatch_inv(2) [OF inv ib] that bs by (cases col) auto
  have others: "count_where (in_column (b_ID b) col) (requests st2) = 0" if "col \<noteq> pending_count" for col
    using loop columns_partition [of "b_ID b" "requests st2"] that by (cases col) (auto simp: batch_loop_inv_def)
  have ids: "map b_ID (upd_where (\<lambda>x. b_ID x = b_ID b) (?f n) (batches st2)) = map b_ID (batches st2)"
    by (rule map_upd_where_same) simp
  have wf2: "wf_store st2" using loop by (simp add: batch_loop_inv_def)
  have "wf_store st'"
  proof -
    have "y' = z'" if y': "y' \<in> set (batches st')" and z': "z' \<in> set (batches st')" and k: "same_batch_key z' y'" for y' z'
    proof -
      obtain y where y: "y \<in> set (batches st2)" "y' = (if b_ID y = b_ID b then ?f n y else y)"
        using y' unfolding st' by (auto simp: set_upd_where)
      obtain z where z: "z \<in> set (batches st2)" "z' = (if b_ID z = b_ID b then ?f n z else z)"
        using z' unfolding st' by (auto simp: set_upd_where)
      from k have "same_batch_key z y" by (simp add: y z same_batch_key_def split: if_splits)
      with wf2 y z have "y = z" by (auto simp: wf_store_def)
      with y z show ?thesis by simp
    qed
    then show ?thesis using wf2 ids request_fk_ok_ids [OF ids] by (auto simp: wf_store_def st')
  qed
  moreover have "counters_ok st'"
    unfolding counters_ok_def st'
  proof
    fix y assume "y \<in> set (batches (st2\<lparr>batches := upd_where (\<lambda>x. b_ID x = b_ID b) (?f n) (batches st2)\<rparr>))"
    then have "y \<in> set (upd_where (\<lambda>x. b_ID x = b_ID b) (?f n) (batches st2))" by simp
    then show "batch_counters_ok (st2\<lparr>batches := upd_where (\<lambda>x. b_ID x = b_ID b) (?f n) (batches st2)\<rparr>) y"
    proof (rule in_upd_whereE)
      assume "y \<in> set (batches st2)" "\<not> b_ID y = b_ID b"
      then show ?thesis using loop by (auto simp: batch_loop_inv_def batch_counters_ok_def)
    next
      fix y0 assume y0: "y0 \<in> set (batches st2)" "b_ID y0 = b_ID b" "y = ?f n y0"
      from zero [OF y0(1,2)] have "b_SentCount y0 = 0" "b_FailedCount y0 = 0" "b_CancelledCount y0 = 0"
        by (metis column.simps counter_column.distinct)+
      with y0 others loop show ?thesis by (simp add: batch_loop_inv_def batch_counters_ok_def)
    qed
  qed
  moreover have "status_ok st'"
    using loop status_ok_cong [of st' st2] by (simp add: batch_loop_inv_def st')
  ultimately show "store_inv st'" by (rule store_invI)
qed

end
