(* ===== verification/Store_Scheduler.thy ===== *)
theory Store_Scheduler
  imports Store_Create Float64
begin

text \<open>
  The repository operations behind the scheduler: the outbox reads and marks (outbox.go), the
  due transitions, reconciliation, reaping and partition maintenance (scheduler.go, with the
  functions of migration 000004).  \<open>locked\<close> is the set of rows other transactions hold, which
  \<open>FOR UPDATE SKIP LOCKED\<close> passes over; \<open>ids\<close> supplies the values of \<open>uuid.New\<close>.
  Rows with equal sort keys come in table order.
\<close>

section \<open>Outbox (outbox.go)\<close>

definition unpublished :: "outbox_row \<Rightarrow> bool" where
  "unpublished o' \<longleftrightarrow> o_PublishedAt o' = None"

definition entry_of :: "outbox_row \<Rightarrow> OutboxEntry" where
  "entry_of o' = \<lparr>oe_ID = o_ID o', oe_Stream = o_Stream o', oe_Message = o_Payload o'\<rparr>"

definition FetchUnpublishedOutbox ::
  "fault \<Rightarrow> (outbox_row \<Rightarrow> bool) \<Rightarrow> int \<Rightarrow> store \<Rightarrow> OutboxEntry list result" where
  "FetchUnpublishedOutbox flt locked limit st =
     (case flt of
        Some msg \<Rightarrow> Inl (ErrInfra msg)
      | None \<Rightarrow>
          (case sql_limit limit (filter (\<lambda>o'. \<not> locked o')
                  (sort_key o_CreatedAt (filter unpublished (outbox st)))) of
             Inl msg \<Rightarrow> Inl (ErrInfra msg)
           | Inr rows \<Rightarrow> Inr (map entry_of rows)))"

definition MarkOutboxPublished :: "fault \<Rightarrow> gotime \<Rightarrow> uuid list \<Rightarrow> store \<Rightarrow> unit result \<times> store" where
  "MarkOutboxPublished flt now ids st =
     (if ids = [] then (Inr (), st)
      else case flt of
          Some msg \<Rightarrow> (Inl (ErrInfra msg), st)
        | None \<Rightarrow> (Inr (), st\<lparr>outbox := upd_where (\<lambda>o'. o_ID o' \<in> set ids)
                              (\<lambda>o'. o'\<lparr>o_PublishedAt := Some now\<rparr>) (outbox st)\<rparr>))"

definition CountUnpublishedOutbox :: "fault \<Rightarrow> store \<Rightarrow> int result" where
  "CountUnpublishedOutbox flt st =
     (case flt of Some msg \<Rightarrow> Inl (ErrInfra msg) | None \<Rightarrow> Inr (int (count_where unpublished (outbox st))))"

section \<open>Due transitions (scheduler.go)\<close>

record dueRow =
  due_id :: uuid
  due_createdAt :: gotime
  due_requestID :: uuid
  due_channel :: Channel
  due_priority :: Priority

definition due_of :: "Delivery \<Rightarrow> dueRow" where
  "due_of d = \<lparr>due_id = d_ID d, due_createdAt = d_CreatedAt d, due_requestID = d_RequestID d,
               due_channel = d_Channel d, due_priority = d_Priority d\<rparr>"

definition scanDueRows :: "Delivery list \<Rightarrow> dueRow list" where
  "scanDueRows rows = map due_of rows"

definition due_outbox :: "uuid \<Rightarrow> dueRow \<Rightarrow> OutboxRecord" where
  "due_outbox i d = \<lparr>or_ID = i, or_DeliveryID = due_id d, or_DeliveryCreatedAt = due_createdAt d,
     or_Stream = Stream (due_priority d) (due_channel d),
     or_Message = \<lparr>m_DeliveryID = due_id d, m_DeliveryCreatedAt = due_createdAt d,
                   m_RequestID = due_requestID d, m_Channel = due_channel d,
                   m_Priority = due_priority d, m_CorrelationID = ''''\<rparr>\<rparr>"

definition enqueueDueTx :: "gotime \<Rightarrow> uuid \<Rightarrow> dueRow \<Rightarrow> store \<Rightarrow> store result" where
  "enqueueDueTx now i d st = insertOutbox now (due_outbox i d) st"

fun enqueue_all :: "gotime \<Rightarrow> (nat \<Rightarrow> uuid) \<Rightarrow> nat \<Rightarrow> dueRow list \<Rightarrow> store \<Rightarrow> store result" where
  "enqueue_all now ids k [] st = Inr st"
| "enqueue_all now ids k (d # ds) st =
     (case enqueueDueTx now (ids k) d st of
        Inl err \<Rightarrow> Inl err
      | Inr st1 \<Rightarrow> enqueue_all now ids (Suc k) ds st1)"

definition transitionAndEnqueue ::
  "fault \<Rightarrow> gotime \<Rightarrow> (nat \<Rightarrow> uuid) \<Rightarrow> (int \<Rightarrow> store \<Rightarrow> (Delivery list \<times> store) result) \<Rightarrow> int \<Rightarrow>
   store \<Rightarrow> int result \<times> store" where
  "transitionAndEnqueue flt now ids query limit =
     withTx flt (\<lambda>st.
       case query limit st of
         Inl err \<Rightarrow> Inl err
       | Inr (rows, st1) \<Rightarrow>
           (let due = scanDueRows rows
            in case enqueue_all now ids 0 due st1 of
                 Inl err \<Rightarrow> Inl err
               | Inr st2 \<Rightarrow> Inr (int (length due), st2)))"

text \<open>The common shape of the two \<open>WITH due AS \<dots> UPDATE \<dots> RETURNING\<close> statements.\<close>

definition is_due :: "DeliveryStatus \<Rightarrow> (Delivery \<Rightarrow> gotime option) \<Rightarrow> gotime \<Rightarrow> Delivery \<Rightarrow> bool" where
  "is_due s due_at now d \<longleftrightarrow> d_Status d = s \<and> (case due_at d of None \<Rightarrow> False | Some t \<Rightarrow> t \<le> now)"

definition to_pending :: "gotime \<Rightarrow> Delivery \<Rightarrow> Delivery" where
  "to_pending now d = d\<lparr>d_Status := DeliveryPending, d_UpdatedAt := now\<rparr>"

definition due_query ::
  "DeliveryStatus \<Rightarrow> (Delivery \<Rightarrow> gotime option) \<Rightarrow> gotime \<Rightarrow> (Delivery \<Rightarrow> bool) \<Rightarrow> int \<Rightarrow> store \<Rightarrow>
   (Delivery list \<times> store) result" where
  "due_query s due_at now locked limit st =
     (case sql_limit limit (sort_key (\<lambda>d. the (due_at d))
             (filter (\<lambda>d. is_due s due_at now d \<and> \<not> locked d) (deliveries st))) of
        Inl msg \<Rightarrow> Inl (ErrInfra msg)
      | Inr due \<Rightarrow>
          Inr (map (to_pending now) due,
               st\<lparr>deliveries := upd_where (\<lambda>d. d_key d \<in> set (map d_key due)) (to_pending now)
                     (deliveries st)\<rparr>))"

definition PromoteDue ::
  "fault \<Rightarrow> gotime \<Rightarrow> (Delivery \<Rightarrow> bool) \<Rightarrow> (nat \<Rightarrow> uuid) \<Rightarrow> int \<Rightarrow> store \<Rightarrow> int result \<times> store" where
  "PromoteDue flt now locked ids limit =
     transitionAndEnqueue flt now ids (due_query DeliveryScheduled d_SendAt now locked) limit"

definition SweepRetries ::
  "fault \<Rightarrow> gotime \<Rightarrow> (Delivery \<Rightarrow> bool) \<Rightarrow> (nat \<Rightarrow> uuid) \<Rightarrow> int \<Rightarrow> store \<Rightarrow> int result \<times> store" where
  "SweepRetries flt now locked ids limit =
     transitionAndEnqueue flt now ids (due_query DeliveryRetrying d_NextRetryAt now locked) limit"

definition orphan_pending :: "store \<Rightarrow> gotime \<Rightarrow> Delivery \<Rightarrow> bool" where
  "orphan_pending st cutoff d \<longleftrightarrow>
     d_Status d = DeliveryPending \<and> d_UpdatedAt d < timestamptz cutoff
   \<and> \<not> list_ex (\<lambda>o'. o_DeliveryID o' = d_ID d \<and> unpublished o') (outbox st)"

text \<open>\<open>wall\<close> is the process's \<open>time.Now\<close>, \<open>now\<close> the server's.\<close>

definition ReconcilePending ::
  "fault \<Rightarrow> gotime \<Rightarrow> gotime \<Rightarrow> (Delivery \<Rightarrow> bool) \<Rightarrow> (nat \<Rightarrow> uuid) \<Rightarrow> duration \<Rightarrow> int \<Rightarrow> store \<Rightarrow>
   int result \<times> store" where
  "ReconcilePending flt now wall locked ids olderThan limit =
     (let cutoff = wall - olderThan in
      withTx flt (\<lambda>st.
        case sql_limit limit (sort_key d_UpdatedAt
               (filter (\<lambda>d. orphan_pending st cutoff d \<and> \<not> locked d) (deliveries st))) of
          Inl msg \<Rightarrow> Inl (ErrInfra msg)
        | Inr rows \<Rightarrow>
            (let due = scanDueRows rows
             in case enqueue_all now ids 0 due st of
                  Inl err \<Rightarrow> Inl err
                | Inr st2 \<Rightarrow> Inr (int (length due), st2))))"

definition stuck :: "gotime \<Rightarrow> Delivery \<Rightarrow> bool" where
  "stuck now d \<longleftrightarrow> d_Status d = DeliveryProcessing
     \<and> (case d_LockedUntil d of None \<Rightarrow> False | Some t \<Rightarrow> t < now)"

definition ReapStuck :: "fault \<Rightarrow> gotime \<Rightarrow> store \<Rightarrow> int result \<times> store" where
  "ReapStuck flt now st =
     (case flt of
        Some msg \<Rightarrow> (Inl (ErrInfra msg), st)
      | None \<Rightarrow>
          (Inr (int (count_where (stuck now) (deliveries st))),
           st\<lparr>deliveries := upd_where (stuck now)
                (\<lambda>d. d\<lparr>d_Status := DeliveryRetrying, d_NextRetryAt := Some now,
                       d_LockedUntil := None, d_UpdatedAt := now\<rparr>) (deliveries st)\<rparr>))"

section \<open>Partitions and retention (scheduler.go, migration 000004)\<close>

text \<open>
  A day partition is named by its day number.  The session runs in UTC.  A row lives in the
  partition of its day when that exists and in the default partition otherwise, and PostgreSQL
  refuses to create a partition while the default one holds rows of its range.
\<close>

definition day_of :: "gotime \<Rightarrow> int" where
  "day_of t = t div (24 * Hour)"

definition in_day :: "int \<Rightarrow> Delivery \<Rightarrow> bool" where
  "in_day day d \<longleftrightarrow> day_of (d_CreatedAt d) = day"

definition CreateDeliveryPartition :: "fault \<Rightarrow> gotime \<Rightarrow> store \<Rightarrow> unit result \<times> store" where
  "CreateDeliveryPartition flt day st =
     (case flt of
        Some msg \<Rightarrow> (Inl (ErrInfra msg), st)
      | None \<Rightarrow>
          if day_of day \<in> set (partitions st) then (Inr (), st)
          else if list_ex (in_day (day_of day)) (deliveries st)
          then (Inl (ErrInfra ''create partition''), st)
          else (Inr (), st\<lparr>partitions := partitions st @ [day_of day]\<rparr>))"

definition ArchiveAndDropPartition :: "fault \<Rightarrow> gotime \<Rightarrow> store \<Rightarrow> unit result \<times> store" where
  "ArchiveAndDropPartition flt day st =
     (case flt of
        Some msg \<Rightarrow> (Inl (ErrInfra msg), st)
      | None \<Rightarrow>
          if day_of day \<notin> set (partitions st) then (Inr (), st)
          else (let rows = filter (\<lambda>d. in_day (day_of day) d \<and> IsTerminal (d_Status d)) (deliveries st)
                in if list_ex (\<lambda>d. d_key d \<in> set (map d_key rows)) (archived st)
                   then (Inl (ErrInfra ''archive/drop partition''), st)
                   else (Inr (), st\<lparr>archived := archived st @ rows,
                           deliveries := filter (\<lambda>d. \<not> in_day (day_of day) d) (deliveries st),
                           partitions := removeAll (day_of day) (partitions st)\<rparr>)))"

text \<open>The due instants, and the lag of the oldest one in seconds; no row is a scan error.\<close>

definition due_instants :: "gotime \<Rightarrow> store \<Rightarrow> gotime list" where
  "due_instants now st =
     map (\<lambda>d. the (d_SendAt d)) (filter (is_due DeliveryScheduled d_SendAt now) (deliveries st))
   @ map (\<lambda>d. the (d_NextRetryAt d)) (filter (is_due DeliveryRetrying d_NextRetryAt now) (deliveries st))"

definition OldestDueLagSeconds :: "fault \<Rightarrow> gotime \<Rightarrow> store \<Rightarrow> rat result" where
  "OldestDueLagSeconds flt now st =
     (case flt of
        Some msg \<Rightarrow> Inl (ErrInfra msg)
      | None \<Rightarrow>
          (case due_instants now st of
             [] \<Rightarrow> Inl (ErrInfra ''oldest due lag: no rows in result set'')
           | t # ts \<Rightarrow> Inr (f64 (rat_of_int (now - Min (set (t # ts))) / 1000000000))))"

definition purgeable :: "gotime \<Rightarrow> outbox_row \<Rightarrow> bool" where
  "purgeable before o' \<longleftrightarrow>
     (case o_PublishedAt o' of None \<Rightarrow> False | Some t \<Rightarrow> t < timestamptz before)"

definition PurgePublishedOutbox :: "fault \<Rightarrow> gotime \<Rightarrow> store \<Rightarrow> int result \<times> store" where
  "PurgePublishedOutbox flt before st =
     (case flt of
        Some msg \<Rightarrow> (Inl (ErrInfra msg), st)
      | None \<Rightarrow> (Inr (int (count_where (purgeable before) (outbox st))),
                 st\<lparr>outbox := filter (\<lambda>o'. \<not> purgeable before o') (outbox st)\<rparr>))"

section \<open>What the operations keep of the invariant\<close>

lemma store_inv_outbox:
  assumes "store_inv st" "distinct (map o_ID os)"
  shows "store_inv (st\<lparr>outbox := os\<rparr>)"
proof (rule store_invI)
  show "wf_store (st\<lparr>outbox := os\<rparr>)" using assms by (simp add: store_inv_def wf_store_def)
  show "counters_ok (st\<lparr>outbox := os\<rparr>)"
    using assms counters_ok_cong [of "st\<lparr>outbox := os\<rparr>" st] by (simp add: store_inv_def)
  show "status_ok (st\<lparr>outbox := os\<rparr>)"
    using assms status_ok_cong [of "st\<lparr>outbox := os\<rparr>" st] by (simp add: store_inv_def)
qed

lemma wf_outbox_ids: "store_inv st \<Longrightarrow> distinct (map o_ID (outbox st))"
  by (simp add: store_inv_def wf_store_def)

lemma MarkOutboxPublished_inv:
  assumes "store_inv st"
  shows "store_inv (snd (MarkOutboxPublished flt now ids st))"
proof -
  have "map o_ID (upd_where (\<lambda>o'. o_ID o' \<in> set ids) (\<lambda>o'. o'\<lparr>o_PublishedAt := Some now\<rparr>) (outbox st))
      = map o_ID (outbox st)"
    by (rule map_upd_where_same) simp
  with assms show ?thesis
    by (auto simp: MarkOutboxPublished_def store_inv_outbox wf_outbox_ids split: option.splits)
qed

lemma PurgePublishedOutbox_inv:
  assumes "store_inv st"
  shows "store_inv (snd (PurgePublishedOutbox flt before st))"
  using assms
  by (auto simp: PurgePublishedOutbox_def wf_outbox_ids distinct_map_filter
      intro!: store_inv_outbox split: option.splits)

text \<open>The rows a run of \<open>enqueueDueTx\<close> appends.\<close>

fun due_rows :: "gotime \<Rightarrow> (nat \<Rightarrow> uuid) \<Rightarrow> nat \<Rightarrow> dueRow list \<Rightarrow> outbox_row list" where
  "due_rows now ids k [] = []"
| "due_rows now ids k (d # ds) = outbox_row_of now (due_outbox (ids k) d) # due_rows now ids (Suc k) ds"

lemma enqueue_all_Inr:
  "enqueue_all now ids k ds st = Inr st' \<Longrightarrow> st' = st\<lparr>outbox := outbox st @ due_rows now ids k ds\<rparr>"
proof (induction ds arbitrary: k st)
  case (Cons d ds)
  then have ins: "insertOutbox now (due_outbox (ids k) d) st
      = Inr (st\<lparr>outbox := outbox st @ [outbox_row_of now (due_outbox (ids k) d)]\<rparr>)"
    and rest: "enqueue_all now ids (Suc k) ds
        (st\<lparr>outbox := outbox st @ [outbox_row_of now (due_outbox (ids k) d)]\<rparr>) = Inr st'"
    by (auto simp: enqueueDueTx_def insertOutbox_def split: sum.splits if_splits)
  from Cons.IH [OF rest] show ?case by simp
qed simp

lemma enqueue_all_distinct:
  "enqueue_all now ids k ds st = Inr st' \<Longrightarrow> distinct (map o_ID (outbox st)) \<Longrightarrow>
   distinct (map o_ID (outbox st'))"
proof (induction ds arbitrary: k st)
  case (Cons d ds)
  then obtain st1 where st1: "insertOutbox now (due_outbox (ids k) d) st = Inr st1"
    and rest: "enqueue_all now ids (Suc k) ds st1 = Inr st'"
    by (auto simp: enqueueDueTx_def split: sum.splits)
  have "distinct (map o_ID (outbox st1))"
    using st1 Cons.prems(2)
    by (auto simp: insertOutbox_def list_ex_key outbox_row_of_def split: if_splits)
  then show ?case using rest by (intro Cons.IH)
qed simp

text \<open>With fresh, distinct identifiers no insert of the run fails.\<close>

lemma enqueue_all_fresh:
  assumes "inj_on ids {k..<k + length ds}" "\<forall>j\<in>{k..<k + length ds}. ids j \<notin> o_ID ` set (outbox st)"
  shows "\<exists>st'. enqueue_all now ids k ds st = Inr st'"
  using assms
proof (induction ds arbitrary: k st)
  case (Cons d ds)
  let ?st = "st\<lparr>outbox := outbox st @ [outbox_row_of now (due_outbox (ids k) d)]\<rparr>"
  have ins: "enqueueDueTx now (ids k) d st = Inr ?st"
    using Cons.prems by (simp add: enqueueDueTx_def insertOutbox_def list_ex_key due_outbox_def)
  have "ids j \<noteq> ids k" if "j \<in> {Suc k..<Suc k + length ds}" for j
    using inj_on_eq_iff [OF Cons.prems(1), of j k] that by simp
  then have fresh: "\<forall>j\<in>{Suc k..<Suc k + length ds}. ids j \<notin> o_ID ` set (outbox ?st)"
    using Cons.prems(2) by (auto simp: outbox_row_of_def due_outbox_def)
  have "inj_on ids {Suc k..<Suc k + length ds}"
    by (rule inj_on_subset [OF Cons.prems(1)]) auto
  from Cons.IH [OF this fresh] ins show ?case by simp
qed simp

lemma enqueue_all_inv:
  assumes "store_inv st" "enqueue_all now ids k ds st = Inr st'"
  shows "store_inv st'"
proof -
  have st': "st' = st\<lparr>outbox := outbox st @ due_rows now ids k ds\<rparr>"
    using assms(2) by (rule enqueue_all_Inr)
  have "distinct (map o_ID (outbox st'))"
    using enqueue_all_distinct [OF assms(2)] wf_outbox_ids [OF assms(1)] by blast
  then show ?thesis using store_inv_outbox [OF assms(1)] by (simp add: st')
qed

text \<open>The rows a due query selects, and that it moves exactly those.\<close>

definition due_selection ::
  "DeliveryStatus \<Rightarrow> (Delivery \<Rightarrow> gotime option) \<Rightarrow> gotime \<Rightarrow> (Delivery \<Rightarrow> bool) \<Rightarrow> int \<Rightarrow> store \<Rightarrow> Delivery list" where
  "due_selection s due_at now locked limit st =
     take (nat limit) (sort_key (\<lambda>d. the (due_at d))
       (filter (\<lambda>d. is_due s due_at now d \<and> \<not> locked d) (deliveries st)))"

lemma due_selection_sub:
  "d \<in> set (due_selection s due_at now locked limit st) \<Longrightarrow>
   d \<in> set (deliveries st) \<and> is_due s due_at now d \<and> \<not> locked d"
  by (auto simp: due_selection_def dest!: in_set_takeD)

lemma due_query_eq:
  assumes "wf_store st"
  shows "due_query s due_at now locked limit st =
    (if limit < 0 then Inl (ErrInfra ''LIMIT must not be negative'')
     else let due = due_selection s due_at now locked limit st
          in Inr (map (to_pending now) due,
                  st\<lparr>deliveries := upd_where (\<lambda>d. d \<in> set due) (to_pending now) (deliveries st)\<rparr>))"
proof -
  let ?due = "due_selection s due_at now locked limit st"
  have "upd_where (\<lambda>d. d_key d \<in> d_key ` set ?due) (to_pending now) (deliveries st)
      = upd_where (\<lambda>d. d \<in> set ?due) (to_pending now) (deliveries st)"
    unfolding upd_where_def
  proof (rule map_cong [OF refl])
    fix d assume d: "d \<in> set (deliveries st)"
    have "d = d'" if "d' \<in> set ?due" "d_key d = d_key d'" for d'
    proof (rule distinct_key_unique [of d_key "deliveries st"])
      show "distinct (map d_key (deliveries st))" using assms by (simp add: wf_store_def)
      show "d' \<in> set (deliveries st)" using due_selection_sub [OF that(1)] by blast
    qed (fact d that)+
    then have "d_key d \<in> d_key ` set ?due \<longleftrightarrow> d \<in> set ?due" by blast
    then show "(if d_key d \<in> d_key ` set ?due then to_pending now d else d)
        = (if d \<in> set ?due then to_pending now d else d)" by simp
  qed
  then show ?thesis by (simp add: due_query_def sql_limit_def due_selection_def Let_def)
qed

lemma due_query_inv:
  assumes "store_inv st" "\<not> IsTerminal s" "due_query s due_at now locked limit st = Inr (rows, st')"
  shows "store_inv st'"
proof -
  let ?due = "due_selection s due_at now locked limit st"
  have st': "st' = st\<lparr>deliveries := upd_where (\<lambda>d. d \<in> set ?due) (to_pending now) (deliveries st)\<rparr>"
    using assms(3) due_query_eq [OF store_invD(1) [OF assms(1)]] by (auto simp: Let_def split: if_splits)
  show ?thesis unfolding st'
    by (rule store_inv_upd_nonterminal [OF assms(1)])
      (use assms(2) due_selection_sub in \<open>fastforce simp: to_pending_def d_key_def is_due_def\<close>)
qed

lemma transitionAndEnqueue_inv:
  assumes inv: "store_inv st"
    and query: "\<And>rows st'. query limit st = Inr (rows, st') \<Longrightarrow> store_inv st'"
  shows "store_inv (snd (transitionAndEnqueue flt now ids query limit st))"
  unfolding transitionAndEnqueue_def
proof (rule withTx_inv [where I = store_inv, OF inv])
  fix n st'
  assume "(case query limit st of Inl err \<Rightarrow> Inl err
    | Inr (rows, st1) \<Rightarrow> let due = scanDueRows rows in
        case enqueue_all now ids 0 due st1 of Inl err \<Rightarrow> Inl err | Inr st2 \<Rightarrow> Inr (int (length due), st2))
    = Inr (n, st')"
  then obtain rows st1 where "query limit st = Inr (rows, st1)"
    "enqueue_all now ids 0 (scanDueRows rows) st1 = Inr st'"
    by (auto simp: Let_def split: sum.splits)
  then show "store_inv st'" using query by (blast intro: enqueue_all_inv)
qed

lemma ReconcilePending_inv:
  assumes "store_inv st"
  shows "store_inv (snd (ReconcilePending flt now wall locked ids olderThan limit st))"
  unfolding ReconcilePending_def Let_def
  by (rule withTx_inv [where I = store_inv, OF assms])
    (auto split: sum.splits intro: enqueue_all_inv [OF assms])

lemma ReapStuck_inv:
  assumes "store_inv st"
  shows "store_inv (snd (ReapStuck flt now st))"
proof -
  have "store_inv (st\<lparr>deliveries := upd_where (stuck now)
      (\<lambda>d. d\<lparr>d_Status := DeliveryRetrying, d_NextRetryAt := Some now, d_LockedUntil := None, d_UpdatedAt := now\<rparr>)
      (deliveries st)\<rparr>)"
    by (rule store_inv_upd_nonterminal [OF assms]) (auto simp: stuck_def d_key_def)
  with assms show ?thesis by (simp add: ReapStuck_def split: option.splits)
qed

lemma store_inv_partitions: "store_inv (st\<lparr>partitions := ps\<rparr>) = store_inv st"
  using counters_ok_cong [of "st\<lparr>partitions := ps\<rparr>" st] status_ok_cong [of "st\<lparr>partitions := ps\<rparr>" st]
  by (simp add: store_inv_def wf_store_def)

lemma CreateDeliveryPartition_inv:
  "store_inv st \<Longrightarrow> store_inv (snd (CreateDeliveryPartition flt day st))"
  by (simp add: CreateDeliveryPartition_def store_inv_partitions split: option.splits)

text \<open>
  Dropping a partition keeps the invariant when no request has deliveries on both sides of the
  drop, which holds while every request has one delivery.
\<close>

definition single_delivery :: "store \<Rightarrow> bool" where
  "single_delivery st \<longleftrightarrow> distinct (map d_RequestID (deliveries st))"

lemma single_delivery_filter:
  assumes "single_delivery st" "filter p (filter (\<lambda>d. d_RequestID d = i) (deliveries st)) \<noteq> []"
  shows "filter p (filter (\<lambda>d. d_RequestID d = i) (deliveries st)) = filter (\<lambda>d. d_RequestID d = i) (deliveries st)"
proof -
  have u: "d = d'" if "d \<in> set (deliveries st)" "d' \<in> set (deliveries st)" "d_RequestID d = d_RequestID d'" for d d'
    using that assms(1) distinct_key_unique [of d_RequestID "deliveries st"] by (auto simp: single_delivery_def)
  obtain d where "d \<in> set (deliveries st)" "d_RequestID d = i" "p d"
    using assms(2) by (auto simp: filter_empty_conv)
  then show ?thesis using u by (intro filter_True) auto
qed

lemma ArchiveAndDropPartition_inv:
  assumes inv: "store_inv st" and one: "single_delivery st"
  shows "store_inv (snd (ArchiveAndDropPartition flt day st))"
proof -
  let ?ds = "filter (\<lambda>d. \<not> in_day (day_of day) d) (deliveries st)"
  let ?rows = "filter (\<lambda>d. in_day (day_of day) d \<and> IsTerminal (d_Status d)) (deliveries st)"
  let ?st = "st\<lparr>archived := archived st @ ?rows, deliveries := ?ds,
    partitions := removeAll (day_of day) (partitions st)\<rparr>"
  have ff: "filter (\<lambda>d. d_RequestID d = i) ?ds
      = filter (\<lambda>d. \<not> in_day (day_of day) d) (filter (\<lambda>d. d_RequestID d = i) (deliveries st))" for i
    by (simp add: conj_commute)
  have st: "delivery_statuses ?st i = map d_Status (filter (\<lambda>d. d_RequestID d = i) ?ds)" for i
    by (simp only: delivery_statuses_def) simp
  have same: "delivery_statuses ?st i = delivery_statuses st i" if "delivery_statuses ?st i \<noteq> []" for i
    using that single_delivery_filter [OF one, of "\<lambda>d. \<not> in_day (day_of day) d" i]
    unfolding st ff map_is_Nil_conv by (simp only: delivery_statuses_def not_False_eq_True)
  have "store_inv ?st"
  proof (rule store_invI)
    show "wf_store ?st" using inv by (auto simp: store_inv_def wf_store_def distinct_map_filter)
    show "counters_ok ?st" using inv counters_ok_cong [of ?st st] by (simp add: store_inv_def)
    show "status_ok ?st"
      unfolding status_ok_def request_status_ok_def
    proof (intro ballI impI)
      fix r assume r: "r \<in> set (requests ?st)" and ne: "delivery_statuses ?st (r_ID r) \<noteq> []"
      have "request_status_ok st r" using inv r by (simp add: store_inv_def status_ok_def)
      then show "r_Status r = AggregateRequestStatus (delivery_statuses ?st (r_ID r))"
        using ne unfolding same [OF ne] request_status_ok_def by blast
    qed
  qed
  with inv show ?thesis by (simp add: ArchiveAndDropPartition_def Let_def split: option.splits)
qed

end
