(* ===== verification/Store_List.thy ===== *)
theory Store_List
  imports Store_Create
begin

text \<open>
  Keyset pagination of the request list: \<open>ListRequests\<close> (request.go) and what a client obtains
  by following the cursors it returns.  \<open>reader\<close> queries see one snapshot of the tables.
\<close>

definition list_key :: "Request \<Rightarrow> gotime \<times> uuid" where
  "list_key r = (r_CreatedAt r, r_ID r)"

definition opt_holds :: "('a \<Rightarrow> bool) \<Rightarrow> 'a option \<Rightarrow> bool" where
  "opt_holds p x = (case x of None \<Rightarrow> True | Some v \<Rightarrow> p v)"

text \<open>The \<open>WHERE\<close> clause, one conjunct per \<open>add\<close>; the last one is the keyset condition.\<close>

definition list_where :: "ListFilter \<Rightarrow> Request \<Rightarrow> bool" where
  "list_where f r \<longleftrightarrow>
     r_UserID r = f_UserID f
   \<and> opt_holds (\<lambda>s. RequestStatus_string (r_Status r) = s) (f_Status f)
   \<and> opt_holds (\<lambda>c. r_Channel r = c) (f_Channel f)
   \<and> opt_holds (\<lambda>t. r_CreatedAt r \<ge> timestamptz t) (f_From f)
   \<and> opt_holds (\<lambda>t. r_CreatedAt r \<le> timestamptz t) (f_To f)
   \<and> (case (f_Cursor f, f_CursorAt f) of
        (Some c, Some t) \<Rightarrow> list_key r < (timestamptz t, c)
      | _ \<Rightarrow> True)"

definition scanRequestList :: "Request \<Rightarrow> Request" where
  "scanRequestList r = r\<lparr>r_RenderedContent := ''''\<rparr>"

definition ListRequests :: "fault \<Rightarrow> ListFilter \<Rightarrow> store \<Rightarrow> Page result" where
  "ListRequests flt f0 st =
     (let f = Normalize f0 in
      case flt of
        Some msg \<Rightarrow> Inl (ErrInfra msg)
      | None \<Rightarrow>
          (case sql_limit (f_Limit f + 1) (rev (sort_key list_key (filter (list_where f) (requests st)))) of
             Inl msg \<Rightarrow> Inl (ErrInfra msg)
           | Inr rows \<Rightarrow>
               (let items = map scanRequestList rows in
                if int (length items) > f_Limit f
                then (let lst = items ! nat (f_Limit f - 1)
                      in Inr \<lparr>pg_Items = take (nat (f_Limit f)) items, pg_NextCursor = Some (r_ID lst),
                              pg_NextAt = Some (r_CreatedAt lst)\<rparr>)
                else Inr \<lparr>pg_Items = items, pg_NextCursor = None, pg_NextAt = None\<rparr>)))"

text \<open>A client that asks for page after page, at most \<open>n\<close> of them.\<close>

fun follow :: "nat \<Rightarrow> ListFilter \<Rightarrow> store \<Rightarrow> Request list option" where
  "follow 0 f st = None"
| "follow (Suc n) f st =
     (case ListRequests None f st of
        Inl _ \<Rightarrow> None
      | Inr pg \<Rightarrow>
          (case (pg_NextCursor pg, pg_NextAt pg) of
             (Some c, Some t) \<Rightarrow>
               map_option (append (pg_Items pg)) (follow n (f\<lparr>f_Cursor := Some c, f_CursorAt := Some t\<rparr>) st)
           | _ \<Rightarrow> Some (pg_Items pg)))"

section \<open>Lemmas\<close>

definition matching :: "ListFilter \<Rightarrow> store \<Rightarrow> Request list" where
  "matching f st = rev (sort_key list_key (filter (list_where f) (requests st)))"

definition page_size :: "ListFilter \<Rightarrow> nat" where
  "page_size f = nat (f_Limit (Normalize f))"

lemma page_size_pos: "0 < page_size f"
  by (simp add: page_size_def Normalize_Limit)

lemma page_size_cursor [simp]: "page_size (f\<lparr>f_Cursor := c, f_CursorAt := t\<rparr>) = page_size f"
  by (simp add: page_size_def Normalize_Limit)

lemma list_where_Normalize [simp]: "list_where (Normalize f) = list_where f"
  by (simp add: list_where_def fun_eq_iff)

lemma matching_Normalize [simp]: "matching (Normalize f) st = matching f st"
  by (simp add: matching_def)

lemma page_size_int: "f_Limit (Normalize f) = int (page_size f)"
  by (simp add: page_size_def Normalize_Limit)

lemma ListRequests_eq:
  "ListRequests None f st = Inr
     (let rows = matching f st; n = page_size f in
      if n < length rows
      then \<lparr>pg_Items = map scanRequestList (take n rows), pg_NextCursor = Some (r_ID (rows ! (n - 1))),
            pg_NextAt = Some (r_CreatedAt (rows ! (n - 1)))\<rparr>
      else \<lparr>pg_Items = map scanRequestList rows, pg_NextCursor = None, pg_NextAt = None\<rparr>)"
proof -
  let ?n = "page_size f"
  have lim: "nat (int ?n + 1) = Suc ?n" "nat (int ?n - 1) = ?n - 1" by simp_all
  have idx: "map scanRequestList (take (Suc ?n) (matching f st)) ! (?n - 1) = scanRequestList (matching f st ! (?n - 1))"
    if "?n < length (matching f st)"
    using that page_size_pos [of f] by simp
  have fr: "r_ID (scanRequestList r) = r_ID r" "r_CreatedAt (scanRequestList r) = r_CreatedAt r" for r
    by (simp_all add: scanRequestList_def)
  show ?thesis
  proof (cases "?n < length (matching f st)")
    case True
    then show ?thesis
      using idx page_size_pos [of f]
      by (simp add: ListRequests_def Let_def sql_limit_def page_size_int lim fr take_map min_def
          flip: matching_def)
  next
    case False
    then show ?thesis
      by (simp add: ListRequests_def Let_def sql_limit_def page_size_int lim flip: matching_def)
  qed
qed

text \<open>In a table with distinct identifiers the matching rows are strictly descending.\<close>

lemma distinct_list_key:
  assumes "distinct (map r_ID rs)"
  shows "distinct (map list_key rs)"
proof -
  have "map r_ID rs = map snd (map list_key rs)" by (simp add: list_key_def)
  with assms show ?thesis by (metis distinct_map)
qed

lemma matching_desc:
  assumes "wf_store st"
  shows "sorted_wrt (\<lambda>a b. list_key b < list_key a) (matching f st)"
proof -
  let ?rs = "sort_key list_key (filter (list_where f) (requests st))"
  have "distinct (map list_key (requests st))"
    using assms by (intro distinct_list_key) (simp add: wf_store_def)
  then have "distinct (map list_key (filter (list_where f) (requests st)))"
    by (rule distinct_map_filter)
  moreover have "mset (map list_key ?rs) = mset (map list_key (filter (list_where f) (requests st)))"
    by simp
  ultimately have "distinct (map list_key ?rs)"
    by (metis mset_eq_imp_distinct_iff)
  then have "sorted_wrt (<) (map list_key ?rs)"
    by (simp add: strict_sorted_iff)
  then show ?thesis by (simp add: matching_def sorted_wrt_rev sorted_wrt_map)
qed

lemma desc_suffix:
  assumes "sorted_wrt (\<lambda>a b. k b < k a) (xs @ x # ys)"
  shows "filter (\<lambda>r. k r < (k x :: 'b :: linorder)) (xs @ x # ys) = ys"
proof -
  have "\<not> k a < k x" if "a \<in> set xs" for a using assms that by (auto simp: sorted_wrt_append)
  moreover have "k b < k x" if "b \<in> set ys" for b using assms that by (auto simp: sorted_wrt_append)
  ultimately show ?thesis by (simp add: filter_empty_conv filter_id_conv)
qed

lemma list_where_cursor:
  assumes "list_where f x" "timestamptz (r_CreatedAt x) = r_CreatedAt x"
  shows "list_where (f\<lparr>f_Cursor := Some (r_ID x), f_CursorAt := Some (r_CreatedAt x)\<rparr>) r
     \<longleftrightarrow> list_where f r \<and> list_key r < list_key x"
  using assms unfolding list_where_def
  by (auto simp: list_key_def split: option.splits)

lemma matching_cursor:
  assumes wf: "wf_store st" and rows: "matching f st = xs @ x # ys"
    and t: "timestamptz (r_CreatedAt x) = r_CreatedAt x"
  shows "matching (f\<lparr>f_Cursor := Some (r_ID x), f_CursorAt := Some (r_CreatedAt x)\<rparr>) st = ys"
proof -
  have "x \<in> set (matching f st)" by (simp add: rows)
  then have x: "list_where f x" by (simp add: matching_def)
  have "matching (f\<lparr>f_Cursor := Some (r_ID x), f_CursorAt := Some (r_CreatedAt x)\<rparr>) st
      = filter (\<lambda>r. list_key r < list_key x) (matching f st)"
    by (simp add: matching_def fun_eq_iff [THEN iffD2, OF allI, OF list_where_cursor [OF x t]]
        filter_sort flip: rev_filter)
  also have "\<dots> = ys"
    unfolding rows by (rule desc_suffix) (use matching_desc [OF wf, of f] rows in simp)
  finally show ?thesis .
qed

definition times_stored :: "store \<Rightarrow> bool" where
  "times_stored st \<longleftrightarrow> (\<forall>r\<in>set (requests st). timestamptz (r_CreatedAt r) = r_CreatedAt r)"

lemma follow_matching:
  assumes wf: "wf_store st" and ts: "times_stored st"
  shows "length (matching f st) < n \<Longrightarrow> follow n f st = Some (map scanRequestList (matching f st))"
proof (induction n arbitrary: f)
  case (Suc n)
  let ?k = "page_size f" and ?rows = "matching f st"
  show ?case
  proof (cases "?k < length ?rows")
    case False
    then show ?thesis by (simp add: ListRequests_eq Let_def)
  next
    case True
    let ?x = "?rows ! (?k - 1)"
    let ?f = "f\<lparr>f_Cursor := Some (r_ID ?x), f_CursorAt := Some (r_CreatedAt ?x)\<rparr>"
    have lt: "?k - 1 < length ?rows" using True by simp
    then have split: "?rows = take (?k - 1) ?rows @ ?x # drop ?k ?rows"
      using id_take_nth_drop [OF lt] page_size_pos [of f] by simp
    have "?x \<in> set ?rows" using lt by simp
    then have "?x \<in> set (requests st)" by (simp add: matching_def)
    then have "timestamptz (r_CreatedAt ?x) = r_CreatedAt ?x" using ts by (simp add: times_stored_def)
    then have rest: "matching ?f st = drop ?k ?rows" by (rule matching_cursor [OF wf split])
    have "length (matching ?f st) < n"
      unfolding rest using Suc.prems page_size_pos [of f] True by (simp add: less_Suc_eq_le)
    then have "follow n ?f st = Some (map scanRequestList (matching ?f st))" by (rule Suc.IH)
    then show ?thesis
      using True by (simp only: follow.simps ListRequests_eq Let_def rest) (simp flip: map_append)
  qed
qed simp

end
