(* ===== verification/Store_Props.thy ===== *)
theory Store_Props
  imports Store_Scheduler Store_List
begin

text \<open>
  What the repository operations promise their callers: creation, claiming, cancellation,
  batches, the due transitions, reconciliation, reaping, archival and pagination.
\<close>

section \<open>Creation\<close>

lemma CreateNotification_None:
  "CreateNotification None now req del ob st =
     (if \<not> new_request st req then (Inl ErrConflict, st)
      else if \<not> request_fk_ok st req then (Inl (ErrInfra ''insert request''), st)
      else case insert_delivery_and_outbox now del ob (add_request req st) of
             Inl err \<Rightarrow> (Inl err, st) | Inr st2 \<Rightarrow> (Inr (), st2))"
  by (auto simp: CreateNotification_def withTx_def insertRequest_eq new_request_def add_request_def
      list_ex_iff split: sum.splits)

lemma d_key_stored: "d_key (stored_delivery d) = (d_ID d, timestamptz (d_CreatedAt d))"
  by (simp add: d_key_def stored_delivery_def)

text \<open>
  C11. Creating a notification is atomic.  On an error nothing changes; on success the request
  and the delivery are read back as stored, the outbox holds the given row, and every other row of
  the three tables is as before.
\<close>

theorem CreateNotification_atomic:
  assumes "wf_store st" "CreateNotification flt now req del ob st = (res, st')"
  shows "(\<forall>err. res = Inl err \<longrightarrow> st' = st)
    \<and> (res = Inr () \<longrightarrow>
         GetRequestByID None (r_ID req) st' = Inr (stored_request req)
       \<and> GetDelivery None (d_ID del) (d_CreatedAt del) st' = Inr (stored_delivery del)
       \<and> requests st' = requests st @ [stored_request req]
       \<and> deliveries st' = deliveries st @ [stored_delivery del]
       \<and> outbox st' = outbox st @ (case ob of None \<Rightarrow> [] | Some o' \<Rightarrow> [outbox_row_of now o']))"
proof (cases flt)
  case (Some msg)
  with assms(2) show ?thesis by (auto simp: CreateNotification_def withTx_def)
next
  case None
  show ?thesis
  proof (cases res)
    case (Inl err)
    with assms(2) None show ?thesis by (auto simp: CreateNotification_None split: if_splits sum.splits)
  next
    case (Inr u)
    then have new: "new_request st req" and ins: "insert_delivery_and_outbox now del ob (add_request req st) = Inr st'"
      using assms(2) None by (auto simp: CreateNotification_None split: if_splits sum.splits)
    have st': "st' = add_outbox now ob (add_delivery del (add_request req st))"
      and k: "d_key (stored_delivery del) \<notin> d_key ` set (deliveries st)"
      using ins by (simp_all add: insert_delivery_and_outbox_Inr)
    have "find_row (\<lambda>r. r_ID r = r_ID req) (requests st) = None"
      using new by (auto simp: find_row_None new_request_def)
    moreover have "find_row (at_key (d_ID del) (d_CreatedAt del)) (deliveries st) = None"
      using k by (auto simp: find_row_None at_key_eq d_key_stored intro: rev_image_eqI)
    ultimately show ?thesis
      using Inr
      by (simp add: st' GetRequestByID_def GetDelivery_eq scanRequest_def find_row_snoc
          at_key_def stored_delivery_def stored_request_def)
  qed
qed

text \<open>
  Per-user idempotency: a second creation under a key the user has used before is refused
  as a conflict, and the row found by that key is the first one.
\<close>

theorem CreateNotification_idempotent:
  assumes wf: "wf_store st" and key: "r_IdempotencyKey req = Some key"
    and ok: "CreateNotification flt now req del ob st = (Inr (), st')"
    and again: "r_UserID req' = r_UserID req" "r_IdempotencyKey req' = Some key"
  shows "CreateNotification None now' req' del' ob' st' = (Inl ErrConflict, st')
    \<and> GetRequestByIdempotencyKey None (r_UserID req) key st' = Inr (stored_request req)"
proof -
  have flt: "flt = None" using ok by (cases flt) (simp_all add: CreateNotification_def withTx_def)
  have new: "new_request st req" and ins: "insert_delivery_and_outbox now del ob (add_request req st) = Inr st'"
    using ok by (auto simp: flt CreateNotification_None split: if_splits sum.splits)
  have rs: "requests st' = requests st @ [stored_request req]"
    using ins by (simp add: insert_delivery_and_outbox_Inr)
  have "\<not> new_request st' req'"
    using again key by (auto simp: new_request_def rs same_idempotency_key_def stored_request_def)
  moreover have "find_row (\<lambda>r. r_UserID r = r_UserID req \<and> r_IdempotencyKey r = Some key) (requests st) = None"
    using new key by (auto simp: find_row_None new_request_def same_idempotency_key_def)
  ultimately show ?thesis
    using key
    by (simp add: CreateNotification_None GetRequestByIdempotencyKey_def scanRequest_def rs
        find_row_snoc stored_request_def)
qed

section \<open>Claiming\<close>

text \<open>
  C6. A claim is exclusive: it succeeds only on a pending or retrying delivery, the row it
  returns is the stored row, in processing under the given lease, and until the row leaves that
  state every other claim of the same delivery finds nothing and changes nothing.
\<close>

theorem ClaimDelivery_exclusive:
  assumes wf: "wf_store st" and claim: "ClaimDelivery flt now i t lease st = (Inr (Some d), st')"
  shows "(\<exists>d0\<in>set (deliveries st). at_key i t d0 \<and> claimable (d_Status d0) \<and> d = claimed_row now lease d0)
    \<and> GetDelivery None i t st' = Inr d \<and> d_Status d = DeliveryProcessing
    \<and> d_LockedUntil d = Some (timestamptz lease)
    \<and> ClaimDelivery None now' i t lease' st' = (Inr None, st')"
proof -
  let ?p = "\<lambda>d. at_key i t d \<and> claimable (d_Status d)"
  obtain d0 where d0: "find_row ?p (deliveries st) = Some d0" and d: "d = claimed_row now lease d0"
    and st': "st' = st\<lparr>deliveries := upd_where ?p (claimed_row now lease) (deliveries st)\<rparr>"
    using claim by (auto simp: ClaimDelivery_eq Let_def split: option.splits)
  have d0': "d0 \<in> set (deliveries st)" "at_key i t d0" "claimable (d_Status d0)"
    using find_row_Some [OF d0] by auto
  have key: "d_key d = (i, timestamptz t)" "d_Status d = DeliveryProcessing"
    using d0'(2) by (simp_all add: d claimed_row_def at_key_eq d_key_def)
  have wf': "distinct (map d_key (deliveries st'))"
    unfolding st' using wf
    by (simp add: wf_store_def map_upd_where_same claimed_row_def d_key_def)
  have mem: "d \<in> set (deliveries st')" using d0' by (auto simp: st' d set_upd_where)
  have get: "find_row (at_key i t) (deliveries st') = Some d"
    using find_row_key [OF wf' mem] key(1) by (simp add: at_key_eq [abs_def])
  have no: "find_row ?p (deliveries st') = None"
  proof (clarsimp simp: find_row_None)
    fix x assume x: "x \<in> set (deliveries st')" "at_key i t x" "claimable (d_Status x)"
    then have "x = d" using key(1) distinct_key_unique [OF wf' x(1) mem] by (simp add: at_key_eq)
    with x(3) key(2) show False by (simp add: claimable_def)
  qed
  show ?thesis
    using d0' d get key no by (auto simp: GetDelivery_eq ClaimDelivery_eq claimed_row_def)
qed

section \<open>Cancellation\<close>

lemma recompute_total:
  assumes "distinct (map r_ID (requests st))" "i \<in> r_ID ` set (requests st)"
  obtains st' where "recomputeRequestStatusTx i st = Inr st'"
    "requests st' = set_request_status i (AggregateRequestStatus (delivery_statuses st i)) (requests st)"
proof -
  obtain r where r: "r \<in> set (requests st)" "r_ID r = i" using assms(2) by auto
  have find: "find_row (\<lambda>x. r_ID x = i) (requests st) = Some r"
    using find_row_key [OF assms(1) r(1)] r(2) by simp
  have same: "set_request_status i (r_Status r) (requests st) = requests st"
    unfolding set_request_status_def upd_where_def
    by (rule map_idI) (use assms(1) r distinct_key_unique [of r_ID "requests st" _ r] in auto)
  have "\<exists>st'. recomputeRequestStatusTx i st = Inr st'
    \<and> requests st' = set_request_status i (AggregateRequestStatus (delivery_statuses st i)) (requests st)"
  proof (cases "AggregateRequestStatus (delivery_statuses st i) = r_Status r")
    case True
    then show ?thesis by (simp add: recomputeRequestStatusTx_def find same)
  next
    case False
    then show ?thesis
      by (simp add: recomputeRequestStatusTx_def find adjustBatchCountersTx_def Let_def set_request_status_def
          split: option.split)
  qed
  then show ?thesis using that by blast
qed


section \<open>Batches\<close>

text \<open>What the item loop appends, and that it counts what it appends.\<close>

definition item_stored :: "store \<Rightarrow> Request \<Rightarrow> bool" where
  "item_stored st r \<longleftrightarrow>
     (if r_IdempotencyKey r = None then stored_request r \<in> set (requests st)
      else list_ex (same_idempotency_key r) (requests st))"

lemma item_stored_grows: "item_stored st r \<Longrightarrow> requests st' = requests st @ rs \<Longrightarrow> item_stored st' r"
  by (auto simp: item_stored_def split: if_splits)

lemma insertRequestOnConflict_cases:
  assumes "insertRequestOnConflict r st = Inr (ins, st1)"
  shows "item_stored st1 r" "\<not> ins \<Longrightarrow> st1 = st" "ins \<Longrightarrow> requests st1 = requests st @ [stored_request r]"
    "batches st1 = batches st"
  using assms
  by (auto simp: insertRequestOnConflict_def item_stored_def same_idempotency_key_def stored_request_def
      list_ex_iff split: if_splits)

lemma insert_delivery_and_outbox_frame:
  assumes "insert_delivery_and_outbox now d ob st = Inr st'"
  shows "requests st' = requests st" "batches st' = batches st"
  using assms by (simp_all add: insert_delivery_and_outbox_Inr)

lemma insert_items_appends:
  assumes "insert_items now items c st = Inr (c', st')"
  shows "batches st' = batches st
    \<and> (\<exists>rs. requests st' = requests st @ rs \<and> c' = c + int (length rs) \<and> length rs \<le> length items)
    \<and> (\<forall>it\<in>set items. item_stored st' (bi_Request it))"
  using assms
proof (induction items arbitrary: c st)
  case (Cons it items)
  obtain ins st1 where one: "insertRequestOnConflict (bi_Request it) st = Inr (ins, st1)"
    using Cons.prems by (auto split: sum.splits)
  note c1 = insertRequestOnConflict_cases [OF one]
  show ?case
  proof (cases ins)
    case False
    then have run: "insert_items now items c st = Inr (c', st')" using Cons.prems one c1(2) by simp
    then show ?thesis
      using Cons.IH [OF run] c1 False item_stored_grows by (auto intro: le_SucI)
  next
    case True
    then obtain st2 where two: "insert_delivery_and_outbox now (bi_Delivery it) (bi_Outbox it) st1 = Inr st2"
      and run: "insert_items now items (c + 1) st2 = Inr (c', st')"
      using Cons.prems one by (auto split: sum.splits)
    note fr = insert_delivery_and_outbox_frame [OF two]
    obtain rs where rs: "requests st' = requests st2 @ rs" "c' = c + 1 + int (length rs)" "length rs \<le> length items"
      and b: "batches st' = batches st2" and its: "\<forall>it\<in>set items. item_stored st' (bi_Request it)"
      using Cons.IH [OF run] by auto
    have "requests st' = requests st @ (stored_request (bi_Request it) # rs)" using rs fr c1(3) True by simp
    moreover have "item_stored st' (bi_Request it)" using c1(1) rs(1) fr by (auto intro: item_stored_grows)
    ultimately show ?thesis using rs b its fr c1(4) by auto
  qed
qed auto


section \<open>Due transitions\<close>

lemma take_sorted_le:
  fixes k :: "'a \<Rightarrow> 'b :: linorder"
  assumes "x \<in> set (take n (sort_key k xs))" "y \<in> set xs" "y \<notin> set (take n (sort_key k xs))"
  shows "k x \<le> k y"
proof -
  have "y \<in> set (take n (sort_key k xs) @ drop n (sort_key k xs))"
    unfolding append_take_drop_id using assms(2) by simp
  then have y: "y \<in> set (drop n (sort_key k xs))" using assms(3) unfolding set_append by blast
  have "sorted (map k (take n (sort_key k xs) @ drop n (sort_key k xs)))"
    unfolding append_take_drop_id by simp
  then show ?thesis unfolding map_append sorted_append using assms(1) y by auto
qed

lemma length_filter_mem:
  assumes "distinct xs" "distinct ys" "set ys \<subseteq> set xs"
  shows "length (filter (\<lambda>x. x \<in> set ys) xs) = length ys"
proof -
  have "set (filter (\<lambda>x. x \<in> set ys) xs) = set ys" using assms(3) by auto
  then show ?thesis using assms(1,2) by (metis distinct_card distinct_filter)
qed

lemma due_rows_simps:
  "map o_DeliveryID (due_rows now ids k ds) = map due_id ds"
  "map o_DeliveryCreatedAt (due_rows now ids k ds) = map (timestamptz \<circ> due_createdAt) ds"
  "length (due_rows now ids k ds) = length ds"
  by (induction ds arbitrary: k) (simp_all add: outbox_row_of_def due_outbox_def)

text \<open>The outbox row that asks for the delivery of \<open>d\<close>.\<close>

definition enqueues :: "outbox_row \<Rightarrow> Delivery \<Rightarrow> bool" where
  "enqueues o' d \<longleftrightarrow> unpublished o' \<and> o_DeliveryID o' = d_ID d
     \<and> o_DeliveryCreatedAt o' = timestamptz (d_CreatedAt d)
     \<and> o_Stream o' = Stream (d_Priority d) (d_Channel d)
     \<and> m_DeliveryID (o_Payload o') = d_ID d
     \<and> timestamptz (m_DeliveryCreatedAt (o_Payload o')) = timestamptz (d_CreatedAt d)
     \<and> m_RequestID (o_Payload o') = d_RequestID d"

lemma due_rows_enqueue:
  "list_all2 enqueues (due_rows now ids k (scanDueRows ds)) ds"
  by (induction ds arbitrary: k)
    (simp_all add: scanDueRows_def due_of_def due_outbox_def outbox_row_of_def enqueues_def unpublished_def)

lemma enqueues_to_pending [simp]: "enqueues o' (to_pending now d) = enqueues o' d"
  by (simp add: enqueues_def to_pending_def)

text \<open>
  The two scheduler transitions share one contract: they run \<open>transitionAndEnqueue\<close> on the rows
  in status \<open>s\<close> whose instant \<open>due_at\<close> has come.
\<close>

locale due_transition =
  fixes run :: "fault \<Rightarrow> gotime \<Rightarrow> (Delivery \<Rightarrow> bool) \<Rightarrow> (nat \<Rightarrow> uuid) \<Rightarrow> int \<Rightarrow> store \<Rightarrow> int result \<times> store"
    and s :: DeliveryStatus and due_at :: "Delivery \<Rightarrow> gotime option"
  assumes run_eq: "run flt now locked ids limit =
      transitionAndEnqueue flt now ids (due_query s due_at now locked) limit"
    and live: "\<not> IsTerminal s"
begin

lemma keeps_inv: "store_inv st \<Longrightarrow> store_inv (snd (run flt now locked ids limit st))"
  unfolding run_eq by (rule transitionAndEnqueue_inv) (simp_all add: due_query_inv [OF _ live])

lemma commits:
  fixes now :: gotime and locked :: "Delivery \<Rightarrow> bool"
  assumes wf: "wf_store st" and lim: "0 \<le> limit"
    and ids: "inj_on ids {..<nat limit}" "\<forall>j<nat limit. ids j \<notin> o_ID ` set (outbox st)"
  defines "due \<equiv> due_selection s due_at now locked limit st"
  shows "run None now locked ids limit st =
    (Inr (int (length due)),
     st\<lparr>deliveries := upd_where (\<lambda>d. d \<in> set due) (to_pending now) (deliveries st),
        outbox := outbox st @ due_rows now ids 0 (scanDueRows (map (to_pending now) due))\<rparr>)"
proof -
  let ?st1 = "st\<lparr>deliveries := upd_where (\<lambda>d. d \<in> set due) (to_pending now) (deliveries st)\<rparr>"
  let ?ds = "scanDueRows (map (to_pending now) due)"
  have len: "length ?ds \<le> nat limit" by (simp add: due_def due_selection_def scanDueRows_def)
  have "inj_on ids {0..<0 + length ?ds}" by (rule inj_on_subset [OF ids(1)]) (use len in auto)
  then obtain st2 where st2: "enqueue_all now ids 0 ?ds ?st1 = Inr st2"
    using enqueue_all_fresh [of ids 0 ?ds ?st1 now] ids(2) len by auto
  have "due_query s due_at now locked limit st = Inr (map (to_pending now) due, ?st1)"
    using due_query_eq [OF wf] lim by (simp add: due_def Let_def)
  then show ?thesis
    using st2 enqueue_all_Inr [OF st2]
    by (simp add: run_eq transitionAndEnqueue_def withTx_def Let_def scanDueRows_def)
qed

lemma success:
  assumes wf: "wf_store st" and run: "run flt now locked ids limit st = (Inr n, st')"
  shows "0 \<le> limit" "n = int (length (due_selection s due_at now locked limit st))"
    "deliveries st' = upd_where (\<lambda>d. d \<in> set (due_selection s due_at now locked limit st)) (to_pending now) (deliveries st)"
proof -
  let ?due = "due_selection s due_at now locked limit st"
  have q: "due_query s due_at now locked limit st =
      (if limit < 0 then Inl (ErrInfra ''LIMIT must not be negative'')
       else Inr (map (to_pending now) ?due,
              st\<lparr>deliveries := upd_where (\<lambda>d. d \<in> set ?due) (to_pending now) (deliveries st)\<rparr>))"
    using due_query_eq [OF wf] by (simp add: Let_def)
  show lim: "0 \<le> limit"
    using run q by (auto simp: run_eq transitionAndEnqueue_def withTx_def split: option.splits if_splits)
  obtain st2 where st2: "enqueue_all now ids 0 (scanDueRows (map (to_pending now) ?due))
      (st\<lparr>deliveries := upd_where (\<lambda>d. d \<in> set ?due) (to_pending now) (deliveries st)\<rparr>) = Inr st2"
    "n = int (length (scanDueRows (map (to_pending now) ?due)))" "st' = st2"
    using run q lim by (auto simp: run_eq transitionAndEnqueue_def withTx_def Let_def split: option.splits sum.splits)
  show "n = int (length ?due)" using st2(2) by (simp add: scanDueRows_def)
  show "deliveries st' = upd_where (\<lambda>d. d \<in> set ?due) (to_pending now) (deliveries st)"
    using enqueue_all_Inr [OF st2(1)] st2(3) by simp
qed

lemma progress:
  assumes wf: "wf_store st" and run: "run flt now locked ids limit st = (Inr n, st')" and s: "s \<noteq> DeliveryPending"
  shows "int (count_where (\<lambda>d. d_Status d = s) (deliveries st')) + n = int (count_where (\<lambda>d. d_Status d = s) (deliveries st))"
proof -
  let ?due = "due_selection s due_at now locked limit st"
  note ok = success [OF wf run]
  have dist: "distinct (deliveries st)" using wf by (auto simp: wf_store_def distinct_map)
  then have "distinct ?due" by (simp add: due_selection_def distinct_take)
  moreover have sub: "set ?due \<subseteq> set (deliveries st)" and st: "\<forall>d\<in>set ?due. d_Status d = s"
    using due_selection_sub [of _ s due_at now locked limit st] by (auto simp: is_due_def)
  ultimately have len: "length (filter (\<lambda>d. d \<in> set ?due) (deliveries st)) = length ?due"
    by (intro length_filter_mem [OF dist])
  have "count_where (\<lambda>d. d_Status d = s) (upd_where (\<lambda>d. d \<in> A) (to_pending now) ds)
      + length (filter (\<lambda>d. d \<in> A) ds) = count_where (\<lambda>d. d_Status d = s) ds"
    if "\<forall>d\<in>A. d_Status d = s" for A ds
    using that s by (induction ds) (auto simp: to_pending_def)
  from this [OF st, of "deliveries st"] show ?thesis unfolding ok len by simp
qed

lemma drained:
  assumes wf: "wf_store st" and run: "run flt now locked ids limit st = (Inr n, st')" and s: "s \<noteq> DeliveryPending"
    and short: "n < limit" and d: "d \<in> set (deliveries st')" "is_due s due_at now d"
  shows "locked d"
proof (rule ccontr)
  assume nl: "\<not> locked d"
  let ?c = "filter (\<lambda>d. is_due s due_at now d \<and> \<not> locked d) (deliveries st)"
  note ok = success [OF wf run]
  have "length (due_selection s due_at now locked limit st) < nat limit" using short ok(1,2) by simp
  then have all: "set (due_selection s due_at now locked limit st) = set ?c"
    by (simp add: due_selection_def)
  from d(1) show False unfolding ok(3) all
  proof (rule in_upd_whereE)
    assume "d \<in> set (deliveries st)" "d \<notin> set ?c"
    then show False using d(2) nl by simp
  next
    fix d0 assume "d = to_pending now d0"
    then show False using d(2) s by (simp add: is_due_def to_pending_def)
  qed
qed

lemma moves_due_rows:
  assumes wf: "wf_store st" and lim: "0 \<le> limit"
    and ids: "inj_on ids {..<nat limit}" "\<forall>j<nat limit. ids j \<notin> o_ID ` set (outbox st)"
  shows "\<exists>due st' new. run None now locked ids limit st = (Inr (int (length due)), st')
    \<and> int (length due) = min limit (int (count_where (\<lambda>d. is_due s due_at now d \<and> \<not> locked d) (deliveries st)))
    \<and> (\<forall>d\<in>set due. d \<in> set (deliveries st) \<and> is_due s due_at now d \<and> \<not> locked d)
    \<and> (\<forall>d\<in>set due. \<forall>x\<in>set (deliveries st). is_due s due_at now x \<and> \<not> locked x \<and> x \<notin> set due
          \<longrightarrow> the (due_at d) \<le> the (due_at x))
    \<and> deliveries st' = upd_where (\<lambda>d. d \<in> set due) (to_pending now) (deliveries st)
    \<and> outbox st' = outbox st @ new \<and> list_all2 enqueues new due"
proof -
  let ?c = "filter (\<lambda>d. is_due s due_at now d \<and> \<not> locked d) (deliveries st)"
  let ?due = "due_selection s due_at now locked limit st"
  let ?new = "due_rows now ids 0 (scanDueRows (map (to_pending now) ?due))"
  have len: "int (length ?due) = min limit (int (length ?c))" using lim by (auto simp: due_selection_def)
  have old: "the (due_at d) \<le> the (due_at x)"
    if "d \<in> set ?due" "x \<in> set ?c" "x \<notin> set ?due" for d x
    using take_sorted_le [of d _ "\<lambda>d. the (due_at d)" ?c x] that unfolding due_selection_def by blast
  have enq: "list_all2 enqueues ?new ?due"
    using due_rows_enqueue [of now ids 0 "map (to_pending now) ?due"] by (simp add: list_all2_map2)
  show ?thesis
    using commits [OF assms, of now locked] len old enq due_selection_sub [of _ s due_at now locked limit st]
    by (intro exI [of _ ?due] exI [of _ ?new] exI conjI) (auto simp: count_where_def)
qed

end

interpretation promote: due_transition PromoteDue DeliveryScheduled d_SendAt
  by unfold_locales (simp_all add: PromoteDue_def)

interpretation sweep: due_transition SweepRetries DeliveryRetrying d_NextRetryAt
  by unfold_locales (simp_all add: SweepRetries_def)

text \<open>
  C31. One promotion takes the oldest due scheduled deliveries that no other transaction holds,
  as many as the limit allows, makes exactly those pending, and appends for each of them one
  unpublished outbox row carrying its message on the stream of its priority and channel.
\<close>

theorem PromoteDue_correct:
  assumes "wf_store st" "0 \<le> limit" "inj_on ids {..<nat limit}" "\<forall>j<nat limit. ids j \<notin> o_ID ` set (outbox st)"
  shows "\<exists>due st' new. PromoteDue None now locked ids limit st = (Inr (int (length due)), st')
    \<and> int (length due) =
        min limit (int (count_where (\<lambda>d. is_due DeliveryScheduled d_SendAt now d \<and> \<not> locked d) (deliveries st)))
    \<and> (\<forall>d\<in>set due. d \<in> set (deliveries st) \<and> is_due DeliveryScheduled d_SendAt now d \<and> \<not> locked d)
    \<and> (\<forall>d\<in>set due. \<forall>x\<in>set (deliveries st).
          is_due DeliveryScheduled d_SendAt now x \<and> \<not> locked x \<and> x \<notin> set due
          \<longrightarrow> the (d_SendAt d) \<le> the (d_SendAt x))
    \<and> deliveries st' = upd_where (\<lambda>d. d \<in> set due) (to_pending now) (deliveries st)
    \<and> outbox st' = outbox st @ new \<and> list_all2 enqueues new due"
  by (rule promote.moves_due_rows [OF assms])

text \<open>
  The retry sweep does the same for the retrying deliveries whose retry instant has come.
\<close>

theorem SweepRetries_correct:
  assumes "wf_store st" "0 \<le> limit" "inj_on ids {..<nat limit}" "\<forall>j<nat limit. ids j \<notin> o_ID ` set (outbox st)"
  shows "\<exists>due st' new. SweepRetries None now locked ids limit st = (Inr (int (length due)), st')
    \<and> int (length due) =
        min limit (int (count_where (\<lambda>d. is_due DeliveryRetrying d_NextRetryAt now d \<and> \<not> locked d) (deliveries st)))
    \<and> (\<forall>d\<in>set due. d \<in> set (deliveries st) \<and> is_due DeliveryRetrying d_NextRetryAt now d \<and> \<not> locked d)
    \<and> (\<forall>d\<in>set due. \<forall>x\<in>set (deliveries st).
          is_due DeliveryRetrying d_NextRetryAt now x \<and> \<not> locked x \<and> x \<notin> set due
          \<longrightarrow> the (d_NextRetryAt d) \<le> the (d_NextRetryAt x))
    \<and> deliveries st' = upd_where (\<lambda>d. d \<in> set due) (to_pending now) (deliveries st)
    \<and> outbox st' = outbox st @ new \<and> list_all2 enqueues new due"
  by (rule sweep.moves_due_rows [OF assms])

section \<open>Reconciliation and reaping\<close>

lemma due_rows_mem:
  "d \<in> set ds \<Longrightarrow> \<exists>o'\<in>set (due_rows now ids k (scanDueRows ds)). enqueues o' d"
  using due_rows_enqueue [of now ids k ds] by (metis in_set_conv_nth list_all2_conv_all_nth)

text \<open>
  C32. Reconciliation heals: it changes no delivery and no existing outbox row, and when it
  finds fewer orphans than its limit, afterwards every idle pending delivery that no other
  transaction holds has an unpublished outbox row again.
\<close>

theorem ReconcilePending_heals:
  assumes "ReconcilePending flt now wall locked ids olderThan limit st = (Inr n, st')"
  shows "deliveries st' = deliveries st \<and> (\<exists>new. outbox st' = outbox st @ new \<and> int (length new) = n)
    \<and> (n < limit \<longrightarrow> (\<forall>d\<in>set (deliveries st'). \<not> locked d \<longrightarrow> \<not> orphan_pending st' (wall - olderThan) d))"
proof -
  let ?c = "sort_key d_UpdatedAt (filter (\<lambda>d. orphan_pending st (wall - olderThan) d \<and> \<not> locked d) (deliveries st))"
  have run: "flt = None" "0 \<le> limit" "enqueue_all now ids 0 (scanDueRows (take (nat limit) ?c)) st = Inr st'"
    "n = int (length (take (nat limit) ?c))"
    using assms
    by (auto simp: ReconcilePending_def withTx_def sql_limit_def Let_def scanDueRows_def
        split: option.splits sum.splits if_splits)
  have st': "st' = st\<lparr>outbox := outbox st @ due_rows now ids 0 (scanDueRows (take (nat limit) ?c))\<rparr>"
    using run(3) by (rule enqueue_all_Inr)
  have "\<not> orphan_pending st' (wall - olderThan) d"
    if lt: "n < limit" and d: "d \<in> set (deliveries st')" "\<not> locked d" for d
  proof (cases "orphan_pending st (wall - olderThan) d")
    case True
    have "take (nat limit) ?c = ?c" using lt run(4) by simp
    moreover have "d \<in> set ?c" using True d by (simp add: st')
    ultimately obtain o' where "o' \<in> set (outbox st')" "enqueues o' d"
      using due_rows_mem [of d ?c now ids 0] by (auto simp: st')
    then show ?thesis by (auto simp: orphan_pending_def list_ex_iff enqueues_def)
  next
    case False
    then show ?thesis by (auto simp: orphan_pending_def st')
  qed
  then show ?thesis using run(4) by (auto simp: st' due_rows_simps scanDueRows_def)
qed

text \<open>
  Reaping returns exactly the deliveries whose lease ran out to the retry queue, due at
  once and with their attempt count untouched, so none is left stuck; deliveries under a live lease
  and finished ones do not change.
\<close>

theorem ReapStuck_correct:
  assumes "ReapStuck flt now st = (Inr n, st')"
  shows "n = int (count_where (stuck now) (deliveries st)) \<and> count_where (stuck now) (deliveries st') = 0
    \<and> list_all2 (\<lambda>d d'. d_key d' = d_key d \<and> d_AttemptCount d' = d_AttemptCount d
         \<and> (if stuck now d then is_due DeliveryRetrying d_NextRetryAt now d' \<and> d_LockedUntil d' = None
            else d' = d)) (deliveries st) (deliveries st')"
proof -
  let ?f = "\<lambda>d. d\<lparr>d_Status := DeliveryRetrying, d_NextRetryAt := Some now, d_LockedUntil := None, d_UpdatedAt := now\<rparr>"
  have run: "n = int (count_where (stuck now) (deliveries st))" "deliveries st' = upd_where (stuck now) ?f (deliveries st)"
    using assms by (auto simp: ReapStuck_def split: option.splits)
  have "count_where (stuck now) (upd_where (stuck now) ?f ds) = 0" for ds
    by (induction ds) (auto simp: stuck_def)
  moreover have "list_all2 (\<lambda>d d'. d_key d' = d_key d \<and> d_AttemptCount d' = d_AttemptCount d
         \<and> (if stuck now d then is_due DeliveryRetrying d_NextRetryAt now d' \<and> d_LockedUntil d' = None
            else d' = d)) ds (upd_where (stuck now) ?f ds)" for ds
    by (induction ds) (auto simp: is_due_def d_key_def)
  ultimately show ?thesis by (simp add: run)
qed

section \<open>Archival and pagination\<close>

text \<open>
  C36. Archiving and dropping a day loses no finished delivery, and it loses every
  delivery of the day that is not finished: the drop removes it and the archive does not have it.
\<close>

theorem ArchiveAndDropPartition_effect:
  assumes "ArchiveAndDropPartition flt day st = (Inr (), st')" "day_of day \<in> set (partitions st)"
    "d \<in> set (deliveries st)"
  shows "if \<not> in_day (day_of day) d then d \<in> set (deliveries st')
    else d \<notin> set (deliveries st')
       \<and> (IsTerminal (d_Status d) \<longrightarrow> d \<in> set (archived st'))
       \<and> (\<not> IsTerminal (d_Status d) \<longrightarrow> d \<notin> set (archived st) \<longrightarrow> d \<notin> set (archived st'))"
  using assms by (auto simp: ArchiveAndDropPartition_def Let_def split: option.splits if_splits)

text \<open>
  C25. Following the cursors of the request list from the first page returns, after at most
  one call per matching row and one more, every row that matches the filter exactly once, newest
  first, with the content left out.
\<close>

theorem ListRequests_pagination:
  assumes "wf_store st" "times_stored st"
  shows "follow (Suc (count_where (list_where f) (requests st))) f st
    = Some (map scanRequestList (rev (sort_key list_key (filter (list_where f) (requests st)))))"
  using follow_matching [OF assms, of f "Suc (count_where (list_where f) (requests st))"]
  by (simp add: matching_def count_where_def del: follow.simps)

section \<open>Concrete runs\<close>

definition sample_request :: Request where
  "sample_request = \<lparr>r_ID = 1, r_UserID = ''alice'', r_BatchID = None, r_Recipient = ''+90'',
     r_Channel = ChannelSMS, r_Priority = PriorityHigh, r_TemplateID = None, r_RenderedContent = ''hi'',
     r_IdempotencyKey = Some ''k1'', r_Status = RequestPending, r_CreatedAt = 5000\<rparr>"

definition sample_delivery :: Delivery where
  "sample_delivery = \<lparr>d_ID = 2, d_RequestID = 1, d_Channel = ChannelSMS, d_Priority = PriorityHigh,
     d_Status = DeliveryPending, d_AttemptCount = 0, d_ProviderMessageID = None, d_LastError = None,
     d_NextRetryAt = None, d_LockedUntil = None, d_SendAt = None, d_CreatedAt = 5000, d_UpdatedAt = 5000\<rparr>"

definition sample_batch :: Batch where
  "sample_batch = \<lparr>b_ID = 7, b_UserID = ''alice'', b_IdempotencyKey = None, b_TotalCount = 0,
     b_PendingCount = 0, b_SentCount = 0, b_FailedCount = 0, b_CancelledCount = 0, b_CreatedAt = 5000\<rparr>"

definition sample_item :: BatchItem where
  "sample_item = \<lparr>bi_Request = sample_request\<lparr>r_BatchID := Some 7\<rparr>, bi_Delivery = sample_delivery, bi_Outbox = None\<rparr>"

definition store_with :: "Delivery list \<Rightarrow> store" where
  "store_with ds = empty_store\<lparr>requests := [sample_request], deliveries := ds\<rparr>"

lemmas sample_simps =
  sample_request_def sample_delivery_def sample_batch_def sample_item_def store_with_def empty_store_def
  timestamptz_def stored_request_def stored_delivery_def

lemma wf_store_with:
  "distinct (map d_key ds) \<Longrightarrow> \<forall>d\<in>set ds. d_RequestID d = 1 \<Longrightarrow> wf_store (store_with ds)"
  by (auto simp: wf_store_def store_with_def empty_store_def sample_request_def request_fk_ok_def
      same_idempotency_key_def)

lemma wf_store_empty: "wf_store empty_store"
  by (simp add: wf_store_def empty_store_def)

lemma create_sample:
  "CreateNotification None 0 sample_request sample_delivery None empty_store
     = (Inr (), store_with [sample_delivery])"
  by (simp add: CreateNotification_def withTx_def insertRequest_eq insert_delivery_and_outbox_def
      insertDelivery_def request_fk_ok_def sample_simps)

theorem CreateNotification_atomic_witness:
  "GetDelivery None 2 5000 (store_with [sample_delivery]) = Inr sample_delivery"
  using CreateNotification_atomic [OF wf_store_empty create_sample]
  by (simp add: sample_delivery_def stored_delivery_def timestamptz_def)

theorem CreateNotification_idempotent_witness:
  "CreateNotification None 9 (sample_request\<lparr>r_ID := 4\<rparr>) sample_delivery None (store_with [sample_delivery])
     = (Inl ErrConflict, store_with [sample_delivery])"
  using CreateNotification_idempotent [OF wf_store_empty _ create_sample,
      of "''k1''" "sample_request\<lparr>r_ID := 4\<rparr>" 9 sample_delivery None]
  by (simp add: sample_request_def)

theorem ClaimDelivery_exclusive_witness:
  "\<exists>d st'. ClaimDelivery None 6000 2 5000 9000 (store_with [sample_delivery]) = (Inr (Some d), st')
     \<and> ClaimDelivery None 7000 2 5000 9999 st' = (Inr None, st')"
proof -
  have "wf_store (store_with [sample_delivery])" by (rule wf_store_with) (simp_all add: sample_delivery_def)
  moreover have "ClaimDelivery None 6000 2 5000 9000 (store_with [sample_delivery])
      = (Inr (Some (claimed_row 6000 9000 sample_delivery)), store_with [claimed_row 6000 9000 sample_delivery])"
    by (simp add: ClaimDelivery_eq find_row_def at_key_def claimable_def claimed_row_def sample_simps)
  ultimately show ?thesis using ClaimDelivery_exclusive [where now' = 7000 and lease' = 9999] by blast
qed



definition fresh_ids :: "nat \<Rightarrow> uuid" where
  "fresh_ids n = of_nat n + 100"

definition due_later :: Delivery where
  "due_later = sample_delivery\<lparr>d_ID := 3, d_Status := DeliveryScheduled, d_SendAt := Some 8000\<rparr>"

definition due_sooner :: Delivery where
  "due_sooner = sample_delivery\<lparr>d_ID := 4, d_Status := DeliveryScheduled, d_SendAt := Some 7000\<rparr>"

definition retry_due :: Delivery where
  "retry_due = sample_delivery\<lparr>d_ID := 5, d_Status := DeliveryRetrying, d_NextRetryAt := Some 7000\<rparr>"

lemma wf_due: "wf_store (store_with [due_later, due_sooner])" "wf_store (store_with [retry_due])"
  by (rule wf_store_with; simp add: d_key_def due_later_def due_sooner_def retry_due_def sample_delivery_def)+

theorem PromoteDue_correct_witness:
  "\<exists>st'. PromoteDue None 9000 (\<lambda>d. False) fresh_ids 1 (store_with [due_later, due_sooner]) = (Inr 1, st')"
proof -
  have ids: "inj_on fresh_ids {..<nat 1}" "\<forall>j<nat 1. fresh_ids j \<notin> o_ID ` set (outbox (store_with [due_later, due_sooner]))"
    by (auto simp: store_with_def empty_store_def lessThan_Suc)
  have "\<exists>(due :: Delivery list) st'. PromoteDue None 9000 (\<lambda>d. False) fresh_ids 1 (store_with [due_later, due_sooner])
      = (Inr (int (length due)), st')
    \<and> int (length due) = min 1 (int (count_where (\<lambda>d. is_due DeliveryScheduled d_SendAt 9000 d \<and> \<not> False)
       (deliveries (store_with [due_later, due_sooner]))))"
    using PromoteDue_correct [OF wf_due(1) zero_le_one ids, where now = 9000 and locked = "\<lambda>d. False"]
    by (elim exE conjE) (intro exI conjI, assumption+)
  then show ?thesis by (auto simp: is_due_def due_later_def due_sooner_def sample_simps)
qed

theorem SweepRetries_correct_witness:
  "\<exists>st'. SweepRetries None 9000 (\<lambda>d. False) fresh_ids 2 (store_with [retry_due]) = (Inr 1, st')"
proof -
  have ids: "inj_on fresh_ids {..<nat 2}" "\<forall>j<nat 2. fresh_ids j \<notin> o_ID ` set (outbox (store_with [retry_due]))"
    by (auto simp: store_with_def empty_store_def fresh_ids_def inj_on_def numeral_2_eq_2 less_Suc_eq)
  have "\<exists>(due :: Delivery list) st'. SweepRetries None 9000 (\<lambda>d. False) fresh_ids 2 (store_with [retry_due])
      = (Inr (int (length due)), st')
    \<and> int (length due) = min 2 (int (count_where (\<lambda>d. is_due DeliveryRetrying d_NextRetryAt 9000 d \<and> \<not> False)
       (deliveries (store_with [retry_due]))))"
    using SweepRetries_correct [OF wf_due(2) zero_le_numeral ids, where now = 9000 and locked = "\<lambda>d. False"]
    by (elim exE conjE) (intro exI conjI, assumption+)
  then show ?thesis by (auto simp: is_due_def retry_due_def sample_simps)
qed

theorem ReconcilePending_heals_witness:
  "\<exists>st'. ReconcilePending None 9000000 9000000 (\<lambda>d. False) fresh_ids 1000 10 (store_with [sample_delivery]) = (Inr 1, st')
     \<and> \<not> list_ex (orphan_pending st' 8999000) (deliveries st')"
proof -
  obtain st' where run: "ReconcilePending None 9000000 9000000 (\<lambda>d. False) fresh_ids 1000 10 (store_with [sample_delivery]) = (Inr 1, st')"
    by (simp add: ReconcilePending_def withTx_def sql_limit_def orphan_pending_def scanDueRows_def
        enqueueDueTx_def insertOutbox_def sample_simps)
  then show ?thesis using ReconcilePending_heals [OF run] by (auto simp: list_ex_iff)
qed

definition expired :: Delivery where
  "expired = sample_delivery\<lparr>d_Status := DeliveryProcessing, d_LockedUntil := Some 6000\<rparr>"

theorem ReapStuck_correct_witness:
  "\<exists>st'. ReapStuck None 7000 (store_with [expired]) = (Inr 1, st') \<and> count_where (stuck 7000) (deliveries st') = 0"
proof -
  obtain st' where run: "ReapStuck None 7000 (store_with [expired]) = (Inr 1, st')"
    by (simp add: ReapStuck_def stuck_def expired_def sample_simps)
  then show ?thesis using ReapStuck_correct [OF run] by simp
qed

theorem ArchiveAndDropPartition_effect_witness:
  "\<exists>st'. ArchiveAndDropPartition None 5000 (store_with [due_later]\<lparr>partitions := [0]\<rparr>) = (Inr (), st')
     \<and> due_later \<notin> set (deliveries st') \<and> due_later \<notin> set (archived st')"
proof -
  let ?st = "store_with [due_later]\<lparr>partitions := [0]\<rparr>"
  have day: "day_of 5000 = 0" by (simp add: day_of_def Hour_def)
  obtain st' where run: "ArchiveAndDropPartition None 5000 ?st = (Inr (), st')"
    by (simp add: ArchiveAndDropPartition_def day in_day_def due_later_def sample_simps)
  have "in_day 0 due_later" by (simp add: in_day_def day due_later_def sample_delivery_def)
  with ArchiveAndDropPartition_effect [OF run, of due_later] run show ?thesis
    by (simp add: day store_with_def empty_store_def due_later_def)
qed

theorem ListRequests_pagination_witness:
  "follow 2 \<lparr>f_UserID = ''alice'', f_Status = None, f_Channel = None, f_From = None, f_To = None,
     f_Limit = 0, f_Cursor = None, f_CursorAt = None\<rparr> (store_with []) = Some [sample_request\<lparr>r_RenderedContent := ''''\<rparr>]"
proof -
  have "wf_store (store_with [])" "times_stored (store_with [])"
    by (rule wf_store_with; simp) (simp add: times_stored_def sample_simps)
  from ListRequests_pagination [OF this, of "\<lparr>f_UserID = ''alice'', f_Status = None, f_Channel = None,
      f_From = None, f_To = None, f_Limit = 0, f_Cursor = None, f_CursorAt = None\<rparr>"]
  show ?thesis
    by (simp add: list_where_def opt_holds_def scanRequestList_def sample_simps numeral_2_eq_2 del: follow.simps)
qed

end
