(* ===== verification/Service.thy ===== *)
theory Service
  imports Template Store_List Store_Scheduler
begin

text \<open>
  The package \<open>internal/notification\<close>: validation (input.go), the use cases of the service
  (service.go) and batch creation (batch.go), over the ports the package declares.  The ports are
  a record of functions on a world of type \<open>'w\<close>; \<open>new_uuid\<close> is \<open>uuid.New\<close>.  A context
  carries the correlation id.
\<close>

section \<open>Input (input.go)\<close>

record CreateInput =
  in_UserID :: string
  in_Recipient :: string
  in_Channel :: Channel
  in_Priority :: Priority
  in_TemplateID :: "uuid option"
  in_Content :: string
  in_Variables :: "string \<rightharpoonup> string"
  in_IdempotencyKey :: "string option"
  in_SendAt :: "gotime option"

definition maxContentLength :: "Channel \<Rightarrow> int" where
  "maxContentLength c =
     (if c = ChannelSMS then 1600 else if c = ChannelEmail then 100000
      else if c = ChannelPush then 4000 else 0)"

definition maxBatchSize :: int where
  "maxBatchSize = 1000"

definition CreateInput_validate :: "CreateInput \<Rightarrow> error option" where
  "CreateInput_validate inp =
     (if TrimSpace (in_Recipient inp) = [] then Some (NewValidationError ''recipient'' ''recipient is required'')
      else if \<not> Channel_Valid (in_Channel inp)
      then Some (NewValidationError ''channel'' ''channel must be one of sms, email, push'')
      else if \<not> Priority_Valid (in_Priority inp)
      then Some (NewValidationError ''priority'' ''priority must be one of high, normal, low'')
      else if in_TemplateID inp = None \<and> TrimSpace (in_Content inp) = []
      then Some (NewValidationError ''content'' ''either content or template_id is required'')
      else if in_TemplateID inp = None \<and> int (length (in_Content inp)) > maxContentLength (in_Channel inp)
      then Some (NewValidationError ''content'' ''content exceeds maximum length for channel'')
      else case in_IdempotencyKey inp of
          Some k \<Rightarrow> if length k > 255 then Some (NewValidationError ''idempotency_key'' ''idempotency_key too long'')
                    else None
        | None \<Rightarrow> None)"

record BatchInput =
  bin_UserID :: string
  bin_IdempotencyKey :: "string option"
  bin_Items :: "CreateInput list"

fun validate_items :: "CreateInput list \<Rightarrow> error option" where
  "validate_items [] = None"
| "validate_items (x # xs) =
     (case CreateInput_validate x of Some err \<Rightarrow> Some err | None \<Rightarrow> validate_items xs)"

definition BatchInput_validate :: "BatchInput \<Rightarrow> error option" where
  "BatchInput_validate inp =
     (if bin_Items inp = []
      then Some (NewValidationError ''notifications'' ''at least one notification is required'')
      else if int (length (bin_Items inp)) > maxBatchSize
      then Some (NewValidationError ''notifications'' ''batch exceeds maximum of 1000 notifications'')
      else validate_items (bin_Items inp))"

section \<open>Ports (service.go)\<close>

record 'w Repository =
  rp_CreateNotification :: "Request \<Rightarrow> Delivery \<Rightarrow> OutboxRecord option \<Rightarrow> 'w \<Rightarrow> unit result \<times> 'w"
  rp_GetRequestByID :: "uuid \<Rightarrow> 'w \<Rightarrow> Request result \<times> 'w"
  rp_GetRequestByIdempotencyKey :: "string \<Rightarrow> string \<Rightarrow> 'w \<Rightarrow> Request result \<times> 'w"
  rp_ListRequests :: "ListFilter \<Rightarrow> 'w \<Rightarrow> Page result \<times> 'w"
  rp_CancelRequest :: "uuid \<Rightarrow> 'w \<Rightarrow> Request result \<times> 'w"
  rp_GetDeliveriesByRequest :: "uuid \<Rightarrow> 'w \<Rightarrow> Delivery list result \<times> 'w"
  rp_CreateBatch :: "Batch \<Rightarrow> BatchItem list \<Rightarrow> 'w \<Rightarrow> BatchResult result \<times> 'w"
  rp_GetBatchByID :: "uuid \<Rightarrow> 'w \<Rightarrow> Batch result \<times> 'w"
  rp_GetBatchByIdempotencyKey :: "string \<Rightarrow> string \<Rightarrow> 'w \<Rightarrow> Batch result \<times> 'w"

record 'w Service =
  sv_repo :: "'w Repository"
  sv_Render :: "uuid \<Rightarrow> Channel \<Rightarrow> (string \<rightharpoonup> string) \<Rightarrow> 'w \<Rightarrow> (Template \<times> string) result \<times> 'w"
  sv_Now :: "'w \<Rightarrow> gotime \<times> 'w"
  sv_IncCreated :: "Channel \<Rightarrow> Priority \<Rightarrow> 'w \<Rightarrow> 'w"
  new_uuid :: "'w \<Rightarrow> uuid \<times> 'w"

text \<open>The fresh identifiers are not a dependency the constructor takes: \<open>uuid.New\<close> is global.\<close>

definition notification_New ::
  "'w Repository \<Rightarrow> (uuid \<Rightarrow> Channel \<Rightarrow> (string \<rightharpoonup> string) \<Rightarrow> 'w \<Rightarrow> (Template \<times> string) result \<times> 'w) \<Rightarrow>
   ('w \<Rightarrow> gotime \<times> 'w) \<Rightarrow> (Channel \<Rightarrow> Priority \<Rightarrow> 'w \<Rightarrow> 'w) \<Rightarrow> ('w \<Rightarrow> uuid \<times> 'w) \<Rightarrow> 'w Service" where
  "notification_New repo renderer clk m uuid =
     \<lparr>sv_repo = repo, sv_Render = renderer, sv_Now = clk, sv_IncCreated = m, new_uuid = uuid\<rparr>"

record View =
  v_Request :: Request
  v_Deliveries :: "Delivery list"

record CreateResult =
  cr_Request :: Request
  cr_Duplicate :: bool

record builtNotification =
  bn_Request :: Request
  bn_Delivery :: Delivery
  bn_Outbox :: "OutboxRecord option"

section \<open>Building the rows\<close>

definition render_content ::
  "'w Service \<Rightarrow> CreateInput \<Rightarrow> 'w \<Rightarrow> (string \<times> uuid option) result \<times> 'w" where
  "render_content S inp w =
     (case in_TemplateID inp of
        None \<Rightarrow> (Inr (in_Content inp, None), w)
      | Some t \<Rightarrow>
          (case sv_Render S t (in_Channel inp) (in_Variables inp) w of
             (Inl err, w1) \<Rightarrow> (Inl err, w1)
           | (Inr (_, rendered), w1) \<Rightarrow> (Inr (rendered, Some t), w1)))"

definition built_request ::
  "CreateInput \<Rightarrow> uuid option \<Rightarrow> string \<Rightarrow> uuid option \<Rightarrow> gotime \<Rightarrow> uuid \<Rightarrow> Request" where
  "built_request inp batchID content templateID now requestID =
     \<lparr>r_ID = requestID, r_UserID = in_UserID inp, r_BatchID = batchID, r_Recipient = in_Recipient inp,
      r_Channel = in_Channel inp, r_Priority = in_Priority inp, r_TemplateID = templateID,
      r_RenderedContent = content, r_IdempotencyKey = in_IdempotencyKey inp,
      r_Status = RequestPending, r_CreatedAt = now\<rparr>"

definition built_delivery :: "CreateInput \<Rightarrow> gotime \<Rightarrow> uuid \<Rightarrow> uuid \<Rightarrow> DeliveryStatus \<Rightarrow> gotime option \<Rightarrow> Delivery" where
  "built_delivery inp now requestID deliveryID status sendAt =
     \<lparr>d_ID = deliveryID, d_RequestID = requestID, d_Channel = in_Channel inp, d_Priority = in_Priority inp,
      d_Status = status, d_AttemptCount = 0, d_ProviderMessageID = None, d_LastError = None,
      d_NextRetryAt = None, d_LockedUntil = None, d_SendAt = sendAt, d_CreatedAt = now, d_UpdatedAt = now\<rparr>"

definition built_outbox :: "CreateInput \<Rightarrow> string \<Rightarrow> gotime \<Rightarrow> uuid \<Rightarrow> uuid \<Rightarrow> uuid \<Rightarrow> OutboxRecord" where
  "built_outbox inp corr now requestID deliveryID outboxID =
     \<lparr>or_ID = outboxID, or_DeliveryID = deliveryID, or_DeliveryCreatedAt = now,
      or_Stream = Stream (in_Priority inp) (in_Channel inp),
      or_Message = \<lparr>m_DeliveryID = deliveryID, m_DeliveryCreatedAt = now, m_RequestID = requestID,
        m_Channel = in_Channel inp, m_Priority = in_Priority inp, m_CorrelationID = corr\<rparr>\<rparr>"

definition future :: "gotime option \<Rightarrow> gotime \<Rightarrow> bool" where
  "future sendAt now = (case sendAt of None \<Rightarrow> False | Some t \<Rightarrow> t > now)"

definition build ::
  "'w Service \<Rightarrow> string \<Rightarrow> CreateInput \<Rightarrow> uuid option \<Rightarrow> 'w \<Rightarrow> builtNotification result \<times> 'w" where
  "build S corr inp batchID w =
     (case render_content S inp w of
        (Inl err, w1) \<Rightarrow> (Inl err, w1)
      | (Inr (content, templateID), w1) \<Rightarrow>
          (let (now, w2) = sv_Now S w1;
               (requestID, w3) = new_uuid S w2;
               (deliveryID, w4) = new_uuid S w3;
               req = built_request inp batchID content templateID now requestID
           in if future (in_SendAt inp) now
              then (Inr \<lparr>bn_Request = req,
                         bn_Delivery = built_delivery inp now requestID deliveryID DeliveryScheduled (in_SendAt inp),
                         bn_Outbox = None\<rparr>, w4)
              else (let (outboxID, w5) = new_uuid S w4
                    in (Inr \<lparr>bn_Request = req,
                             bn_Delivery = built_delivery inp now requestID deliveryID DeliveryPending None,
                             bn_Outbox = Some (built_outbox inp corr now requestID deliveryID outboxID)\<rparr>, w5))))"

section \<open>Use cases (service.go)\<close>

definition duplicate_of :: "Request \<Rightarrow> CreateResult" where
  "duplicate_of r = \<lparr>cr_Request = r, cr_Duplicate = True\<rparr>"

definition create_new :: "'w Service \<Rightarrow> string \<Rightarrow> CreateInput \<Rightarrow> 'w \<Rightarrow> CreateResult result \<times> 'w" where
  "create_new S corr inp w =
     (case build S corr inp None w of
        (Inl err, w1) \<Rightarrow> (Inl err, w1)
      | (Inr built, w1) \<Rightarrow>
          (case rp_CreateNotification (sv_repo S) (bn_Request built) (bn_Delivery built) (bn_Outbox built) w1 of
             (Inl err, w2) \<Rightarrow>
               (case (err, in_IdempotencyKey inp) of
                  (ErrConflict, Some key) \<Rightarrow>
                    (case rp_GetRequestByIdempotencyKey (sv_repo S) (in_UserID inp) key w2 of
                       (Inl gerr, w3) \<Rightarrow> (Inl gerr, w3)
                     | (Inr existing, w3) \<Rightarrow> (Inr (duplicate_of existing), w3))
                | _ \<Rightarrow> (Inl err, w2))
           | (Inr _, w2) \<Rightarrow>
               (Inr \<lparr>cr_Request = bn_Request built, cr_Duplicate = False\<rparr>,
                sv_IncCreated S (r_Channel (bn_Request built)) (r_Priority (bn_Request built)) w2)))"

definition Create :: "'w Service \<Rightarrow> string \<Rightarrow> CreateInput \<Rightarrow> 'w \<Rightarrow> CreateResult result \<times> 'w" where
  "Create S corr inp w =
     (case CreateInput_validate inp of
        Some err \<Rightarrow> (Inl err, w)
      | None \<Rightarrow>
          (case in_IdempotencyKey inp of
             None \<Rightarrow> create_new S corr inp w
           | Some key \<Rightarrow>
               (case rp_GetRequestByIdempotencyKey (sv_repo S) (in_UserID inp) key w of
                  (Inr existing, w1) \<Rightarrow> (Inr (duplicate_of existing), w1)
                | (Inl err, w1) \<Rightarrow> if err = ErrNotFound then create_new S corr inp w1 else (Inl err, w1))))"

definition Get :: "'w Service \<Rightarrow> string \<Rightarrow> uuid \<Rightarrow> 'w \<Rightarrow> View result \<times> 'w" where
  "Get S userID i w =
     (case rp_GetRequestByID (sv_repo S) i w of
        (Inl err, w1) \<Rightarrow> (Inl err, w1)
      | (Inr req, w1) \<Rightarrow>
          if r_UserID req \<noteq> userID then (Inl ErrNotFound, w1)
          else (case rp_GetDeliveriesByRequest (sv_repo S) i w1 of
                  (Inl err, w2) \<Rightarrow> (Inl err, w2)
                | (Inr ds, w2) \<Rightarrow> (Inr \<lparr>v_Request = req, v_Deliveries = ds\<rparr>, w2)))"

definition List :: "'w Service \<Rightarrow> ListFilter \<Rightarrow> 'w \<Rightarrow> Page result \<times> 'w" where
  "List S f w = rp_ListRequests (sv_repo S) f w"

definition Cancel :: "'w Service \<Rightarrow> string \<Rightarrow> uuid \<Rightarrow> 'w \<Rightarrow> Request result \<times> 'w" where
  "Cancel S userID i w =
     (case rp_GetRequestByID (sv_repo S) i w of
        (Inl err, w1) \<Rightarrow> (Inl err, w1)
      | (Inr req, w1) \<Rightarrow>
          if r_UserID req \<noteq> userID then (Inl ErrNotFound, w1)
          else rp_CancelRequest (sv_repo S) i w1)"

definition GetBatch :: "'w Service \<Rightarrow> string \<Rightarrow> uuid \<Rightarrow> 'w \<Rightarrow> Batch result \<times> 'w" where
  "GetBatch S userID i w =
     (case rp_GetBatchByID (sv_repo S) i w of
        (Inl err, w1) \<Rightarrow> (Inl err, w1)
      | (Inr batch, w1) \<Rightarrow> if b_UserID batch \<noteq> userID then (Inl ErrNotFound, w1) else (Inr batch, w1))"

section \<open>Batches (batch.go)\<close>

record BatchCreateResult =
  bcr_Batch :: Batch
  bcr_Duplicate :: bool
  bcr_CreatedCount :: int
  bcr_DuplicateCount :: int

definition existing_batch :: "Batch \<Rightarrow> BatchCreateResult" where
  "existing_batch b = \<lparr>bcr_Batch = b, bcr_Duplicate = True, bcr_CreatedCount = 0, bcr_DuplicateCount = 0\<rparr>"

fun build_items ::
  "'w Service \<Rightarrow> string \<Rightarrow> string \<Rightarrow> uuid \<Rightarrow> CreateInput list \<Rightarrow> 'w \<Rightarrow> BatchItem list result \<times> 'w" where
  "build_items S corr userID batchID [] w = (Inr [], w)"
| "build_items S corr userID batchID (item # items) w =
     (case build S corr (item\<lparr>in_UserID := userID\<rparr>) (Some batchID) w of
        (Inl err, w1) \<Rightarrow> (Inl err, w1)
      | (Inr built, w1) \<Rightarrow>
          (case build_items S corr userID batchID items w1 of
             (Inl err, w2) \<Rightarrow> (Inl err, w2)
           | (Inr rest, w2) \<Rightarrow>
               (Inr (\<lparr>bi_Request = bn_Request built, bi_Delivery = bn_Delivery built,
                      bi_Outbox = bn_Outbox built\<rparr> # rest), w2)))"

definition count_created :: "'w Service \<Rightarrow> BatchItem list \<Rightarrow> 'w \<Rightarrow> 'w" where
  "count_created S items w =
     fold (\<lambda>it. sv_IncCreated S (r_Channel (bi_Request it)) (r_Priority (bi_Request it))) items w"

definition submit_batch ::
  "'w Service \<Rightarrow> BatchInput \<Rightarrow> Batch \<Rightarrow> BatchItem list \<Rightarrow> 'w \<Rightarrow> BatchCreateResult result \<times> 'w" where
  "submit_batch S inp batch items w =
     (case rp_CreateBatch (sv_repo S) batch items w of
        (Inl err, w1) \<Rightarrow>
          (case (err, bin_IdempotencyKey inp) of
             (ErrConflict, Some key) \<Rightarrow>
               (case rp_GetBatchByIdempotencyKey (sv_repo S) (bin_UserID inp) key w1 of
                  (Inl gerr, w2) \<Rightarrow> (Inl gerr, w2)
                | (Inr existing, w2) \<Rightarrow> (Inr (existing_batch existing), w2))
           | _ \<Rightarrow> (Inl err, w1))
      | (Inr res, w1) \<Rightarrow>
          (Inr \<lparr>bcr_Batch = br_Batch res, bcr_Duplicate = False,
                bcr_CreatedCount = br_CreatedCount res, bcr_DuplicateCount = br_DuplicateCount res\<rparr>,
           count_created S items w1))"

definition new_batch :: "BatchInput \<Rightarrow> uuid \<Rightarrow> gotime \<Rightarrow> Batch" where
  "new_batch inp batchID now =
     \<lparr>b_ID = batchID, b_UserID = bin_UserID inp, b_IdempotencyKey = bin_IdempotencyKey inp,
      b_TotalCount = 0, b_PendingCount = 0, b_SentCount = 0, b_FailedCount = 0,
      b_CancelledCount = 0, b_CreatedAt = now\<rparr>"

definition create_batch_new :: "'w Service \<Rightarrow> string \<Rightarrow> BatchInput \<Rightarrow> 'w \<Rightarrow> BatchCreateResult result \<times> 'w" where
  "create_batch_new S corr inp w =
     (let (batchID, w1) = new_uuid S w;
          (now, w2) = sv_Now S w1
      in case build_items S corr (bin_UserID inp) batchID (bin_Items inp) w2 of
           (Inl err, w3) \<Rightarrow> (Inl err, w3)
         | (Inr items, w3) \<Rightarrow> submit_batch S inp (new_batch inp batchID now) items w3)"

definition Service_CreateBatch :: "'w Service \<Rightarrow> string \<Rightarrow> BatchInput \<Rightarrow> 'w \<Rightarrow> BatchCreateResult result \<times> 'w" where
  "Service_CreateBatch S corr inp w =
     (case BatchInput_validate inp of
        Some err \<Rightarrow> (Inl err, w)
      | None \<Rightarrow>
          (case bin_IdempotencyKey inp of
             None \<Rightarrow> create_batch_new S corr inp w
           | Some key \<Rightarrow>
               (case rp_GetBatchByIdempotencyKey (sv_repo S) (bin_UserID inp) key w of
                  (Inr existing, w1) \<Rightarrow> (Inr (existing_batch existing), w1)
                | (Inl err, w1) \<Rightarrow> if err = ErrNotFound then create_batch_new S corr inp w1 else (Inl err, w1))))"

end
