(* ===== verification/Platform.thy ===== *)
theory Platform
  imports GoStrings Domain
begin

text \<open>
  The small packages under \<open>internal/platform\<close> that the others share: the clocks (clock.go), loggers
  and the correlation id of a context (logging.go), spans (tracing.go).  An instant has no location,
  so \<open>UTC()\<close> keeps it.  A logger is its level and the attributes every record of it carries; the
  records themselves are output and are not kept.
\<close>

section \<open>Clocks (clock.go)\<close>

text \<open>\<open>wall\<close> reads the wall clock of the machine.\<close>

definition System_Now :: "('w \<Rightarrow> gotime \<times> 'w) \<Rightarrow> 'w \<Rightarrow> gotime \<times> 'w" where
  "System_Now wall w = wall w"

record Fake =
  fk_current :: gotime

definition NewFake :: "gotime \<Rightarrow> Fake" where
  "NewFake t = \<lparr>fk_current = t\<rparr>"

definition Fake_Now :: "Fake \<Rightarrow> gotime \<times> Fake" where
  "Fake_Now f = (fk_current f, f)"

definition Advance :: "duration \<Rightarrow> Fake \<Rightarrow> Fake" where
  "Advance d f = f\<lparr>fk_current := fk_current f + d\<rparr>"

definition Fake_Set :: "gotime \<Rightarrow> Fake \<Rightarrow> Fake" where
  "Fake_Set t f = f\<lparr>fk_current := t\<rparr>"

section \<open>Loggers (logging.go)\<close>

datatype Level = LevelDebug | LevelInfo | LevelWarn | LevelError

record Logger =
  lg_Level :: Level
  lg_Attrs :: "(string \<times> string) list"

text \<open>\<open>slog.Logger.With\<close>.\<close>

definition With :: "(string \<times> string) list \<Rightarrow> Logger \<Rightarrow> Logger" where
  "With attrs l = l\<lparr>lg_Attrs := lg_Attrs l @ attrs\<rparr>"

definition logging_New :: "string \<Rightarrow> Logger" where
  "logging_New level =
     (let l = ToLower level;
          lvl = (if l = ''debug'' then LevelDebug else if l = ''warn'' then LevelWarn
                 else if l = ''error'' then LevelError else LevelInfo)
      in \<lparr>lg_Level = lvl, lg_Attrs = []\<rparr>)"

text \<open>A context as far as this package sees it: the correlation id it carries, if any.\<close>

definition WithCorrelationID :: "string option \<Rightarrow> string \<Rightarrow> string option" where
  "WithCorrelationID ctx i = Some i"

definition CorrelationID :: "string option \<Rightarrow> string" where
  "CorrelationID ctx = (case ctx of Some v \<Rightarrow> v | None \<Rightarrow> [])"

definition FromContext :: "string option \<Rightarrow> Logger \<Rightarrow> Logger" where
  "FromContext ctx base =
     (let i = CorrelationID ctx in if i \<noteq> [] then With [(''correlation_id'', i)] base else base)"

section \<open>Spans (tracing.go)\<close>

text \<open>\<open>start\<close> is \<open>Start\<close> of the tracer that the global provider has under a name.\<close>

definition StartSpan ::
  "(string \<Rightarrow> 'c \<Rightarrow> string \<Rightarrow> (string \<times> string) list \<Rightarrow> 'c \<times> 's) \<Rightarrow> 'c \<Rightarrow> string \<Rightarrow> (string \<times> string) list \<Rightarrow> 'c \<times> 's" where
  "StartSpan start ctx name attrs = start ''notification-system'' ctx name attrs"

section \<open>Lemmas\<close>

text \<open>A fake clock moves only when it is told to, and by what it is told.\<close>

lemma Fake_Now_stays: "Fake_Now f = (t, f') \<Longrightarrow> f' = f \<and> t = fk_current f"
  by (auto simp: Fake_Now_def)

lemma Fake_after_advances: "fst (Fake_Now (fold Advance ds (NewFake t))) = t + sum_list ds"
proof -
  have "fk_current (fold Advance ds f) = fk_current f + sum_list ds" for f
    by (induction ds arbitrary: f) (simp_all add: Advance_def)
  then show ?thesis by (simp add: Fake_Now_def NewFake_def)
qed

lemma Fake_after_set: "fst (Fake_Now (Fake_Set t f)) = t"
  by (simp add: Fake_Now_def Fake_Set_def)

text \<open>A context gives back the correlation id it was given, and the logger taken from it carries exactly that id.\<close>

lemma CorrelationID_With [simp]: "CorrelationID (WithCorrelationID ctx i) = i" "CorrelationID None = []"
  by (simp_all add: CorrelationID_def WithCorrelationID_def)

lemma FromContext_attrs:
  "lg_Attrs (FromContext ctx base) = lg_Attrs base @ (if CorrelationID ctx = [] then [] else [(''correlation_id'', CorrelationID ctx)])"
  "lg_Level (FromContext ctx base) = lg_Level base"
  by (simp_all add: FromContext_def With_def Let_def)

end
