(* ===== verification/World.thy ===== *)
theory World
  imports Service Platform
begin

text \<open>
  The world the processes run in: the database, the log of what was handed to Redis, to the
  provider and to the metrics registry, and an environment that supplies, call by call, what the
  code does not decide: faults of the drivers, the server's clock, the time each call takes, fresh
  identifiers, the answers of the rate limiter and the provider, the rows other transactions hold,
  and the transactions other processes commit between two calls of this one (\<open>e_others\<close>).
  \<open>w_time\<close> is the clock of the process, which never runs backwards.
\<close>

section \<open>Environment and world\<close>

datatype event =
    Published string DeliveryMessage
  | DeadLettered DLQMessage
  | Acked string string
  | Offered StreamMessage
  | ProviderCalled ProviderRequest
  | CountedCreated Channel Priority
  | CountedSent Channel Priority
  | CountedFailed Channel Priority
  | CountedRetry Channel Priority
  | CountedDLQ string
  | CountedPromoted int
  | CountedReclaimed int
  | CountedReconciled int

record env =
  e_fault :: "nat \<Rightarrow> fault"
  e_rfault :: "nat \<Rightarrow> fault"
  e_now :: "nat \<Rightarrow> gotime"
  e_delay :: "nat \<Rightarrow> nat"
  e_uuid :: "nat \<Rightarrow> nat \<Rightarrow> uuid"
  e_others :: "nat \<Rightarrow> store \<Rightarrow> store"
  e_locked :: "nat \<Rightarrow> Delivery \<Rightarrow> bool"
  e_locked_outbox :: "nat \<Rightarrow> outbox_row \<Rightarrow> bool"
  e_allow :: "nat \<Rightarrow> Channel \<Rightarrow> bool \<times> duration"
  e_send :: "nat \<Rightarrow> ProviderRequest \<Rightarrow> (string \<times> ProviderError option) + ProviderResult"
  e_jitter :: "nat \<Rightarrow> rat"
  e_read :: "nat \<Rightarrow> StreamMessage list"
  e_stop :: "nat \<Rightarrow> bool"

record world =
  w_db :: store
  w_events :: "event list"
  w_tick :: nat
  w_time :: gotime
  w_env :: env

definition next_tick :: "world \<Rightarrow> world" where
  "next_tick w = w\<lparr>w_tick := Suc (w_tick w), w_time := w_time w + int (e_delay (w_env w) (w_tick w))\<rparr>"

definition emit :: "event \<Rightarrow> world \<Rightarrow> world" where
  "emit e w = w\<lparr>w_events := w_events w @ [e]\<rparr>"

text \<open>
  A call of a repository operation: other processes act first, then the operation runs as one
  transaction at the server's time with the outcome the driver gives it.
\<close>

definition db_call :: "(fault \<Rightarrow> gotime \<Rightarrow> store \<Rightarrow> 'a \<times> store) \<Rightarrow> world \<Rightarrow> 'a \<times> world" where
  "db_call f w =
     (let k = w_tick w; E = w_env w;
          (res, st') = f (e_fault E k) (e_now E k) (e_others E k (w_db w))
      in (res, next_tick (w\<lparr>w_db := st'\<rparr>)))"

definition db_query :: "(fault \<Rightarrow> store \<Rightarrow> 'a) \<Rightarrow> world \<Rightarrow> 'a \<times> world" where
  "db_query f = db_call (\<lambda>flt now st. (f flt st, st))"

definition clock_Now :: "world \<Rightarrow> gotime \<times> world" where
  "clock_Now w = (w_time w, next_tick w)"

definition uuid_New :: "world \<Rightarrow> uuid \<times> world" where
  "uuid_New w = (e_uuid (w_env w) (w_tick w) 0, next_tick w)"

text \<open>A Redis command fails with the driver's fault or takes effect.\<close>

definition rfault_of :: "world \<Rightarrow> fault" where
  "rfault_of w = e_rfault (w_env w) (w_tick w)"

definition redis_call :: "event list \<Rightarrow> world \<Rightarrow> unit result \<times> world" where
  "redis_call evs w =
     (case rfault_of w of
        Some msg \<Rightarrow> (Inl (ErrInfra msg), next_tick w)
      | None \<Rightarrow> (Inr (), fold emit evs (next_tick w)))"

section \<open>The service on PostgreSQL\<close>

definition pg_repository :: "world Repository" where
  "pg_repository = \<lparr>
     rp_CreateNotification = (\<lambda>req del ob. db_call (\<lambda>flt now. CreateNotification flt now req del ob)),
     rp_GetRequestByID = (\<lambda>i. db_query (\<lambda>flt. GetRequestByID flt i)),
     rp_GetRequestByIdempotencyKey = (\<lambda>u k. db_query (\<lambda>flt. GetRequestByIdempotencyKey flt u k)),
     rp_ListRequests = (\<lambda>f. db_query (\<lambda>flt. ListRequests flt f)),
     rp_CancelRequest = (\<lambda>i. db_call (\<lambda>flt now. CancelRequest flt now i)),
     rp_GetDeliveriesByRequest = (\<lambda>i. db_query (\<lambda>flt. GetDeliveriesByRequest flt i)),
     rp_CreateBatch = (\<lambda>b items. db_call (\<lambda>flt now. CreateBatch flt now b items)),
     rp_GetBatchByID = (\<lambda>i. db_query (\<lambda>flt. GetBatchByID flt i)),
     rp_GetBatchByIdempotencyKey = (\<lambda>u k. db_query (\<lambda>flt. GetBatchByIdempotencyKey flt u k))\<rparr>"

definition pg_Render ::
  "uuid \<Rightarrow> Channel \<Rightarrow> (string \<rightharpoonup> string) \<Rightarrow> world \<Rightarrow> (Template \<times> string) result \<times> world" where
  "pg_Render t c vars = db_query (\<lambda>flt st. Render (\<lambda>i. GetTemplateByID flt i st) t c vars)"

definition pg_service :: "world Service" where
  "pg_service = notification_New pg_repository pg_Render (System_Now clock_Now) (\<lambda>c p. emit (CountedCreated c p)) uuid_New"

section \<open>Lemmas\<close>

lemma pg_service_eq:
  "pg_service = \<lparr>sv_repo = pg_repository, sv_Render = pg_Render, sv_Now = clock_Now,
     sv_IncCreated = (\<lambda>c p. emit (CountedCreated c p)), new_uuid = uuid_New\<rparr>"
  by (simp add: pg_service_def notification_New_def System_Now_def [abs_def])

lemma next_tick_simps [simp]:
  "w_db (next_tick w) = w_db w" "w_events (next_tick w) = w_events w" "w_env (next_tick w) = w_env w"
  "w_tick (next_tick w) = Suc (w_tick w)" "w_time (next_tick w) = w_time w + int (e_delay (w_env w) (w_tick w))"
  by (simp_all add: next_tick_def)

lemma emit_simps [simp]:
  "w_db (emit e w) = w_db w" "w_env (emit e w) = w_env w" "w_tick (emit e w) = w_tick w" "w_time (emit e w) = w_time w"
  "w_events (emit e w) = w_events w @ [e]"
  by (simp_all add: emit_def)

text \<open>The state a call of this world finds: what the other processes left.\<close>

definition before :: "world \<Rightarrow> store" where
  "before w = e_others (w_env w) (w_tick w) (w_db w)"

definition fault_of :: "world \<Rightarrow> fault" where
  "fault_of w = e_fault (w_env w) (w_tick w)"

definition now_of :: "world \<Rightarrow> gotime" where
  "now_of w = e_now (w_env w) (w_tick w)"

lemma db_call_eq:
  "db_call f w = (fst (f (fault_of w) (now_of w) (before w)),
     next_tick (w\<lparr>w_db := snd (f (fault_of w) (now_of w) (before w))\<rparr>))"
  by (simp add: db_call_def before_def fault_of_def now_of_def split_beta Let_def)

lemma db_query_eq:
  "db_query f w = (f (fault_of w) (before w), next_tick (w\<lparr>w_db := before w\<rparr>))"
  by (simp add: db_query_def db_call_eq)

lemma db_call_simps [simp]:
  "w_db (snd (db_call f w)) = snd (f (fault_of w) (now_of w) (before w))"
  "fst (db_call f w) = fst (f (fault_of w) (now_of w) (before w))"
  "w_env (snd (db_call f w)) = w_env w" "w_events (snd (db_call f w)) = w_events w"
  by (simp_all add: db_call_eq)

lemma db_query_simps [simp]:
  "w_db (snd (db_query f w)) = before w" "fst (db_query f w) = f (fault_of w) (before w)"
  "w_env (snd (db_query f w)) = w_env w" "w_events (snd (db_query f w)) = w_events w"
  by (simp_all add: db_query_eq)

lemma clock_uuid_simps [simp]:
  "w_db (snd (clock_Now w)) = w_db w" "w_env (snd (clock_Now w)) = w_env w" "w_events (snd (clock_Now w)) = w_events w"
  "w_db (snd (uuid_New w)) = w_db w" "w_env (snd (uuid_New w)) = w_env w" "w_events (snd (uuid_New w)) = w_events w"
  by (simp_all add: clock_Now_def uuid_New_def)

lemma fold_emit_simps [simp]:
  "w_db (fold emit evs w) = w_db w" "w_env (fold emit evs w) = w_env w" "w_time (fold emit evs w) = w_time w"
  "w_events (fold emit evs w) = w_events w @ evs"
  by (induction evs arbitrary: w) simp_all

lemma redis_call_simps [simp]:
  "w_db (snd (redis_call evs w)) = w_db w" "w_env (snd (redis_call evs w)) = w_env w"
  by (simp_all add: redis_call_def split: option.split)

end
