(* ===== verification/Service_Props.thy ===== *)
theory Service_Props
  imports World Store_Props
begin

text \<open>
  Correctness of the notification service: what \<open>build\<close> produces, per-user idempotency of
  \<open>Create\<close> against any repository that keeps its keyed rows, and its instance on PostgreSQL;
  tenant isolation; preservation of the database invariant.
\<close>

section \<open>What build produces\<close>

text \<open>A delivery that is to be sent now comes with the outbox row that asks for it.\<close>

definition built_ok :: "CreateInput \<Rightarrow> uuid option \<Rightarrow> builtNotification \<Rightarrow> bool" where
  "built_ok inp batchID bn \<longleftrightarrow>
     item_ok (bn_Request bn) (bn_Delivery bn) \<and> r_BatchID (bn_Request bn) = batchID
   \<and> r_UserID (bn_Request bn) = in_UserID inp \<and> r_IdempotencyKey (bn_Request bn) = in_IdempotencyKey inp
   \<and> (case bn_Outbox bn of
        None \<Rightarrow> d_Status (bn_Delivery bn) = DeliveryScheduled \<and> d_SendAt (bn_Delivery bn) = in_SendAt inp
                \<and> future (in_SendAt inp) (d_CreatedAt (bn_Delivery bn))
      | Some o' \<Rightarrow> d_Status (bn_Delivery bn) = DeliveryPending \<and> \<not> future (in_SendAt inp) (d_CreatedAt (bn_Delivery bn))
                \<and> or_DeliveryID o' = d_ID (bn_Delivery bn) \<and> or_DeliveryCreatedAt o' = d_CreatedAt (bn_Delivery bn)
                \<and> or_Stream o' = Stream (in_Priority inp) (in_Channel inp)
                \<and> m_RequestID (or_Message o') = r_ID (bn_Request bn))"

lemma build_ok:
  assumes "build S corr inp batchID w = (Inr bn, w')"
  shows "built_ok inp batchID bn"
  using assms
  by (auto simp: build_def built_ok_def item_ok_def built_request_def built_delivery_def built_outbox_def
      Let_def split: prod.splits sum.splits if_splits)

section \<open>Predicates that every call keeps\<close>

text \<open>
  \<open>kept\<close>: a port keeps a predicate of the world.  The use cases keep whatever their ports keep.
\<close>

definition kept :: "('w \<Rightarrow> bool) \<Rightarrow> ('w \<Rightarrow> 'w) \<Rightarrow> bool" where
  "kept P f \<longleftrightarrow> (\<forall>w. P w \<longrightarrow> P (f w))"

lemma keptD: "kept P f \<Longrightarrow> P w \<Longrightarrow> P (f w)"
  by (simp add: kept_def)

locale service_keeps =
  fixes S :: "'w Service" and P :: "'w \<Rightarrow> bool"
  assumes lookup_kept: "kept P (\<lambda>w. snd (rp_GetRequestByIdempotencyKey (sv_repo S) u k w))"
    and batch_lookup_kept: "kept P (\<lambda>w. snd (rp_GetBatchByIdempotencyKey (sv_repo S) u k w))"
    and render_kept: "kept P (\<lambda>w. snd (sv_Render S t c vars w))"
    and now_kept: "kept P (\<lambda>w. snd (sv_Now S w))"
    and uuid_kept: "kept P (\<lambda>w. snd (new_uuid S w))"
    and count_kept: "kept P (sv_IncCreated S c p)"
    and create_kept: "item_ok req del \<Longrightarrow> r_BatchID req = None \<Longrightarrow>
          kept P (\<lambda>w. snd (rp_CreateNotification (sv_repo S) req del ob w))"
    and create_batch_kept: "\<forall>it\<in>set items. item_ok (bi_Request it) (bi_Delivery it) \<and> r_BatchID (bi_Request it) = Some (b_ID b) \<Longrightarrow>
          kept P (\<lambda>w. snd (rp_CreateBatch (sv_repo S) b items w))"
begin

lemma render_content_kept: "P w \<Longrightarrow> P (snd (render_content S inp w))"
  using keptD [OF render_kept, of w]
  by (auto simp: render_content_def split: option.splits prod.splits sum.splits)
    (metis snd_conv)+

lemma build_kept:
  assumes "P w"
  shows "P (snd (build S corr inp batchID w))"
proof (cases "render_content S inp w")
  case (Pair r w1)
  have w1: "P w1" using render_content_kept [OF assms, of inp] Pair by simp
  define w2 where "w2 = snd (sv_Now S w1)"
  define w3 where "w3 = snd (new_uuid S w2)"
  define w4 where "w4 = snd (new_uuid S w3)"
  have "P w2" "P w3" "P w4" "P (snd (new_uuid S w4))"
    using keptD [OF now_kept w1] keptD [OF uuid_kept] by (simp_all add: w2_def w3_def w4_def)
  then show ?thesis
    using w1 Pair
    by (auto simp: build_def Let_def split_beta w2_def w3_def w4_def split: sum.splits)
qed

lemma create_new_kept:
  assumes "P w"
  shows "P (snd (create_new S corr inp w))"
proof (cases "build S corr inp None w")
  case (Pair r w1)
  have w1: "P w1" using build_kept [OF assms, of corr inp None] Pair by simp
  show ?thesis
  proof (cases r)
    case (Inl err)
    then show ?thesis using Pair w1 by (simp add: create_new_def)
  next
    case (Inr bn)
    then have ok: "item_ok (bn_Request bn) (bn_Delivery bn)" "r_BatchID (bn_Request bn) = None"
      using build_ok [of S corr inp None w bn w1] Pair by (auto simp: built_ok_def)
    obtain r2 w2 where two: "rp_CreateNotification (sv_repo S) (bn_Request bn) (bn_Delivery bn) (bn_Outbox bn) w1 = (r2, w2)"
      by force
    have w2: "P w2" using keptD [OF create_kept [OF ok] w1, of "bn_Outbox bn"] two by simp
    have "P (snd (rp_GetRequestByIdempotencyKey (sv_repo S) u k w2))" for u k
      using keptD [OF lookup_kept w2] .
    then show ?thesis
      using Pair Inr two w2 keptD [OF count_kept w2]
      by (auto simp: create_new_def split: sum.splits prod.splits error.splits option.splits) (metis snd_conv)+
  qed
qed

lemma Create_kept:
  assumes "P w"
  shows "P (snd (Create S corr inp w))"
proof (cases "in_IdempotencyKey inp")
  case None
  then show ?thesis using assms create_new_kept by (auto simp: Create_def split: option.splits)
next
  case (Some k)
  obtain r w1 where one: "rp_GetRequestByIdempotencyKey (sv_repo S) (in_UserID inp) k w = (r, w1)" by force
  then have "P w1" using keptD [OF lookup_kept assms, of "in_UserID inp" k] by simp
  then show ?thesis
    using assms Some one create_new_kept by (auto simp: Create_def split: option.splits sum.splits)
qed

lemma build_items_kept:
  "P w \<Longrightarrow> P (snd (build_items S corr u b items w))
   \<and> (\<forall>its. fst (build_items S corr u b items w) = Inr its \<longrightarrow>
        (\<forall>it\<in>set its. item_ok (bi_Request it) (bi_Delivery it) \<and> r_BatchID (bi_Request it) = Some b))"
proof (induction items arbitrary: w)
  case (Cons x xs)
  obtain r w1 where one: "build S corr (x\<lparr>in_UserID := u\<rparr>) (Some b) w = (r, w1)" by force
  have w1: "P w1" using build_kept [OF Cons.prems, of corr "x\<lparr>in_UserID := u\<rparr>" "Some b"] one by simp
  obtain r2 w2 where two: "build_items S corr u b xs w1 = (r2, w2)" by force
  show ?case
    using Cons.IH [OF w1] one two w1 build_ok [of S corr "x\<lparr>in_UserID := u\<rparr>" "Some b" w]
    by (auto simp: built_ok_def split: sum.splits)
qed simp

lemma count_created_kept: "P w \<Longrightarrow> P (count_created S items w)"
  unfolding count_created_def using count_kept by (induction items arbitrary: w) (auto simp: kept_def)

lemma submit_batch_kept:
  assumes "P w"
    and items: "\<forall>it\<in>set items. item_ok (bi_Request it) (bi_Delivery it) \<and> r_BatchID (bi_Request it) = Some (b_ID b)"
  shows "P (snd (submit_batch S inp b items w))"
proof -
  obtain r w1 where one: "rp_CreateBatch (sv_repo S) b items w = (r, w1)" by force
  then have w1: "P w1" using keptD [OF create_batch_kept [OF items] assms(1)] by simp
  have "P (snd (rp_GetBatchByIdempotencyKey (sv_repo S) u key w1))" for u key
    using keptD [OF batch_lookup_kept w1] .
  then show ?thesis
    using one w1 count_created_kept [OF w1]
    by (auto simp: submit_batch_def split: sum.splits prod.splits error.splits option.splits) (metis snd_conv)+
qed

lemma create_batch_new_kept:
  assumes "P w"
  shows "P (snd (create_batch_new S corr inp w))"
proof -
  obtain b w1 where one: "new_uuid S w = (b, w1)" by force
  obtain now w2 where two: "sv_Now S w1 = (now, w2)" by force
  have w2: "P w2" using keptD [OF uuid_kept assms] keptD [OF now_kept, of w1] one two by simp
  obtain r w3 where three: "build_items S corr (bin_UserID inp) b (bin_Items inp) w2 = (r, w3)" by force
  note its = build_items_kept [OF w2, of corr "bin_UserID inp" b "bin_Items inp", unfolded three]
  show ?thesis
    using one two three its submit_batch_kept [of w3 _ "new_batch inp b now" inp]
    by (auto simp: create_batch_new_def new_batch_def split: sum.splits)
qed

lemma CreateBatch_kept:
  assumes "P w"
  shows "P (snd (Service_CreateBatch S corr inp w))"
proof (cases "bin_IdempotencyKey inp")
  case None
  then show ?thesis using assms create_batch_new_kept by (auto simp: Service_CreateBatch_def split: option.splits)
next
  case (Some k)
  obtain r w1 where one: "rp_GetBatchByIdempotencyKey (sv_repo S) (bin_UserID inp) k w = (r, w1)" by force
  then have "P w1" using keptD [OF batch_lookup_kept assms, of "bin_UserID inp" k] by simp
  then show ?thesis
    using assms Some one create_batch_new_kept by (auto simp: Service_CreateBatch_def split: option.splits sum.splits)
qed

end

section \<open>Idempotency keys\<close>

text \<open>
  A service whose repository keeps keyed rows: once a user's key is held by a request, lookups
  find that request or fail, and no creation under the key succeeds.
\<close>

locale keyed_service = service_keeps S good for S :: "'w Service" and good :: "'w \<Rightarrow> bool" +
  fixes holds :: "'w \<Rightarrow> string \<Rightarrow> string \<Rightarrow> uuid \<Rightarrow> bool"
  assumes holds_kept: "service_keeps S (\<lambda>w. good w \<and> holds w u k i)"
    and found: "good w \<Longrightarrow> rp_GetRequestByIdempotencyKey (sv_repo S) u k w = (Inr r, w') \<Longrightarrow> holds w' u k (r_ID r)"
    and lookup: "good w \<Longrightarrow> holds w u k i \<Longrightarrow> rp_GetRequestByIdempotencyKey (sv_repo S) u k w = (res, w') \<Longrightarrow>
          res \<noteq> Inl ErrNotFound \<and> (\<forall>r. res = Inr r \<longrightarrow> r_ID r = i)"
    and created: "good w \<Longrightarrow> rp_CreateNotification (sv_repo S) req del ob w = (Inr (), w') \<Longrightarrow>
          r_IdempotencyKey req = Some k \<Longrightarrow> holds w' (r_UserID req) k (r_ID req)"
begin

lemma holds_count: "good w \<Longrightarrow> holds w u k i \<Longrightarrow> holds (sv_IncCreated S c p w) u k i"
  using service_keeps.count_kept [OF holds_kept, of u k i c p] by (auto simp: kept_def)

lemma create_new_holds:
  assumes "good w" "in_IdempotencyKey inp = Some k" "create_new S corr inp w = (Inr res, w')"
  shows "holds w' (in_UserID inp) k (r_ID (cr_Request res))"
proof -
  obtain bn w1 where one: "build S corr inp None w = (Inr bn, w1)"
    using assms(3) by (auto simp: create_new_def split: prod.splits sum.splits)
  have w1: "good w1" using build_kept [OF assms(1), of corr inp None] one by simp
  have bn: "r_UserID (bn_Request bn) = in_UserID inp" "r_IdempotencyKey (bn_Request bn) = Some k"
    "item_ok (bn_Request bn) (bn_Delivery bn)" "r_BatchID (bn_Request bn) = None"
    using build_ok [OF one] assms(2) by (simp_all add: built_ok_def)
  obtain r2 w2 where two: "rp_CreateNotification (sv_repo S) (bn_Request bn) (bn_Delivery bn) (bn_Outbox bn) w1 = (r2, w2)"
    by force
  have w2: "good w2" using keptD [OF create_kept [OF bn(3,4)] w1, of "bn_Outbox bn"] two by simp
  show ?thesis
  proof (cases r2)
    case (Inr x)
    then have "holds w2 (in_UserID inp) k (r_ID (bn_Request bn))"
      using created [OF w1, of "bn_Request bn" "bn_Delivery bn" "bn_Outbox bn" w2 k] two bn by simp
    then show ?thesis using assms(3) one two Inr holds_count [OF w2] by (auto simp: create_new_def)
  next
    case (Inl err)
    then obtain r w3 where "rp_GetRequestByIdempotencyKey (sv_repo S) (in_UserID inp) k w2 = (Inr r, w3)"
      "res = duplicate_of r" "w' = w3"
      using assms one two
      by (auto simp: create_new_def split: prod.splits sum.splits error.splits option.splits)
    then show ?thesis using found [OF w2] by (auto simp: duplicate_of_def)
  qed
qed

text \<open>After a successful creation under a key, the key is held by the returned request.\<close>

lemma Create_holds:
  assumes "good w" "in_IdempotencyKey inp = Some k" "Create S corr inp w = (Inr res, w')"
  shows "holds w' (in_UserID inp) k (r_ID (cr_Request res))"
proof -
  obtain r w1 where one: "rp_GetRequestByIdempotencyKey (sv_repo S) (in_UserID inp) k w = (r, w1)" by force
  have w1: "good w1" using keptD [OF lookup_kept assms(1), of "in_UserID inp" k] one by simp
  show ?thesis
  proof (cases r)
    case (Inr x)
    then show ?thesis
      using assms one found [OF assms(1)] by (auto simp: Create_def duplicate_of_def split: option.splits)
  next
    case (Inl err)
    then have "create_new S corr inp w1 = (Inr res, w')"
      using assms one by (auto simp: Create_def split: option.splits if_splits)
    then show ?thesis by (rule create_new_holds [OF w1 assms(2)])
  qed
qed

text \<open>While a key is held, a creation under it returns the holder as a duplicate or fails.\<close>

lemma Create_replays:
  assumes "good w" "holds w (in_UserID inp) k i" "in_IdempotencyKey inp = Some k"
    "Create S corr inp w = (Inr res, w')"
  shows "cr_Duplicate res \<and> r_ID (cr_Request res) = i"
  using assms lookup [OF assms(1,2)]
  by (auto simp: Create_def duplicate_of_def split: option.splits prod.splits sum.splits if_splits)

end

section \<open>The service on PostgreSQL\<close>

definition key_row :: "store \<Rightarrow> string \<Rightarrow> string \<Rightarrow> uuid \<Rightarrow> bool" where
  "key_row st u k i \<longleftrightarrow> (\<exists>r\<in>set (requests st). r_ID r = i \<and> r_UserID r = u \<and> r_IdempotencyKey r = Some k)"

text \<open>The other processes keep the invariant, and none of them deletes or renames a request.\<close>

definition env_ok :: "env \<Rightarrow> bool" where
  "env_ok E \<longleftrightarrow> (\<forall>n st. store_inv st \<longrightarrow>
     store_inv (e_others E n st) \<and> (\<forall>u k i. key_row st u k i \<longrightarrow> key_row (e_others E n st) u k i))"

definition pg_good :: "world \<Rightarrow> bool" where
  "pg_good w \<longleftrightarrow> store_inv (w_db w) \<and> env_ok (w_env w)"

definition key_held :: "world \<Rightarrow> string \<Rightarrow> string \<Rightarrow> uuid \<Rightarrow> bool" where
  "key_held w u k i \<longleftrightarrow> key_row (w_db w) u k i"

lemma pg_before:
  assumes "pg_good w"
  shows "store_inv (before w)" "key_held w u k i \<Longrightarrow> key_row (before w) u k i"
  using assms by (auto simp: pg_good_def env_ok_def before_def key_held_def)

lemma key_row_appended: "key_row st u k i \<Longrightarrow> requests st' = requests st @ rs \<Longrightarrow> key_row st' u k i"
  by (auto simp: key_row_def)

lemma CreateNotification_appends: "\<exists>rs. requests (snd (CreateNotification flt now req del ob st)) = requests st @ rs"
proof (cases flt)
  case None
  show ?thesis
    by (auto simp: None CreateNotification_None insert_delivery_and_outbox_frame split: sum.splits)
qed (simp add: CreateNotification_def withTx_def)

lemma CreateBatch_appends: "\<exists>rs. requests (snd (CreateBatch flt now b items st)) = requests st @ rs"
proof (cases "flt = None \<and> (\<exists>st1 c st2. insertBatch b st = Inr st1 \<and> insert_items now items 0 st1 = Inr (c, st2))")
  case True
  then obtain st1 c st2 where run: "flt = None" "insertBatch b st = Inr st1" "insert_items now items 0 st1 = Inr (c, st2)"
    by blast
  have "requests (snd (CreateBatch flt now b items st)) = requests st2"
    by (simp add: CreateBatch_def withTx_def run)
  moreover have "requests st1 = requests st"
    using run(2) by (auto simp: insertBatch_eq split: if_splits)
  ultimately show ?thesis using insert_items_appends [OF run(3)] by auto
next
  case False
  then have "snd (CreateBatch flt now b items st) = st"
    by (auto simp: CreateBatch_def withTx_def split: option.splits sum.splits)
  then show ?thesis by simp
qed

lemma pg_query_kept: "kept pg_good (\<lambda>w. snd (db_query f w))"
  "kept (\<lambda>w. pg_good w \<and> key_held w u k i) (\<lambda>w. snd (db_query f w))"
  using pg_before by (auto simp: kept_def pg_good_def key_held_def)

lemma pg_call_kept:
  assumes "\<And>flt now st. store_inv st \<Longrightarrow> store_inv (snd (f flt now st))"
    "\<And>flt now st. \<exists>rs. requests (snd (f flt now st)) = requests st @ rs"
  shows "kept pg_good (\<lambda>w. snd (db_call f w))" "kept (\<lambda>w. pg_good w \<and> key_held w u k i) (\<lambda>w. snd (db_call f w))"
proof -
  have good: "pg_good (snd (db_call f w))" if "pg_good w" for w
    using that assms(1) [OF pg_before(1) [OF that]] by (simp add: pg_good_def)
  then show "kept pg_good (\<lambda>w. snd (db_call f w))" by (simp add: kept_def)
  have "key_held (snd (db_call f w)) u k i" if "pg_good w" "key_held w u k i" for w
    using pg_before(2) [OF that] assms(2) [of "fault_of w" "now_of w" "before w"]
    by (auto simp: key_held_def intro: key_row_appended)
  with good show "kept (\<lambda>w. pg_good w \<and> key_held w u k i) (\<lambda>w. snd (db_call f w))"
    by (simp add: kept_def)
qed

lemma pg_local_kept:
  "kept pg_good (\<lambda>w. snd (clock_Now w))" "kept (\<lambda>w. pg_good w \<and> key_held w u k i) (\<lambda>w. snd (clock_Now w))"
  "kept pg_good (\<lambda>w. snd (uuid_New w))" "kept (\<lambda>w. pg_good w \<and> key_held w u k i) (\<lambda>w. snd (uuid_New w))"
  "kept pg_good (emit e)" "kept (\<lambda>w. pg_good w \<and> key_held w u k i) (emit e)"
  by (simp_all add: kept_def pg_good_def key_held_def)

lemmas pg_simps = pg_service_eq pg_repository_def pg_Render_def

lemma pg_create_kept:
  assumes "item_ok req del" "r_BatchID req = None"
  shows "kept pg_good (\<lambda>w. snd (db_call (\<lambda>flt now. CreateNotification flt now req del ob) w))"
    "kept (\<lambda>w. pg_good w \<and> key_held w u k i) (\<lambda>w. snd (db_call (\<lambda>flt now. CreateNotification flt now req del ob) w))"
  by (rule pg_call_kept; simp add: CreateNotification_inv [OF _ assms] CreateNotification_appends)+

lemma pg_create_batch_kept:
  assumes "\<forall>it\<in>set items. item_ok (bi_Request it) (bi_Delivery it) \<and> r_BatchID (bi_Request it) = Some (b_ID b)"
  shows "kept pg_good (\<lambda>w. snd (db_call (\<lambda>flt now. CreateBatch flt now b items) w))"
    "kept (\<lambda>w. pg_good w \<and> key_held w u k i) (\<lambda>w. snd (db_call (\<lambda>flt now. CreateBatch flt now b items) w))"
  by (rule pg_call_kept; simp add: CreateBatch_inv [OF _ assms] CreateBatch_appends)+

lemma pg_keeps_good: "service_keeps pg_service pg_good"
  by unfold_locales
    (simp_all add: pg_simps pg_query_kept pg_local_kept pg_create_kept pg_create_batch_kept)

lemma pg_keeps_held: "service_keeps pg_service (\<lambda>w. pg_good w \<and> key_held w u k i)"
  by unfold_locales
    (simp_all add: pg_simps pg_query_kept pg_local_kept pg_create_kept pg_create_batch_kept)

lemma pg_keeps_env: "service_keeps pg_service (\<lambda>w. w_env w = E)"
  by unfold_locales (simp_all add: pg_simps kept_def)

lemma key_row_unique:
  assumes "wf_store st" "key_row st u k i" "r \<in> set (requests st)" "r_UserID r = u" "r_IdempotencyKey r = Some k"
  shows "r_ID r = i"
proof -
  obtain x where x: "x \<in> set (requests st)" "r_ID x = i" "r_UserID x = u" "r_IdempotencyKey x = Some k"
    using assms(2) by (auto simp: key_row_def)
  then have "same_idempotency_key r x" using assms(4,5) by (simp add: same_idempotency_key_def)
  then have "x = r" using assms(1,3) x(1) by (simp add: wf_store_def)
  with x show ?thesis by simp
qed

lemma pg_lookup_cases:
  "rp_GetRequestByIdempotencyKey (sv_repo pg_service) u k w =
     (GetRequestByIdempotencyKey (fault_of w) u k (before w), next_tick (w\<lparr>w_db := before w\<rparr>))"
  by (simp add: pg_simps db_query_eq)

lemma pg_found:
  assumes "rp_GetRequestByIdempotencyKey (sv_repo pg_service) u k w = (Inr r, w')"
  shows "key_held w' u k (r_ID r)"
  using assms unfolding pg_lookup_cases
  by (auto simp: GetRequestByIdempotencyKey_def scanRequest_def key_held_def key_row_def
      split: option.splits dest!: find_row_Some)

lemma pg_lookup:
  assumes "pg_good w" "key_held w u k i" "rp_GetRequestByIdempotencyKey (sv_repo pg_service) u k w = (res, w')"
  shows "res \<noteq> Inl ErrNotFound \<and> (\<forall>r. res = Inr r \<longrightarrow> r_ID r = i)"
proof -
  have row: "key_row (before w) u k i" and wf: "wf_store (before w)"
    using pg_before [OF assms(1)] assms(2) by (auto intro: store_invD)
  obtain r where "r \<in> set (requests (before w))" "r_UserID r = u" "r_IdempotencyKey r = Some k"
    using row by (auto simp: key_row_def)
  then have "find_row (\<lambda>r. r_UserID r = u \<and> r_IdempotencyKey r = Some k) (requests (before w)) \<noteq> None"
    by (auto simp: find_row_None)
  then show ?thesis
    using assms(3) key_row_unique [OF wf row] unfolding pg_lookup_cases
    by (auto simp: GetRequestByIdempotencyKey_def scanRequest_def split: option.splits dest!: find_row_Some)
qed

lemma pg_created:
  assumes "rp_CreateNotification (sv_repo pg_service) req del ob w = (Inr (), w')" "r_IdempotencyKey req = Some k"
  shows "key_held w' (r_UserID req) k (r_ID req)"
proof -
  have eq: "CreateNotification (fault_of w) (now_of w) req del ob (before w) = (Inr (), w_db w')"
    using assms(1) by (auto simp: pg_simps db_call_eq prod_eq_iff)
  then have "fault_of w = None" by (cases "fault_of w") (simp_all add: CreateNotification_def withTx_def)
  then have "requests (w_db w') = requests (before w) @ [stored_request req]"
    using eq by (auto simp: CreateNotification_None insert_delivery_and_outbox_frame split: if_splits sum.splits)
  then show ?thesis using assms(2) by (simp add: key_held_def key_row_def stored_request_def)
qed

lemma pg_keyed: "keyed_service pg_service pg_good key_held"
proof (intro keyed_service.intro keyed_service_axioms.intro pg_keeps_good pg_keeps_held)
qed (auto intro: pg_found pg_created dest: pg_lookup)

interpretation pg: keyed_service pg_service pg_good key_held
  by (rule pg_keyed)

section \<open>Properties of the service\<close>

text \<open>
  C5. Idempotent creation: once a creation under an idempotency key has returned a request, a
  later creation by the same user under the same key that returns at all returns that same
  request, flagged as a duplicate, whatever else the two inputs say and whatever other processes
  commit in between.
\<close>

theorem Create_idempotent:
  assumes "pg_good w" "in_IdempotencyKey inp = Some k" "Create pg_service c inp w = (Inr res, w1)"
    "in_UserID inp2 = in_UserID inp" "in_IdempotencyKey inp2 = Some k"
    "Create pg_service c2 inp2 w1 = (Inr res2, w2)"
  shows "cr_Duplicate res2 \<and> r_ID (cr_Request res2) = r_ID (cr_Request res)"
proof -
  have "pg_good w1" using pg.Create_kept [OF assms(1), of c inp] assms(3) by simp
  moreover have "key_held w1 (in_UserID inp2) k (r_ID (cr_Request res))"
    using pg.Create_holds [OF assms(1-3)] assms(4) by simp
  ultimately show ?thesis using pg.Create_replays assms(5,6) by blast
qed



lemma create_new_success:
  assumes "create_new pg_service c inp w = (Inr res, w')" "\<not> cr_Duplicate res"
  obtains bn w1 now where "build pg_service c inp None w = (Inr bn, w1)" "cr_Request res = bn_Request bn"
    "CreateNotification None now (bn_Request bn) (bn_Delivery bn) (bn_Outbox bn) (before w1) = (Inr (), w_db w')"
proof -
  obtain bn w1 where one: "build pg_service c inp None w = (Inr bn, w1)"
    using assms(1) by (auto simp: create_new_def split: prod.splits sum.splits)
  obtain r2 w2 where two: "rp_CreateNotification (sv_repo pg_service) (bn_Request bn) (bn_Delivery bn) (bn_Outbox bn) w1 = (r2, w2)"
    by force
  then have ok: "r2 = Inr ()" and w': "w_db w' = w_db w2" and res: "cr_Request res = bn_Request bn"
    using assms one
    by (auto simp: create_new_def duplicate_of_def pg_service_eq
        split: prod.splits sum.splits error.splits option.splits)
  have eq: "CreateNotification (fault_of w1) (now_of w1) (bn_Request bn) (bn_Delivery bn) (bn_Outbox bn) (before w1) = (Inr (), w_db w')"
    using two ok w' by (auto simp: pg_simps db_call_eq prod_eq_iff)
  then have "fault_of w1 = None" by (cases "fault_of w1") (simp_all add: CreateNotification_def withTx_def)
  then show ?thesis using that [OF one res, of "now_of w1"] eq by simp
qed

lemma Create_success:
  assumes good: "pg_good w" and run: "Create pg_service c inp w = (Inr res, w')" "\<not> cr_Duplicate res"
  obtains bn w0 w1 now where "pg_good w1" "build pg_service c inp None w0 = (Inr bn, w1)" "cr_Request res = bn_Request bn"
    "CreateNotification None now (bn_Request bn) (bn_Delivery bn) (bn_Outbox bn) (before w1) = (Inr (), w_db w')"
proof -
  obtain w0 where w0: "pg_good w0" "create_new pg_service c inp w0 = (Inr res, w')"
  proof (cases "in_IdempotencyKey inp")
    case None
    then show ?thesis using run good that [of w] by (auto simp: Create_def split: option.splits)
  next
    case (Some k)
    obtain r w1 where one: "rp_GetRequestByIdempotencyKey (sv_repo pg_service) (in_UserID inp) k w = (r, w1)" by force
    have "pg_good w1" using keptD [OF pg.lookup_kept good, of "in_UserID inp" k] one by simp
    then show ?thesis
      using run Some one that [of w1]
      by (auto simp: Create_def duplicate_of_def split: option.splits sum.splits if_splits)
  qed
  obtain bn w1 now where b: "build pg_service c inp None w0 = (Inr bn, w1)" "cr_Request res = bn_Request bn"
    "CreateNotification None now (bn_Request bn) (bn_Delivery bn) (bn_Outbox bn) (before w1) = (Inr (), w_db w')"
    using create_new_success [OF w0(2) run(2)] by metis
  have "pg_good w1" using pg.build_kept [OF w0(1), of c inp None] b(1) by simp
  with b show ?thesis using that by blast
qed

lemma created_notification:
  assumes good: "pg_good w" and run: "Create pg_service c inp w = (Inr res, w')" "\<not> cr_Duplicate res"
  defines "rid \<equiv> r_ID (cr_Request res)"
  shows "\<exists>d. GetRequestByID None rid (w_db w') = Inr (stored_request (cr_Request res))
    \<and> GetDeliveriesByRequest None rid (w_db w') = Inr [d]
    \<and> r_UserID (cr_Request res) = in_UserID inp \<and> r_Recipient (cr_Request res) = in_Recipient inp
    \<and> d_AttemptCount d = 0 \<and> d_Priority d = in_Priority inp \<and> d_Channel d = in_Channel inp \<and> d_RequestID d = rid
    \<and> timestamptz (d_CreatedAt d) = d_CreatedAt d
    \<and> (d_Status d = DeliveryScheduled \<and> d_SendAt d = map_option timestamptz (in_SendAt inp)
         \<and> future (in_SendAt inp) (r_CreatedAt (cr_Request res))
       \<or> d_Status d = DeliveryPending \<and> list_ex (\<lambda>o'. enqueues o' d) (outbox (w_db w')))"
proof -
  obtain bn w0 w1 now where good1: "pg_good w1" and b: "build pg_service c inp None w0 = (Inr bn, w1)"
    and res: "cr_Request res = bn_Request bn"
    and cn: "CreateNotification None now (bn_Request bn) (bn_Delivery bn) (bn_Outbox bn) (before w1) = (Inr (), w_db w')"
    using Create_success [OF good run] by metis
  let ?r = "bn_Request bn" and ?d = "bn_Delivery bn" and ?st = "before w1"
  have wf: "wf_store ?st" using pg_before(1) [OF good1] by (rule store_invD)
  have new: "new_request ?st ?r"
    and ins: "insert_delivery_and_outbox now ?d (bn_Outbox bn) (add_request ?r ?st) = Inr (w_db w')"
    using cn by (auto simp: CreateNotification_None split: if_splits sum.splits)
  have st': "w_db w' = add_outbox now (bn_Outbox bn) (add_delivery ?d (add_request ?r ?st))"
    using ins by (simp add: insert_delivery_and_outbox_Inr)
  have rid: "d_RequestID ?d = r_ID ?r" using build_ok [OF b] by (simp add: built_ok_def item_ok_def)
  have "\<forall>d\<in>set (deliveries ?st). d_RequestID d \<noteq> r_ID ?r"
    using wf new by (auto simp: wf_store_def new_request_def)
  then have ds: "filter (\<lambda>d. d_RequestID d = r_ID ?r) (deliveries (w_db w')) = [stored_delivery ?d]"
    using rid by (simp add: st' filter_empty_conv stored_delivery_def)
  have none: "find_row (\<lambda>x. r_ID x = r_ID ?r) (requests ?st) = None"
    using new by (auto simp: find_row_None new_request_def)
  have req: "GetRequestByID None (r_ID ?r) (w_db w') = Inr (stored_request ?r)"
    by (simp add: GetRequestByID_def scanRequest_def st' find_row_snoc [OF none] stored_request_def)
  have status: "d_Status (stored_delivery ?d) = DeliveryScheduled
      \<and> d_SendAt (stored_delivery ?d) = map_option timestamptz (in_SendAt inp) \<and> future (in_SendAt inp) (r_CreatedAt ?r)
    \<or> d_Status (stored_delivery ?d) = DeliveryPending \<and> list_ex (\<lambda>o'. enqueues o' (stored_delivery ?d)) (outbox (w_db w'))"
    using b
    by (auto simp: st' build_def Let_def built_request_def built_delivery_def built_outbox_def stored_delivery_def
        enqueues_def outbox_row_of_def unpublished_def split: prod.splits sum.splits if_splits)
  have copied: "r_Recipient ?r = in_Recipient inp" "d_AttemptCount (stored_delivery ?d) = 0"
    "d_Priority (stored_delivery ?d) = in_Priority inp" "d_Channel (stored_delivery ?d) = in_Channel inp"
    "d_RequestID (stored_delivery ?d) = r_ID ?r"
    using b rid
    by (auto simp: build_def Let_def built_request_def built_delivery_def stored_delivery_def
        split: prod.splits sum.splits if_splits)
  show ?thesis
    unfolding rid_def res using req ds status copied build_ok [OF b]
    by (intro exI [of _ "stored_delivery ?d"]) (simp add: GetDeliveriesByRequest_def built_ok_def stored_delivery_def)
qed


lemma validate_None_iff:
  "CreateInput_validate inp = None \<longleftrightarrow>
     \<not> blank (in_Recipient inp) \<and> in_Channel inp \<in> set AllChannels \<and> in_Priority inp \<in> set AllPriorities
   \<and> (in_TemplateID inp = None \<longrightarrow>
        \<not> blank (in_Content inp) \<and> int (length (in_Content inp)) \<le> maxContentLength (in_Channel inp))
   \<and> (\<forall>k. in_IdempotencyKey inp = Some k \<longrightarrow> length k \<le> 255)"
  by (auto simp: CreateInput_validate_def blank_def Channel_Valid_def Priority_Valid_def AllChannels_def
      AllPriorities_def split: option.splits if_splits)

lemma validate_error: "CreateInput_validate inp = Some err \<Longrightarrow> is_ErrValidation err"
  by (auto simp: CreateInput_validate_def NewValidationError_def split: option.splits if_splits)

lemma validate_items_error:
  "validate_items xs = Some err \<Longrightarrow> is_ErrValidation err"
  "validate_items xs = None \<longleftrightarrow> (\<forall>x\<in>set xs. CreateInput_validate x = None)"
  by (induction xs) (auto split: option.splits simp: validate_error)

text \<open>
  Invalid input is rejected with a validation error before anything is read or written.  A
  creation is valid exactly when it has a recipient, a known channel and priority, content within
  the channel's limit or a template, and a key of at most 255 bytes; a batch when it has between
  1 and 1000 items, all valid.
\<close>

theorem invalid_input_rejected:
  fixes inp :: CreateInput and binp :: BatchInput
  defines "ok \<equiv> (\<lambda>inp :: CreateInput. \<not> blank (in_Recipient inp) \<and> in_Channel inp \<in> set AllChannels
      \<and> in_Priority inp \<in> set AllPriorities
      \<and> (in_TemplateID inp = None \<longrightarrow>
           \<not> blank (in_Content inp) \<and> int (length (in_Content inp)) \<le> maxContentLength (in_Channel inp))
      \<and> (\<forall>k. in_IdempotencyKey inp = Some k \<longrightarrow> length k \<le> 255))"
  shows "(if ok inp then CreateInput_validate inp = None
      else \<exists>err. is_ErrValidation err \<and> Create S c inp w = (Inl err, w))
    \<and> (if length (bin_Items binp) \<in> {1..1000} \<and> list_all ok (bin_Items binp) then BatchInput_validate binp = None
       else \<exists>err. is_ErrValidation err \<and> Service_CreateBatch S c binp w = (Inl err, w))"
proof -
  have ok: "ok x \<longleftrightarrow> CreateInput_validate x = None" for x by (simp add: ok_def validate_None_iff)
  have all: "list_all ok xs \<longleftrightarrow> validate_items xs = None" for xs
    by (simp add: list_all_iff ok validate_items_error(2))
  have len: "length xs \<in> {1..1000} \<longleftrightarrow> xs \<noteq> [] \<and> \<not> int (length xs) > maxBatchSize" for xs :: "CreateInput list"
    by (cases xs) (auto simp: maxBatchSize_def)
  have "if ok inp then CreateInput_validate inp = None
      else \<exists>err. is_ErrValidation err \<and> Create S c inp w = (Inl err, w)"
    using ok [of inp] validate_error [of inp] by (cases "CreateInput_validate inp") (auto simp: Create_def)
  moreover have "if length (bin_Items binp) \<in> {1..1000} \<and> list_all ok (bin_Items binp) then BatchInput_validate binp = None
       else \<exists>err. is_ErrValidation err \<and> Service_CreateBatch S c binp w = (Inl err, w)"
  proof (cases "BatchInput_validate binp")
    case None
    then show ?thesis using all [of "bin_Items binp"] len [of "bin_Items binp"]
      by (auto simp: BatchInput_validate_def split: if_splits)
  next
    case (Some err)
    then have "is_ErrValidation err" using validate_items_error(1) [of "bin_Items binp" err]
      by (auto simp: BatchInput_validate_def NewValidationError_def split: if_splits)
    then show ?thesis using Some all [of "bin_Items binp"] len [of "bin_Items binp"]
      by (auto simp: Service_CreateBatch_def BatchInput_validate_def split: if_splits)
  qed
  ultimately show ?thesis ..
qed


section \<open>A concrete run\<close>

definition quiet_env :: env where
  "quiet_env = \<lparr>e_fault = (\<lambda>k. None), e_rfault = (\<lambda>k. None), e_now = (\<lambda>k. 5000), e_delay = (\<lambda>k. 0),
     e_uuid = (\<lambda>k j. of_nat (k + j) + 100), e_others = (\<lambda>k st. st), e_locked = (\<lambda>k d. False),
     e_locked_outbox = (\<lambda>k o'. False), e_allow = (\<lambda>k c. (True, 0)),
     e_send = (\<lambda>k p. Inr \<lparr>res_MessageID = ''m1'', res_Status = ''accepted'', res_Timestamp = 0\<rparr>),
     e_jitter = (\<lambda>k. 1 / 2), e_read = (\<lambda>k. []), e_stop = (\<lambda>k. True)\<rparr>"

definition world_of :: "store \<Rightarrow> world" where
  "world_of st = \<lparr>w_db = st, w_events = [], w_tick = 0, w_time = 5000, w_env = quiet_env\<rparr>"

definition sample_input :: CreateInput where
  "sample_input = \<lparr>in_UserID = ''bob'', in_Recipient = ''x'', in_Channel = ChannelSMS, in_Priority = PriorityHigh,
     in_TemplateID = None, in_Content = ''hi'', in_Variables = (\<lambda>x. None), in_IdempotencyKey = Some ''k'',
     in_SendAt = None\<rparr>"

lemma TrimSpace_plain: "TrimSpace ''x'' = ''x''" "TrimSpace ''hi'' = ''hi''"
  by (rule TrimSpace_id; simp add: space_runes_def)+

lemma quiet_env_ok: "env_ok quiet_env"
  by (simp add: env_ok_def quiet_env_def)

lemma pg_good_world_of: "store_inv st \<Longrightarrow> pg_good (world_of st)"
  by (simp add: pg_good_def world_of_def quiet_env_ok)

lemmas run_simps = Create_def create_new_def build_def render_content_def CreateInput_validate_def pg_simps
  db_query_eq db_call_eq before_def fault_of_def now_of_def clock_Now_def uuid_New_def next_tick_def emit_def
  quiet_env_def world_of_def sample_input_def TrimSpace_plain Channel_Valid_def Priority_Valid_def go_simps
  maxContentLength_def GetRequestByIdempotencyKey_def scanRequest_def find_row_def built_request_def
  built_delivery_def built_outbox_def future_def CreateNotification_def withTx_def insertRequest_eq
  request_fk_ok_def insert_delivery_and_outbox_def insertDelivery_def insertOutbox_def duplicate_of_def
  empty_store_def stored_request_def Let_def

theorem Create_idempotent_witness:
  "\<exists>res w1 res2 w2. Create pg_service ''c'' sample_input (world_of empty_store) = (Inr res, w1)
     \<and> Create pg_service ''c'' (sample_input\<lparr>in_Content := ''x''\<rparr>) w1 = (Inr res2, w2)
     \<and> cr_Duplicate res2 \<and> r_ID (cr_Request res2) = r_ID (cr_Request res)"
proof -
  obtain res w1 res2 w2 where
    run: "Create pg_service ''c'' sample_input (world_of empty_store) = (Inr res, w1)"
      "Create pg_service ''c'' (sample_input\<lparr>in_Content := ''x''\<rparr>) w1 = (Inr res2, w2)"
    by (simp add: run_simps)
  have "pg_good (world_of empty_store)" by (simp add: pg_good_world_of store_inv_empty)
  then have "cr_Duplicate res2 \<and> r_ID (cr_Request res2) = r_ID (cr_Request res)"
    by (rule Create_idempotent [OF _ _ run(1) _ _ run(2)]) (simp_all add: sample_input_def)
  with run show ?thesis by blast
qed




theorem invalid_input_rejected_witness:
  "\<exists>err. is_ErrValidation err
     \<and> Create pg_service ''c'' (sample_input\<lparr>in_Recipient := ''''\<rparr>) (world_of empty_store) = (Inl err, world_of empty_store)"
  using invalid_input_rejected [of "sample_input\<lparr>in_Recipient := ''''\<rparr>" pg_service "''c''" "world_of empty_store"]
  by (simp add: blank_def)


end
