(* ===== verification/Worker.thy ===== *)
theory Worker
  imports Retry World
begin

text \<open>
  The package \<open>internal/worker\<close>: configuration and stream set (worker.go) and the pipeline of one
  message (process.go), over the ports the package declares.  A provider error is its text and
  the \<open>ProviderError\<close> that \<open>errors.As\<close> finds in it.  Log records and spans are left out.
  \<open>wk_select d\<close> is the \<open>select\<close> between \<open>ctx.Done()\<close> (\<open>True\<close>) and \<open>time.After(d)\<close>,
  \<open>wk_offer\<close> the one between \<open>ctx.Done()\<close> and the send to the pool's channel;
  \<open>wk_Float64\<close> draws from the policy's random source; \<open>wk_UUIDString\<close> is \<open>uuid.UUID.String\<close>.
\<close>

section \<open>Configuration and ports (worker.go)\<close>

record WorkerConfig =
  wc_Priorities :: "Priority list"
  wc_Channels :: "Channel list"
  wc_Concurrency :: int
  wc_Consumer :: string
  wc_BatchSize :: int
  wc_LeaseTTL :: duration
  wc_BlockTime :: duration
  wc_RateWaitMax :: duration
  wc_RateWaitStep :: duration

type_synonym send_error = "string \<times> ProviderError option"

record 'w Worker =
  wk_cfg :: WorkerConfig
  wk_streams :: "string list"
  wk_policy :: Policy
  q_EnsureGroup :: "string \<Rightarrow> 'w \<Rightarrow> unit result \<times> 'w"
  q_Read :: "string \<Rightarrow> string list \<Rightarrow> int \<Rightarrow> duration \<Rightarrow> 'w \<Rightarrow> StreamMessage list result \<times> 'w"
  q_Ack :: "string \<Rightarrow> string \<Rightarrow> 'w \<Rightarrow> unit result \<times> 'w"
  wr_GetRequestByID :: "uuid \<Rightarrow> 'w \<Rightarrow> Request result \<times> 'w"
  wr_ClaimDelivery :: "uuid \<Rightarrow> gotime \<Rightarrow> gotime \<Rightarrow> 'w \<Rightarrow> Delivery option result \<times> 'w"
  wr_MarkSent :: "uuid \<Rightarrow> gotime \<Rightarrow> uuid \<Rightarrow> string \<Rightarrow> 'w \<Rightarrow> unit result \<times> 'w"
  wr_MarkRetrying :: "uuid \<Rightarrow> gotime \<Rightarrow> int \<Rightarrow> gotime \<Rightarrow> string \<Rightarrow> 'w \<Rightarrow> unit result \<times> 'w"
  wr_MarkFailed :: "uuid \<Rightarrow> gotime \<Rightarrow> uuid \<Rightarrow> int \<Rightarrow> string \<Rightarrow> 'w \<Rightarrow> unit result \<times> 'w"
  pv_Send :: "ProviderRequest \<Rightarrow> 'w \<Rightarrow> (send_error + ProviderResult) \<times> 'w"
  rl_Allow :: "Channel \<Rightarrow> 'w \<Rightarrow> (bool \<times> duration) \<times> 'w"
  wk_Now :: "'w \<Rightarrow> gotime \<times> 'w"
  wk_select :: "duration \<Rightarrow> 'w \<Rightarrow> bool \<times> 'w"
  wk_ctxErr :: "'w \<Rightarrow> bool \<times> 'w"
  wk_offer :: "StreamMessage \<Rightarrow> 'w \<Rightarrow> bool \<times> 'w"
  wk_Float64 :: "'w \<Rightarrow> rat \<times> 'w"
  wk_UUIDString :: "uuid \<Rightarrow> string"
  mt_IncSent :: "Channel \<Rightarrow> Priority \<Rightarrow> 'w \<Rightarrow> 'w"
  mt_IncFailed :: "Channel \<Rightarrow> Priority \<Rightarrow> 'w \<Rightarrow> 'w"
  mt_IncRetry :: "Channel \<Rightarrow> Priority \<Rightarrow> 'w \<Rightarrow> 'w"
  mt_IncDLQ :: "string \<Rightarrow> 'w \<Rightarrow> 'w"
  mt_ObserveProviderLatency :: "Channel \<Rightarrow> duration \<Rightarrow> 'w \<Rightarrow> 'w"
  mt_ObserveProcessing :: "Channel \<Rightarrow> Priority \<Rightarrow> duration \<Rightarrow> 'w \<Rightarrow> 'w"
  mt_ObserveE2ELatency :: "Channel \<Rightarrow> Priority \<Rightarrow> duration \<Rightarrow> 'w \<Rightarrow> 'w"
  wk_dlq :: "(DLQMessage \<Rightarrow> 'w \<Rightarrow> unit result \<times> 'w) option"

definition worker_defaults :: "WorkerConfig \<Rightarrow> WorkerConfig" where
  "worker_defaults cfg =
     (let c1 = (if wc_Concurrency cfg \<le> 0 then cfg\<lparr>wc_Concurrency := 1\<rparr> else cfg);
          c2 = (if wc_BatchSize c1 \<le> 0 then c1\<lparr>wc_BatchSize := 1\<rparr> else c1);
          c3 = (if wc_RateWaitStep c2 \<le> 0 then c2\<lparr>wc_RateWaitStep := 50 * Millisecond\<rparr> else c2)
      in if wc_RateWaitMax c3 \<le> 0 then c3\<lparr>wc_RateWaitMax := 30 * Second\<rparr> else c3)"

definition worker_streams :: "WorkerConfig \<Rightarrow> string list" where
  "worker_streams cfg = concat (map (\<lambda>pr. map (\<lambda>ch. Stream pr ch) (wc_Channels cfg)) (wc_Priorities cfg))"

text \<open>\<open>ports\<close> holds the dependencies; the constructor fixes the configuration and the streams.\<close>

definition newWorker :: "WorkerConfig \<Rightarrow> 'w Worker \<Rightarrow> 'w Worker" where
  "newWorker cfg ports =
     ports\<lparr>wk_cfg := worker_defaults cfg, wk_streams := worker_streams (worker_defaults cfg)\<rparr>"

definition worker_New :: "WorkerConfig \<Rightarrow> 'w Worker \<Rightarrow> 'w Worker" where
  "worker_New cfg ports = newWorker cfg (ports\<lparr>wk_dlq := None\<rparr>)"

definition NewWithDLQ :: "WorkerConfig \<Rightarrow> 'w Worker \<Rightarrow> (DLQMessage \<Rightarrow> 'w \<Rightarrow> unit result \<times> 'w) \<Rightarrow> 'w Worker" where
  "NewWithDLQ cfg ports dlq = newWorker cfg (ports\<lparr>wk_dlq := Some dlq\<rparr>)"

text \<open>The logger of a message; \<open>process\<close> adds the correlation id of the message to it.\<close>

definition logger :: "Logger \<Rightarrow> (uuid \<Rightarrow> string) \<Rightarrow> StreamMessage \<Rightarrow> Logger" where
  "logger base str msg =
     With [(''delivery_id'', str (m_DeliveryID (sm_Delivery msg))), (''request_id'', str (m_RequestID (sm_Delivery msg))),
           (''channel'', m_Channel (sm_Delivery msg)), (''priority'', m_Priority (sm_Delivery msg))] base"

definition process_logger :: "Logger \<Rightarrow> (uuid \<Rightarrow> string) \<Rightarrow> StreamMessage \<Rightarrow> Logger" where
  "process_logger base str msg =
     (let c = m_CorrelationID (sm_Delivery msg); ctx = (if c \<noteq> [] then WithCorrelationID None c else None)
      in FromContext ctx (logger base str msg))"

section \<open>Rate limiting (process.go)\<close>

definition rate_wait :: "'w Worker \<Rightarrow> duration \<Rightarrow> duration" where
  "rate_wait W retryAfter =
     (let wait = wc_RateWaitStep (wk_cfg W)
      in if retryAfter > 0 \<and> retryAfter < wait then retryAfter else wait)"

partial_function (option) rate_loop :: "'w Worker \<Rightarrow> Channel \<Rightarrow> gotime \<Rightarrow> 'w \<Rightarrow> (bool \<times> 'w) option" where
  "rate_loop W channel deadline w =
     (let ((allowed, retryAfter), w1) = rl_Allow W channel w in
      if allowed then Some (True, w1)
      else let (now, w2) = wk_Now W w1 in
        if now > deadline then Some (False, w2)
        else let (done, w3) = wk_select W (rate_wait W retryAfter) w2 in
          if done then Some (False, w3) else rate_loop W channel deadline w3)"

definition waitForRateLimit :: "'w Worker \<Rightarrow> Channel \<Rightarrow> 'w \<Rightarrow> (bool \<times> 'w) option" where
  "waitForRateLimit W channel w =
     (let (now, w1) = wk_Now W w
      in rate_loop W channel (now + wc_RateWaitMax (wk_cfg W)) w1)"

section \<open>Outcome of a send (process.go)\<close>

definition requeueWithoutAttempt :: "'w Worker \<Rightarrow> Delivery \<Rightarrow> string \<Rightarrow> 'w \<Rightarrow> 'w" where
  "requeueWithoutAttempt W del reason w =
     (let (now, w1) = wk_Now W w;
          (_, w2) = wr_MarkRetrying W (d_ID del) (d_CreatedAt del) (d_AttemptCount del)
                      (now + wc_RateWaitStep (wk_cfg W)) reason w1
      in w2)"

definition dlq_reason :: "int \<Rightarrow> string" where
  "dlq_reason attempts = (if attempts > 0 then ''exhausted_retries'' else ''permanent_failure'')"

definition publishDLQ :: "'w Worker \<Rightarrow> StreamMessage \<Rightarrow> int \<Rightarrow> string \<Rightarrow> 'w \<Rightarrow> 'w" where
  "publishDLQ W msg attempts errMsg w =
     (case wk_dlq W of
        None \<Rightarrow> w
      | Some publish \<Rightarrow>
          (let (now, w1) = wk_Now W w
           in case publish \<lparr>dlq_Original = sm_Delivery msg, dlq_Reason = dlq_reason attempts,
                            dlq_Error = errMsg, dlq_AttemptCount = attempts, dlq_Stream = sm_Stream msg,
                            dlq_EntryID = sm_ID msg, dlq_Timestamp = now\<rparr> w1 of
                (Inl _, w2) \<Rightarrow> w2
              | (Inr _, w2) \<Rightarrow> mt_IncDLQ W (dlq_reason attempts) w2))"

text \<open>\<open>None\<close> is the panic of \<open>EvaluateFailure\<close>.\<close>

definition handleFailure :: "'w Worker \<Rightarrow> Delivery \<Rightarrow> StreamMessage \<Rightarrow> send_error \<Rightarrow> 'w \<Rightarrow> 'w option" where
  "handleFailure W del msg sendErr w =
     (let (text, perr) = sendErr in
      if (case perr of None \<Rightarrow> False | Some e \<Rightarrow> pe_BreakerOpen e)
      then Some (requeueWithoutAttempt W del ''circuit breaker open'' w)
      else
        let (now, w1) = wk_Now W w;
            (u, w2) = wk_Float64 W w1
        in case EvaluateFailure (wk_policy W) u now (d_AttemptCount del) perr of
             None \<Rightarrow> None
           | Some outcome \<Rightarrow>
               if out_Status outcome = DeliveryFailed
               then Some (case wr_MarkFailed W (d_ID del) (d_CreatedAt del) (d_RequestID del)
                                 (out_AttemptCount outcome) text w2 of
                            (Inl _, w3) \<Rightarrow> w3
                          | (Inr _, w3) \<Rightarrow>
                              publishDLQ W msg (out_AttemptCount outcome) text
                                (mt_IncFailed W (d_Channel del) (d_Priority del) w3))
               else
                 let (next0, w3) = wk_Now W w2;
                     next = (case out_NextRetryAt outcome of None \<Rightarrow> next0 | Some t \<Rightarrow> t)
                 in Some (case wr_MarkRetrying W (d_ID del) (d_CreatedAt del)
                                 (out_AttemptCount outcome) next text w3 of
                            (Inl _, w4) \<Rightarrow> w4
                          | (Inr _, w4) \<Rightarrow> mt_IncRetry W (d_Channel del) (d_Priority del) w4))"

definition send :: "'w Worker \<Rightarrow> Delivery \<Rightarrow> string \<Rightarrow> string \<Rightarrow> 'w \<Rightarrow> (send_error + ProviderResult) \<times> 'w" where
  "send W del recipient content w =
     (let (begin, w1) = wk_Now W w;
          (res, w2) = pv_Send W \<lparr>pr_DeliveryID = wk_UUIDString W (d_ID del), pr_To = recipient,
                                 pr_Channel = d_Channel del, pr_Content = content\<rparr> w1;
          (end', w3) = wk_Now W w2
      in (res, mt_ObserveProviderLatency W (d_Channel del) (end' - begin) w3))"

section \<open>The pipeline (process.go)\<close>

definition deliver :: "'w Worker \<Rightarrow> StreamMessage \<Rightarrow> Delivery \<Rightarrow> 'w \<Rightarrow> 'w option" where
  "deliver W msg del w =
     (case wr_GetRequestByID W (d_RequestID del) w of
        (Inl _, w1) \<Rightarrow> Some w1
      | (Inr req, w1) \<Rightarrow>
          (case send W del (r_Recipient req) (r_RenderedContent req) w1 of
             (Inr res, w2) \<Rightarrow>
               Some (case wr_MarkSent W (d_ID del) (d_CreatedAt del) (d_RequestID del) (res_MessageID res) w2 of
                       (Inl _, w3) \<Rightarrow> w3
                     | (Inr _, w3) \<Rightarrow>
                         (let w4 = mt_IncSent W (d_Channel del) (d_Priority del) w3;
                              (now, w5) = wk_Now W w4
                          in mt_ObserveE2ELatency W (d_Channel del) (d_Priority del) (now - d_CreatedAt del) w5))
           | (Inl sendErr, w2) \<Rightarrow> handleFailure W del msg sendErr w2))"

text \<open>The body of \<open>process\<close> up to its deferred acknowledgement.\<close>

definition process_body :: "'w Worker \<Rightarrow> StreamMessage \<Rightarrow> 'w \<Rightarrow> 'w option" where
  "process_body W msg w =
     (let dm = sm_Delivery msg;
          (now, w1) = wk_Now W w
      in case wr_ClaimDelivery W (m_DeliveryID dm) (m_DeliveryCreatedAt dm) (now + wc_LeaseTTL (wk_cfg W)) w1 of
           (Inl _, w2) \<Rightarrow> Some w2
         | (Inr None, w2) \<Rightarrow> Some w2
         | (Inr (Some del), w2) \<Rightarrow>
             (case waitForRateLimit W (m_Channel dm) w2 of
                None \<Rightarrow> None
              | Some (ok, w3) \<Rightarrow>
                  if \<not> ok then Some (requeueWithoutAttempt W del ''rate limited'' w3)
                  else deliver W msg del w3))"

definition process :: "'w Worker \<Rightarrow> StreamMessage \<Rightarrow> 'w \<Rightarrow> 'w option" where
  "process W msg w =
     (let dm = sm_Delivery msg;
          (start, w1) = wk_Now W w
      in case process_body W msg w1 of
           None \<Rightarrow> None
         | Some w2 \<Rightarrow>
             (let (_, w3) = q_Ack W (sm_Stream msg) (sm_ID msg) w2;
                  (now, w4) = wk_Now W w3
              in Some (mt_ObserveProcessing W (m_Channel dm) (m_Priority dm) (now - start) w4)))"

section \<open>Reading (worker.go)\<close>

fun ensure_groups :: "'w Worker \<Rightarrow> string list \<Rightarrow> 'w \<Rightarrow> unit result \<times> 'w" where
  "ensure_groups W [] w = (Inr (), w)"
| "ensure_groups W (s # ss) w =
     (case q_EnsureGroup W s w of
        (Inl err, w1) \<Rightarrow> (Inl err, w1)
      | (Inr _, w1) \<Rightarrow> ensure_groups W ss w1)"

text \<open>The inner loop over one batch of messages: \<open>True\<close> when the context ended.\<close>

fun feed :: "'w Worker \<Rightarrow> StreamMessage list \<Rightarrow> 'w \<Rightarrow> bool \<times> 'w" where
  "feed W [] w = (False, w)"
| "feed W (msg # msgs) w =
     (case wk_offer W msg w of (done, w1) \<Rightarrow> if done then (True, w1) else feed W msgs w1)"

partial_function (option) readLoop :: "'w Worker \<Rightarrow> 'w \<Rightarrow> 'w option" where
  "readLoop W w =
     (let (stopped, w1) = wk_ctxErr W w in
      if stopped then Some w1
      else let (res, w2) = q_Read W (wc_Consumer (wk_cfg W)) (wk_streams W) (wc_BatchSize (wk_cfg W))
                             (wc_BlockTime (wk_cfg W)) w1 in
        case res of
          Inl _ \<Rightarrow>
            (let (stopped2, w3) = wk_ctxErr W w2 in
             if stopped2 then Some w3
             else let (done, w4) = wk_select W Second w3 in
               if done then Some w4 else readLoop W w4)
        | Inr msgs \<Rightarrow>
            (let (done, w3) = feed W msgs w2 in
             if done then Some w3 else readLoop W w3))"

section \<open>The correlation id\<close>

text \<open>
  The correlation id of the request that created a notification reaches the log of the worker that
  processes its message.
\<close>

lemma correlation_reaches_log:
  assumes "build S (CorrelationID ctx) inp batchID w = (Inr built, w')" "bn_Outbox built = Some ob"
    and "sm_Delivery msg = or_Message ob"
  shows "lg_Attrs (process_logger base str msg) = lg_Attrs (logger base str msg)
    @ (if CorrelationID ctx = [] then [] else [(''correlation_id'', CorrelationID ctx)])"
proof -
  have "m_CorrelationID (sm_Delivery msg) = CorrelationID ctx"
    using assms by (auto simp: build_def built_outbox_def Let_def split: sum.splits prod.splits if_splits)
  then show ?thesis by (simp add: process_logger_def FromContext_attrs Let_def)
qed

end
