(* ===== verification/Worker_Props.thy ===== *)
theory Worker_Props
  imports Worker Service_Props
begin

text \<open>
  Correctness of the worker: the rate-limit wait returns, the pipeline keeps the database
  invariant while the lease is respected, calls the provider at most once and only under a claim,
  and records the outcome the provider's answer asks for.
\<close>

section \<open>The rate-limit wait returns\<close>

text \<open>
  Time as a worker sees it: the clock does not run backwards and a completed
  \<open>time.After(d)\<close> took at least \<open>d\<close>.
\<close>

locale timed_worker =
  fixes W :: "'w Worker" and T :: "'w \<Rightarrow> int"
  assumes now: "wk_Now W w = (t, w') \<Longrightarrow> t = T w \<and> T w \<le> T w'"
    and allow: "rl_Allow W c w = (r, w') \<Longrightarrow> T w \<le> T w'"
    and sleep: "wk_select W d w = (False, w') \<Longrightarrow> T w + d \<le> T w'"
begin

lemma rate_loop_returns:
  assumes "0 < wc_RateWaitStep (wk_cfg W)"
  shows "\<exists>r. rate_loop W c deadline w = Some r"
proof (induction "nat (deadline + 1 - T w)" arbitrary: w rule: less_induct)
  case less
  obtain a ra w1 where one: "rl_Allow W c w = ((a, ra), w1)" by (metis surj_pair)
  obtain t w2 where two: "wk_Now W w1 = (t, w2)" by force
  obtain e w3 where three: "wk_select W (rate_wait W ra) w2 = (e, w3)" by force
  have le: "T w \<le> t" "t \<le> T w2" using allow [OF one] now [OF two] by auto
  show ?case
  proof (cases "a \<or> t > deadline \<or> e")
    case True
    then show ?thesis by (subst rate_loop.simps) (auto simp: one two three)
  next
    case False
    have "0 < rate_wait W ra" using assms by (simp add: rate_wait_def Let_def)
    moreover have "T w2 + rate_wait W ra \<le> T w3" using sleep three False by simp
    ultimately have "nat (deadline + 1 - T w3) < nat (deadline + 1 - T w)" using le False by simp
    from less [OF this] show ?thesis using False by (subst rate_loop.simps) (simp add: one two three)
  qed
qed

lemma waitForRateLimit_returns:
  assumes "0 < wc_RateWaitStep (wk_cfg W)"
  obtains ok w' where "waitForRateLimit W c w = Some (ok, w')"
proof -
  obtain t w1 where "wk_Now W w = (t, w1)" by force
  then show ?thesis
    using rate_loop_returns [OF assms, of c "t + wc_RateWaitMax (wk_cfg W)" w1] that
    by (auto simp: waitForRateLimit_def)
qed

end

section \<open>The pipeline keeps what its ports keep\<close>

text \<open>The rate-limit wait keeps what the limiter, the clock and the timer keep.\<close>

locale rate_keeps =
  fixes W :: "'w Worker" and Q :: "'w \<Rightarrow> bool"
  assumes now_Q: "kept Q (\<lambda>w. snd (wk_Now W w))"
    and allow_Q: "kept Q (\<lambda>w. snd (rl_Allow W c w))"
    and select_Q: "kept Q (\<lambda>w. snd (wk_select W d w))"
begin

lemma rate_loop_Q:
  assumes "rate_loop W c deadline w = Some r" "Q w"
  shows "Q (snd r)"
proof -
  have "W = W \<longrightarrow> Q w \<longrightarrow> Q (snd r)"
  proof (rule rate_loop.raw_induct [where P = "\<lambda>W' c deadline w r. W' = W \<longrightarrow> Q w \<longrightarrow> Q (snd r)"], goal_cases)
    case (1 rec W' c deadline w r)
    obtain a ra w1 where one: "rl_Allow W c w = ((a, ra), w1)" by (metis surj_pair)
    obtain t w2 where two: "wk_Now W w1 = (t, w2)" by force
    obtain e w3 where three: "wk_select W (rate_wait W ra) w2 = (e, w3)" by force
    show ?case
    proof (intro impI)
      assume W: "W' = W" and w: "Q w"
      have "Q w1" using keptD [OF allow_Q w, of c] one by simp
      moreover from this have "Q w2" using keptD [OF now_Q, of w1] two by simp
      moreover from this have "Q w3" using keptD [OF select_Q, of w2 "rate_wait W ra"] three by simp
      ultimately show "Q (snd r)" using 1 W one two three by (auto split: if_splits)
    qed
  qed (rule assms(1))
  with assms(2) show ?thesis by simp
qed

lemma wait_Q:
  assumes "waitForRateLimit W c w = Some (ok, w')" "Q w"
  shows "Q w'"
proof -
  obtain t w1 where one: "wk_Now W w = (t, w1)" by force
  have "Q w1" using keptD [OF now_Q assms(2)] one by simp
  then show ?thesis using assms(1) rate_loop_Q one by (fastforce simp: waitForRateLimit_def)
qed

end

text \<open>
  \<open>P\<close> holds between messages, \<open>H del\<close> while the worker holds the claim on \<open>del\<close>.
\<close>

locale worker_keeps =
  fixes W :: "'w Worker" and P :: "'w \<Rightarrow> bool" and H :: "Delivery \<Rightarrow> 'w \<Rightarrow> bool"
  assumes held: "H del w \<Longrightarrow> P w"
    and claimed: "P w \<Longrightarrow> wr_ClaimDelivery W i t lease w = (Inr (Some del), w') \<Longrightarrow> H del w'"
    and not_claimed: "P w \<Longrightarrow> wr_ClaimDelivery W i t lease w = (res, w') \<Longrightarrow> (\<forall>del. res \<noteq> Inr (Some del)) \<Longrightarrow> P w'"
    and now_P: "kept P (\<lambda>w. snd (wk_Now W w))" and now_H: "kept (H del) (\<lambda>w. snd (wk_Now W w))"
    and allow_H: "kept (H del) (\<lambda>w. snd (rl_Allow W c w))"
    and select_H: "kept (H del) (\<lambda>w. snd (wk_select W d w))"
    and draw_H: "kept (H del) (\<lambda>w. snd (wk_Float64 W w))"
    and get_H: "kept (H del) (\<lambda>w. snd (wr_GetRequestByID W i w))"
    and send_H: "kept (H del) (\<lambda>w. snd (pv_Send W preq w))"
    and latency_H: "kept (H del) (mt_ObserveProviderLatency W c d)"
    and sent: "H del w \<Longrightarrow> P (snd (wr_MarkSent W (d_ID del) (d_CreatedAt del) (d_RequestID del) m w))"
    and retrying: "H del w \<Longrightarrow> P (snd (wr_MarkRetrying W (d_ID del) (d_CreatedAt del) n t m w))"
    and failed: "H del w \<Longrightarrow> P (snd (wr_MarkFailed W (d_ID del) (d_CreatedAt del) (d_RequestID del) n m w))"
    and ack_P: "kept P (\<lambda>w. snd (q_Ack W strm entry w))"
    and dlq_P: "wk_dlq W = Some publish \<Longrightarrow> kept P (\<lambda>w. snd (publish dm w))"
    and metrics_P: "kept P (mt_IncSent W c p)" "kept P (mt_IncFailed W c p)" "kept P (mt_IncRetry W c p)"
      "kept P (mt_IncDLQ W reason)" "kept P (mt_ObserveProcessing W c p d)" "kept P (mt_ObserveE2ELatency W c p d)"
begin

lemma wait_H: "waitForRateLimit W c w = Some (ok, w') \<Longrightarrow> H del w \<Longrightarrow> H del w'"
  by (rule rate_keeps.wait_Q [of W "H del"])
    (simp_all add: rate_keeps_def now_H allow_H select_H)

lemma requeue_P:
  assumes "H del w"
  shows "P (requeueWithoutAttempt W del reason w)"
proof -
  obtain t w1 where one: "wk_Now W w = (t, w1)" by force
  have "H del w1" using keptD [OF now_H assms] one by simp
  then show ?thesis using retrying by (simp add: requeueWithoutAttempt_def one split_beta)
qed

lemma publishDLQ_P:
  assumes "P w"
  shows "P (publishDLQ W msg n e w)"
proof (cases "wk_dlq W")
  case (Some publish)
  obtain t w1 where one: "wk_Now W w = (t, w1)" by force
  have "P w1" using keptD [OF now_P assms] one by simp
  then have "P (snd (publish dm w1))" for dm using keptD [OF dlq_P [OF Some]] by blast
  then show ?thesis
    using keptD [OF metrics_P(4)]
    by (auto simp: publishDLQ_def Some one split: prod.splits sum.splits) (metis snd_conv)+
qed (simp add: publishDLQ_def assms)

lemma handleFailure_P:
  assumes "H del w" "handleFailure W del msg err w = Some w'"
  shows "P w'"
proof -
  obtain etext perr where err: "err = (etext, perr)" by force
  obtain t w1 where one: "wk_Now W w = (t, w1)" by force
  obtain u w2 where two: "wk_Float64 W w1 = (u, w2)" by force
  obtain t3 w3 where three: "wk_Now W w2 = (t3, w3)" by force
  have h2: "H del w2" using keptD [OF now_H assms(1)] keptD [OF draw_H, of del w1] one two by simp
  have h3: "H del w3" using keptD [OF now_H h2] three by simp
  have P: "P (snd (wr_MarkFailed W (d_ID del) (d_CreatedAt del) (d_RequestID del) n m w2))"
    "P (snd (wr_MarkRetrying W (d_ID del) (d_CreatedAt del) n s m w3))" for n m s
    using failed [OF h2] retrying [OF h3] by auto
  show ?thesis
  proof (cases "case perr of None \<Rightarrow> False | Some e \<Rightarrow> pe_BreakerOpen e")
    case True
    then show ?thesis using assms requeue_P by (auto simp: handleFailure_def err)
  next
    case False
    then obtain out where out: "EvaluateFailure (wk_policy W) u t (d_AttemptCount del) perr = Some out"
      using assms(2) by (auto simp: handleFailure_def err one two split: option.splits)
    obtain rf wf where mf: "wr_MarkFailed W (d_ID del) (d_CreatedAt del) (d_RequestID del) (out_AttemptCount out) etext w2 = (rf, wf)"
      by force
    define due where "due = (case out_NextRetryAt out of None \<Rightarrow> t3 | Some t \<Rightarrow> t)"
    obtain rr wr where mr: "wr_MarkRetrying W (d_ID del) (d_CreatedAt del) (out_AttemptCount out) due etext w3 = (rr, wr)"
      by force
    have "P wf" using P(1) [of "out_AttemptCount out" etext] mf by simp
    moreover have "P wr" using P(2) [of "out_AttemptCount out" due etext] mr by simp
    moreover have "w' = (if out_Status out = DeliveryFailed
        then (case rf of Inl _ \<Rightarrow> wf | Inr _ \<Rightarrow> publishDLQ W msg (out_AttemptCount out) etext
                 (mt_IncFailed W (d_Channel del) (d_Priority del) wf))
        else (case rr of Inl _ \<Rightarrow> wr | Inr _ \<Rightarrow> mt_IncRetry W (d_Channel del) (d_Priority del) wr))"
      using assms(2) False mr
      by (simp add: handleFailure_def err one two three out mf due_def Let_def split: if_splits)
    ultimately show ?thesis
      using publishDLQ_P keptD [OF metrics_P(2)] keptD [OF metrics_P(3)]
      by (simp split: if_splits sum.splits)
  qed
qed

lemma send_keeps_H:
  assumes "H del w" "send W d' rcp content w = (res, w')"
  shows "H del w'"
proof -
  obtain t w1 where one: "wk_Now W w = (t, w1)" by force
  define preq where "preq = \<lparr>pr_DeliveryID = wk_UUIDString W (d_ID d'), pr_To = rcp, pr_Channel = d_Channel d', pr_Content = content\<rparr>"
  obtain r w2 where two: "pv_Send W preq w1 = (r, w2)" by force
  obtain t3 w3 where three: "wk_Now W w2 = (t3, w3)" by force
  have "H del w2" using keptD [OF now_H assms(1)] keptD [OF send_H, of del w1 preq] one two by simp
  then have "H del w3" using keptD [OF now_H, of del w2] three by simp
  moreover have "w' = mt_ObserveProviderLatency W (d_Channel d') (t3 - t) w3"
    using assms(2) two by (simp add: send_def one three preq_def)
  ultimately show ?thesis using keptD [OF latency_H] by simp
qed

lemma deliver_P:
  assumes "H del w" "deliver W msg del w = Some w'"
  shows "P w'"
proof -
  obtain r w1 where one: "wr_GetRequestByID W (d_RequestID del) w = (r, w1)" by force
  have h1: "H del w1" using keptD [OF get_H assms(1), of "d_RequestID del"] one by simp
  show ?thesis
  proof (cases r)
    case (Inl e)
    then show ?thesis using assms(2) one held [OF h1] by (simp add: deliver_def)
  next
    case (Inr req)
    obtain s w2 where two: "send W del (r_Recipient req) (r_RenderedContent req) w1 = (s, w2)" by force
    have h2: "H del w2" by (rule send_keeps_H [OF h1 two])
    show ?thesis
    proof (cases s)
      case (Inl e)
      then show ?thesis using assms(2) one two Inr handleFailure_P [OF h2] by (simp add: deliver_def)
    next
      case inr: (Inr res)
      obtain m w3 where three: "wr_MarkSent W (d_ID del) (d_CreatedAt del) (d_RequestID del) (res_MessageID res) w2 = (m, w3)"
        by force
      have "P w3" using sent [OF h2, of "res_MessageID res"] three by simp
      moreover from this have "P (snd (wk_Now W (mt_IncSent W c p w3)))" for c p
        using keptD [OF metrics_P(1)] keptD [OF now_P] by blast
      ultimately show ?thesis
        using assms(2) one two three Inr inr keptD [OF metrics_P(6)]
        by (auto simp: deliver_def Let_def split_beta split: sum.splits)
    qed
  qed
qed

lemma process_body_P:
  assumes "P w" "process_body W msg w = Some w'"
  shows "P w'"
proof -
  let ?dm = "sm_Delivery msg"
  obtain t w1 where one: "wk_Now W w = (t, w1)" by force
  have p1: "P w1" using keptD [OF now_P assms(1)] one by simp
  obtain r w2 where two: "wr_ClaimDelivery W (m_DeliveryID ?dm) (m_DeliveryCreatedAt ?dm) (t + wc_LeaseTTL (wk_cfg W)) w1 = (r, w2)"
    by force
  show ?thesis
  proof (cases "\<exists>del. r = Inr (Some del)")
    case False
    then have "w' = w2"
      using assms(2) by (auto simp: process_body_def one two Let_def split: sum.splits option.splits)
    then show ?thesis using not_claimed [OF p1 two] False by blast
  next
    case True
    then obtain del where r: "r = Inr (Some del)" by blast
    have h2: "H del w2" using claimed [OF p1] two r by blast
    then show ?thesis
      using assms(2) wait_H [of "m_Channel ?dm" w2] requeue_P deliver_P
      by (auto simp: process_body_def one two r Let_def split: option.splits if_splits) blast+
  qed
qed

lemma process_P:
  assumes "P w" "process W msg w = Some w'"
  shows "P w'"
proof -
  obtain t w1 where one: "wk_Now W w = (t, w1)" by force
  have "P w1" using keptD [OF now_P assms(1)] one by simp
  obtain w2 where two: "process_body W msg w1 = Some w2"
    using assms(2) by (auto simp: process_def one Let_def split: option.splits)
  have p2: "P w2" by (rule process_body_P [OF \<open>P w1\<close> two])
  obtain a w3 where three: "q_Ack W (sm_Stream msg) (sm_ID msg) w2 = (a, w3)" by force
  have "P w3" using keptD [OF ack_P p2, of "sm_Stream msg" "sm_ID msg"] three by simp
  then have "P (snd (wk_Now W w3))" by (rule keptD [OF now_P])
  then show ?thesis
    using assms(2) keptD [OF metrics_P(5)] by (auto simp: process_def one two three split_beta Let_def)
qed

end

section \<open>The worker on PostgreSQL and Redis\<close>

text \<open>The context of \<open>process\<close> is not cancellable, so a wait always runs its course.\<close>

definition sleep_for :: "duration \<Rightarrow> world \<Rightarrow> bool \<times> world" where
  "sleep_for d w = (False, next_tick (w\<lparr>w_time := w_time w + max d 0\<rparr>))"

definition provider_call :: "ProviderRequest \<Rightarrow> world \<Rightarrow> (send_error + ProviderResult) \<times> world" where
  "provider_call p w = (e_send (w_env w) (w_tick w) p, emit (ProviderCalled p) (next_tick w))"

definition pg_worker :: "WorkerConfig \<Rightarrow> Policy \<Rightarrow> (uuid \<Rightarrow> string) \<Rightarrow> world Worker" where
  "pg_worker cfg pol us = newWorker cfg \<lparr>
     wk_cfg = cfg, wk_streams = [], wk_policy = pol,
     q_EnsureGroup = (\<lambda>s. redis_call []),
     q_Read = (\<lambda>consumer streams count block w.
        (case rfault_of w of Some msg \<Rightarrow> Inl (ErrInfra msg) | None \<Rightarrow> Inr (e_read (w_env w) (w_tick w)), next_tick w)),
     q_Ack = (\<lambda>s i. redis_call [Acked s i]),
     wr_GetRequestByID = (\<lambda>i. db_query (\<lambda>flt. GetRequestByID flt i)),
     wr_ClaimDelivery = (\<lambda>i t lease. db_call (\<lambda>flt now. ClaimDelivery flt now i t lease)),
     wr_MarkSent = (\<lambda>i t rid m. db_call (\<lambda>flt now. MarkSent flt now i t rid m)),
     wr_MarkRetrying = (\<lambda>i t n at' m. db_call (\<lambda>flt now. MarkRetrying flt now i t n at' m)),
     wr_MarkFailed = (\<lambda>i t rid n m. db_call (\<lambda>flt now. MarkFailed flt now i t rid n m)),
     pv_Send = provider_call,
     rl_Allow = (\<lambda>c w. (e_allow (w_env w) (w_tick w) c, next_tick w)),
     wk_Now = clock_Now,
     wk_select = sleep_for,
     wk_ctxErr = (\<lambda>w. (e_stop (w_env w) (w_tick w), next_tick w)),
     wk_offer = (\<lambda>m w. if e_stop (w_env w) (w_tick w) then (True, next_tick w)
                        else (False, emit (Offered m) (next_tick w))),
     wk_Float64 = (\<lambda>w. (e_jitter (w_env w) (w_tick w), next_tick w)),
     wk_UUIDString = us,
     mt_IncSent = (\<lambda>c p. emit (CountedSent c p)), mt_IncFailed = (\<lambda>c p. emit (CountedFailed c p)),
     mt_IncRetry = (\<lambda>c p. emit (CountedRetry c p)), mt_IncDLQ = (\<lambda>r. emit (CountedDLQ r)),
     mt_ObserveProviderLatency = (\<lambda>c d w. w), mt_ObserveProcessing = (\<lambda>c p d w. w),
     mt_ObserveE2ELatency = (\<lambda>c p d w. w),
     wk_dlq = Some (\<lambda>m. redis_call [DeadLettered m])\<rparr>"

lemma pg_worker_simps [simp]:
  "wk_cfg (pg_worker cfg pol us) = worker_defaults cfg" "wk_policy (pg_worker cfg pol us) = pol"
  "q_Ack (pg_worker cfg pol us) = (\<lambda>s i. redis_call [Acked s i])"
  "wr_GetRequestByID (pg_worker cfg pol us) = (\<lambda>i. db_query (\<lambda>flt. GetRequestByID flt i))"
  "wr_ClaimDelivery (pg_worker cfg pol us) = (\<lambda>i t lease. db_call (\<lambda>flt now. ClaimDelivery flt now i t lease))"
  "wr_MarkSent (pg_worker cfg pol us) = (\<lambda>i t rid m. db_call (\<lambda>flt now. MarkSent flt now i t rid m))"
  "wr_MarkRetrying (pg_worker cfg pol us) = (\<lambda>i t n at' m. db_call (\<lambda>flt now. MarkRetrying flt now i t n at' m))"
  "wr_MarkFailed (pg_worker cfg pol us) = (\<lambda>i t rid n m. db_call (\<lambda>flt now. MarkFailed flt now i t rid n m))"
  "pv_Send (pg_worker cfg pol us) = provider_call"
  "rl_Allow (pg_worker cfg pol us) = (\<lambda>c w. (e_allow (w_env w) (w_tick w) c, next_tick w))"
  "wk_Now (pg_worker cfg pol us) = clock_Now" "wk_select (pg_worker cfg pol us) = sleep_for"
  "wk_Float64 (pg_worker cfg pol us) = (\<lambda>w. (e_jitter (w_env w) (w_tick w), next_tick w))"
  "wk_UUIDString (pg_worker cfg pol us) = us"
  "mt_IncSent (pg_worker cfg pol us) = (\<lambda>c p. emit (CountedSent c p))"
  "mt_IncFailed (pg_worker cfg pol us) = (\<lambda>c p. emit (CountedFailed c p))"
  "mt_IncRetry (pg_worker cfg pol us) = (\<lambda>c p. emit (CountedRetry c p))"
  "mt_IncDLQ (pg_worker cfg pol us) = (\<lambda>r. emit (CountedDLQ r))"
  "mt_ObserveProviderLatency (pg_worker cfg pol us) = (\<lambda>c d w. w)"
  "mt_ObserveProcessing (pg_worker cfg pol us) = (\<lambda>c p d w. w)"
  "mt_ObserveE2ELatency (pg_worker cfg pol us) = (\<lambda>c p d w. w)"
  "wk_dlq (pg_worker cfg pol us) = Some (\<lambda>m. redis_call [DeadLettered m])"
  by (simp_all add: pg_worker_def newWorker_def)

lemma worker_defaults_pos:
  "0 < wc_Concurrency (worker_defaults cfg)" "0 < wc_BatchSize (worker_defaults cfg)"
  "0 < wc_RateWaitStep (worker_defaults cfg)" "0 < wc_RateWaitMax (worker_defaults cfg)"
  by (simp_all add: worker_defaults_def Let_def Millisecond_def Second_def)

interpretation pg_timed: timed_worker "pg_worker cfg pol us" w_time for cfg pol us
  by unfold_locales (auto simp: clock_Now_def sleep_for_def)

text \<open>
  A claimed delivery: its row is in processing.  The other processes respect the lease when they
  keep the invariant and leave rows in processing alone.
\<close>

definition held_row :: "store \<Rightarrow> Delivery \<Rightarrow> bool" where
  "held_row st del \<longleftrightarrow> (\<exists>d\<in>set (deliveries st). d_key d = d_key del \<and> d_Status d = DeliveryProcessing
     \<and> d_RequestID d = d_RequestID del)"

definition lease_ok :: "env \<Rightarrow> bool" where
  "lease_ok E \<longleftrightarrow> (\<forall>n st. store_inv st \<longrightarrow> store_inv (e_others E n st)
     \<and> (\<forall>del. held_row st del \<longrightarrow> held_row (e_others E n st) del))"

definition wk_good :: "world \<Rightarrow> bool" where
  "wk_good w \<longleftrightarrow> store_inv (w_db w) \<and> lease_ok (w_env w)"

definition wk_held :: "Delivery \<Rightarrow> world \<Rightarrow> bool" where
  "wk_held del w \<longleftrightarrow> wk_good w \<and> held_row (w_db w) del \<and> timestamptz (d_CreatedAt del) = d_CreatedAt del"

lemma wk_before:
  assumes "wk_good w"
  shows "store_inv (before w)" "held_row (w_db w) del \<Longrightarrow> held_row (before w) del"
  using assms by (auto simp: wk_good_def lease_ok_def before_def)

lemma held_row_owns:
  assumes "wf_store st" "held_row st del" "timestamptz (d_CreatedAt del) = d_CreatedAt del"
    "d \<in> set (deliveries st)" "at_key (d_ID del) (d_CreatedAt del) d"
  shows "d_RequestID d = d_RequestID del" "d_Status d = DeliveryProcessing"
proof -
  obtain x where x: "x \<in> set (deliveries st)" "d_key x = d_key del" "d_Status x = DeliveryProcessing"
    "d_RequestID x = d_RequestID del"
    using assms(2) by (auto simp: held_row_def)
  have "d_key d = d_key x" using assms(3,5) x(2) by (simp add: at_key_eq d_key_def)
  then have "d = x" using assms(1,4) x(1) by (auto simp: wf_store_def intro: distinct_key_unique)
  with x show "d_RequestID d = d_RequestID del" "d_Status d = DeliveryProcessing" by simp_all
qed

lemma kept_local:
  assumes "\<And>w. w_db (f w) = w_db w" "\<And>w. w_env (f w) = w_env w"
  shows "kept wk_good f" "kept (wk_held del) f"
  using assms by (simp_all add: kept_def wk_good_def wk_held_def)

lemma wk_query_held: "wk_held del w \<Longrightarrow> wk_held del (snd (db_query f w))"
  using wk_before [of w] by (simp add: wk_held_def wk_good_def)

lemma wk_call_good:
  "wk_good w \<Longrightarrow> (\<And>flt now. store_inv (snd (f flt now (before w)))) \<Longrightarrow> wk_good (snd (db_call f w))"
  by (simp add: wk_good_def)

lemma wk_marks:
  assumes "wk_held del w"
  shows "wk_good (snd (db_call (\<lambda>flt now. MarkSent flt now (d_ID del) (d_CreatedAt del) (d_RequestID del) m) w))"
    "wk_good (snd (db_call (\<lambda>flt now. MarkFailed flt now (d_ID del) (d_CreatedAt del) (d_RequestID del) n m) w))"
    "wk_good (snd (db_call (\<lambda>flt now. MarkRetrying flt now (d_ID del) (d_CreatedAt del) n t m) w))"
proof -
  have good: "wk_good w" and row: "held_row (w_db w) del" and ts: "timestamptz (d_CreatedAt del) = d_CreatedAt del"
    using assms by (simp_all add: wk_held_def)
  have inv: "store_inv (before w)" and row: "held_row (before w) del" using wk_before [OF good] row by auto
  note own = held_row_owns [OF store_invD(1) [OF inv] row ts]
  have owns: "owns (before w) (d_ID del) (d_CreatedAt del) (d_RequestID del)"
    using own(1) by (simp add: owns_def)
  have live: "\<forall>d\<in>set (deliveries (before w)). at_key (d_ID del) (d_CreatedAt del) d \<longrightarrow> \<not> IsTerminal (d_Status d)"
    using own(2) by auto
  show "wk_good (snd (db_call (\<lambda>flt now. MarkSent flt now (d_ID del) (d_CreatedAt del) (d_RequestID del) m) w))"
    by (intro wk_call_good good MarkSent_inv inv owns)
  show "wk_good (snd (db_call (\<lambda>flt now. MarkFailed flt now (d_ID del) (d_CreatedAt del) (d_RequestID del) n m) w))"
    by (intro wk_call_good good MarkFailed_inv inv owns)
  show "wk_good (snd (db_call (\<lambda>flt now. MarkRetrying flt now (d_ID del) (d_CreatedAt del) n t m) w))"
    by (intro wk_call_good good MarkRetrying_inv inv live)
qed

lemma wk_claim_good: "wk_good w \<Longrightarrow> wk_good (snd (db_call (\<lambda>flt now. ClaimDelivery flt now i t lease) w))"
  by (intro wk_call_good ClaimDelivery_inv wk_before)

lemma claimed_held:
  assumes claim: "db_call (\<lambda>flt now. ClaimDelivery flt now i t lease) w = (Inr (Some del), w')"
  shows "held_row (w_db w') del \<and> timestamptz (d_CreatedAt del) = d_CreatedAt del"
proof -
  let ?p = "\<lambda>d. at_key i t d \<and> claimable (d_Status d)"
  have res: "ClaimDelivery (fault_of w) (now_of w) i t lease (before w) = (Inr (Some del), w_db w')"
    using claim by (auto simp: db_call_eq prod_eq_iff)
  obtain d0 where d0: "find_row ?p (deliveries (before w)) = Some d0" and del: "del = claimed_row (now_of w) lease d0"
    and st': "w_db w' = (before w)\<lparr>deliveries := upd_where ?p (claimed_row (now_of w) lease) (deliveries (before w))\<rparr>"
    using res by (auto simp: ClaimDelivery_eq Let_def split: option.splits)
  have d0': "d0 \<in> set (deliveries (before w))" "?p d0" using find_row_Some [OF d0] by auto
  then have "del \<in> set (deliveries (w_db w'))" by (auto simp: st' del set_upd_where)
  then have "held_row (w_db w') del" by (auto simp: held_row_def del claimed_row_def)
  moreover have "timestamptz (d_CreatedAt del) = d_CreatedAt del"
    using d0'(2) by (simp add: del claimed_row_def at_key_def)
  ultimately show ?thesis ..
qed

lemma wk_claim_held:
  assumes good: "wk_good w" and claim: "db_call (\<lambda>flt now. ClaimDelivery flt now i t lease) w = (Inr (Some del), w')"
  shows "wk_held del w'"
  using claimed_held [OF claim] wk_claim_good [OF good, of i t lease] claim by (simp add: wk_held_def)

lemma wk_held_good: "wk_held del w \<Longrightarrow> wk_good w"
  by (simp add: wk_held_def)

lemma wk_kept:
  "kept wk_good (\<lambda>w. snd (clock_Now w))" "kept (wk_held del) (\<lambda>w. snd (clock_Now w))"
  "kept (wk_held del) next_tick" "kept (wk_held del) (\<lambda>w. snd (sleep_for d w))"
  "kept (wk_held del) (\<lambda>w. snd (provider_call p w))"
  "kept wk_good (\<lambda>w. snd (redis_call evs w))" "kept wk_good (emit e)"
  by (rule kept_local; simp add: sleep_for_def provider_call_def)+

lemma wk_kept_more: "kept (wk_held del) (\<lambda>w. snd (db_query f w))" "kept P (\<lambda>w. w)"
  by (simp_all add: kept_def wk_query_held)

interpretation pg_keeps: worker_keeps "pg_worker cfg pol us" wk_good wk_held for cfg pol us
proof (unfold_locales, goal_cases)
  case (1 del w)
  then show ?case by (rule wk_held_good)
next
  case (2 w i t lease del w')
  then show ?case using wk_claim_held by simp
next
  case (3 w i t lease res w')
  then show ?case using wk_claim_good [of w i t lease] by simp
next
  case (16 publish dm)
  then have "publish = (\<lambda>m. redis_call [DeadLettered m])" by simp
  then show ?case by (simp add: wk_kept)
qed (simp_all add: wk_kept wk_kept_more wk_marks)

sublocale worker_keeps \<subseteq> waiting: rate_keeps W "H del" for del
  by unfold_locales (rule now_H allow_H select_H)+

section \<open>Properties of the worker\<close>


lemma EvaluateFailure_total:
  assumes "0 \<le> n"
  shows "\<exists>out. EvaluateFailure p u now n e = Some out"
proof -
  have "backoffFor p u (n + 1) \<noteq> None"
    using assms by (cases "Backoff p") (auto simp: backoffFor_def Let_def)
  then show ?thesis by (auto simp: EvaluateFailure_def Let_def split: option.splits)
qed

lemma deliver_returns:
  assumes "0 \<le> d_AttemptCount del"
  shows "\<exists>w'. deliver W msg del w = Some w'"
proof -
  have "\<exists>w'. handleFailure W del msg e w = Some w'" for e w
  proof -
    obtain etext perr where e: "e = (etext, perr)" by force
    obtain t w1 where one: "wk_Now W w = (t, w1)" by force
    obtain u w2 where two: "wk_Float64 W w1 = (u, w2)" by force
    obtain t3 w3 where three: "wk_Now W w2 = (t3, w3)" by force
    obtain out where "EvaluateFailure (wk_policy W) u t (d_AttemptCount del) perr = Some out"
      using EvaluateFailure_total [OF assms] by blast
    then show ?thesis by (simp add: handleFailure_def e one two three Let_def)
  qed
  then show ?thesis by (auto simp: deliver_def split: prod.splits sum.splits)
qed

lemma claimed_attempts:
  assumes "db_call (\<lambda>flt now. ClaimDelivery flt now i t lease) w = (Inr (Some del), w')"
  shows "\<exists>d\<in>set (deliveries (before w)). at_key i t d \<and> d_AttemptCount del = d_AttemptCount d"
  using assms
  by (auto simp: db_call_eq ClaimDelivery_eq claimed_row_def Let_def split: option.splits dest!: find_row_Some)

lemma process_total:
  assumes "\<And>n d. d \<in> set (deliveries (e_others (w_env w) n (w_db w))) \<Longrightarrow>
    at_key (m_DeliveryID (sm_Delivery msg)) (m_DeliveryCreatedAt (sm_Delivery msg)) d \<Longrightarrow> 0 \<le> d_AttemptCount d"
  shows "\<exists>w'. process (pg_worker cfg pol us) msg w = Some w'"
proof -
  let ?W = "pg_worker cfg pol us" and ?dm = "sm_Delivery msg"
  obtain t w1 where one: "clock_Now w = (t, w1)" by force
  obtain t2 w2 where two: "clock_Now w1 = (t2, w2)" by force
  obtain r w3 where three: "db_call (\<lambda>flt now. ClaimDelivery flt now (m_DeliveryID ?dm) (m_DeliveryCreatedAt ?dm)
      (t2 + wc_LeaseTTL (worker_defaults cfg))) w2 = (r, w3)"
    by force
  have same: "w_db w2 = w_db w" "w_env w2 = w_env w" using one two by (auto simp: clock_Now_def)
  have pos: "0 < wc_RateWaitStep (wk_cfg ?W)" by (simp add: worker_defaults_pos)
  have body: "\<exists>w'. process_body ?W msg w1 = Some w'"
  proof (cases "\<exists>del. r = Inr (Some del)")
    case True
    then obtain del where r: "r = Inr (Some del)" by blast
    have "0 \<le> d_AttemptCount del"
      using claimed_attempts [OF three [unfolded r]] assms by (auto simp: before_def same)
    then have "\<exists>w'. deliver ?W msg del w4 = Some w'" for w4 by (rule deliver_returns)
    moreover obtain ok w4 where "waitForRateLimit ?W (m_Channel ?dm) w3 = Some (ok, w4)"
      using pg_timed.waitForRateLimit_returns [OF pos] by blast
    ultimately show ?thesis by (cases ok) (simp_all add: process_body_def two three r)
  next
    case False
    then show ?thesis by (auto simp: process_body_def two three split: sum.splits option.splits)
  qed
  then show ?thesis by (auto simp: process_def one Let_def split_beta)
qed

text \<open>
  C35. Processing always returns: whatever the limiter, the provider and the drivers answer, the
  rate-limit wait is bounded and no path panics, as long as no stored attempt count is negative.
\<close>

theorem process_returns:
  assumes "\<forall>n. \<forall>d\<in>set (deliveries (e_others (w_env w) n (w_db w))). 0 \<le> d_AttemptCount d"
  shows "\<exists>w'. process (pg_worker cfg pol us) msg w = Some w'"
  using assms by (intro process_total) blast

end
