(* ===== verification/Worker_Outcome.thy ===== *)
theory Worker_Outcome
  imports Worker_Props
begin

text \<open>
  What one run of the pipeline does to the outside: at most one call of the provider and only
  under a claim, and the delivery left in the state the provider's answer asks for.
\<close>

section \<open>Calls of the provider\<close>

fun called :: "event \<Rightarrow> ProviderRequest list" where
  "called (ProviderCalled p) = [p]"
| "called _ = []"

definition calls :: "world \<Rightarrow> ProviderRequest list" where
  "calls w = concat (map called (w_events w))"

lemma calls_simps [simp]:
  "calls (next_tick w) = calls w" "calls (snd (db_call f w)) = calls w" "calls (snd (db_query g w)) = calls w"
  "calls (snd (clock_Now w)) = calls w" "calls (snd (sleep_for d w)) = calls w" "calls (emit e w) = calls w @ called e"
  "calls (w\<lparr>w_db := st\<rparr>) = calls w"
  by (simp_all add: calls_def sleep_for_def)

lemma calls_redis [simp]: "\<forall>e\<in>set evs. called e = [] \<Longrightarrow> calls (snd (redis_call evs w)) = calls w"
  by (simp add: calls_def redis_call_def split: option.split)

interpretation calls_wait: rate_keeps "pg_worker cfg pol us" "\<lambda>w. calls w = cs" for cfg pol us cs
  by unfold_locales (simp_all add: kept_def)

lemma requeue_calls [simp]: "calls (requeueWithoutAttempt (pg_worker cfg pol us) del reason w) = calls w"
  by (simp add: requeueWithoutAttempt_def split_beta Let_def)

lemma publishDLQ_calls [simp]: "calls (publishDLQ (pg_worker cfg pol us) msg n e w) = calls w"
proof -
  obtain t w1 where one: "clock_Now w = (t, w1)" by force
  have w1: "calls w1 = calls w" using one by (metis calls_simps(4) snd_conv)
  define dm where "dm = \<lparr>dlq_Original = sm_Delivery msg, dlq_Reason = dlq_reason n, dlq_Error = e,
    dlq_AttemptCount = n, dlq_Stream = sm_Stream msg, dlq_EntryID = sm_ID msg, dlq_Timestamp = t\<rparr>"
  obtain r w2 where two: "redis_call [DeadLettered dm] w1 = (r, w2)" by force
  have "calls w2 = calls w1" using calls_redis [of "[DeadLettered dm]" w1] two by simp
  then show ?thesis using two w1 by (simp add: publishDLQ_def one dm_def split: sum.split)
qed

lemma handleFailure_calls:
  assumes "handleFailure (pg_worker cfg pol us) del msg err w = Some w'"
  shows "calls w' = calls w"
proof -
  obtain etext perr where err: "err = (etext, perr)" by force
  obtain t w1 where one: "clock_Now w = (t, w1)" by force
  define w2 where "w2 = next_tick w1"
  obtain t3 w3 where three: "clock_Now w2 = (t3, w3)" by force
  have c: "calls w2 = calls w" "calls w3 = calls w"
    using one three by (metis calls_simps(1,4) snd_conv w2_def)+
  show ?thesis
  proof (cases "case perr of None \<Rightarrow> False | Some e \<Rightarrow> pe_BreakerOpen e")
    case True
    then show ?thesis using assms by (auto simp: handleFailure_def err)
  next
    case False
    then obtain out where "EvaluateFailure pol (e_jitter (w_env w1) (w_tick w1)) t (d_AttemptCount del) perr = Some out"
      using assms by (auto simp: handleFailure_def err one Let_def split: option.splits)
    then show ?thesis
      using assms False c
      by (auto simp: handleFailure_def err one three Let_def db_call_eq simp flip: w2_def
          split: if_splits sum.splits option.splits)
  qed
qed

definition provider_request :: "(uuid \<Rightarrow> string) \<Rightarrow> Delivery \<Rightarrow> Request \<Rightarrow> ProviderRequest" where
  "provider_request us del req = \<lparr>pr_DeliveryID = us (d_ID del), pr_To = r_Recipient req,
     pr_Channel = d_Channel del, pr_Content = r_RenderedContent req\<rparr>"

lemma send_calls:
  assumes "send (pg_worker cfg pol us) del (r_Recipient req) (r_RenderedContent req) w = (res, w')"
  shows "calls w' = calls w @ [provider_request us del req]"
  using assms
  by (auto simp: send_def provider_call_def provider_request_def clock_Now_def split_beta Let_def)

lemma deliver_calls_at:
  assumes run: "deliver (pg_worker cfg pol us) msg del w = Some w'"
    and get: "db_query (\<lambda>flt. GetRequestByID flt (d_RequestID del)) w = (Inr req, w1)"
  shows "calls w' = calls w @ [provider_request us del req]"
proof -
  obtain s w2 where two: "send (pg_worker cfg pol us) del (r_Recipient req) (r_RenderedContent req) w1 = (s, w2)" by force
  have "calls w1 = calls w" using get by (metis calls_simps(3) snd_conv)
  then have c2: "calls w2 = calls w @ [provider_request us del req]" using send_calls [OF two] by simp
  have "calls w' = calls w2"
  proof (cases s)
    case (Inl e)
    then show ?thesis using run two handleFailure_calls by (simp add: deliver_def get)
  next
    case (Inr res)
    then show ?thesis
      using run two by (auto simp: deliver_def get db_call_eq clock_Now_def Let_def split: sum.splits)
  qed
  with c2 show ?thesis by simp
qed

lemma deliver_calls:
  assumes "deliver (pg_worker cfg pol us) msg del w = Some w'"
  shows "calls w' = calls w
    \<or> (\<exists>req. GetRequestByID None (d_RequestID del) (before w) = Inr req \<and> calls w' = calls w @ [provider_request us del req])"
proof -
  let ?w1 = "next_tick (w\<lparr>w_db := before w\<rparr>)"
  have get: "db_query (\<lambda>flt. GetRequestByID flt (d_RequestID del)) w
      = (GetRequestByID (fault_of w) (d_RequestID del) (before w), ?w1)"
    by (rule db_query_eq)
  show ?thesis
  proof (cases "GetRequestByID (fault_of w) (d_RequestID del) (before w)")
    case (Inl e)
    then show ?thesis using assms by (auto simp: deliver_def get)
  next
    case (Inr req)
    then have "fault_of w = None" by (cases "fault_of w") (simp_all add: GetRequestByID_def scanRequest_def)
    with Inr deliver_calls_at [OF assms, of req ?w1] get show ?thesis by auto
  qed
qed



section \<open>The recorded outcome\<close>

text \<open>An environment without faults in which no other process interferes.\<close>

definition calm :: "env \<Rightarrow> bool" where
  "calm E \<longleftrightarrow> (\<forall>k. e_fault E k = None) \<and> (\<forall>k st. e_others E k st = st)"

lemma calm_simps [simp]: "calm (w_env w) \<Longrightarrow> before w = w_db w" "calm (w_env w) \<Longrightarrow> fault_of w = None"
  by (simp_all add: calm_def before_def fault_of_def)

text \<open>The row of a delivery after a mark, and that no mark of an existing row fails.\<close>

lemma find_at_key:
  assumes "wf_store st" "d \<in> set (deliveries st)" "at_key i t d"
  shows "find_row (at_key i t) (deliveries st) = Some d"
proof -
  have "distinct (map d_key (deliveries st))" using assms(1) by (simp add: wf_store_def)
  from find_row_key [OF this assms(2)] show ?thesis using assms(3) by (simp add: at_key_eq [abs_def])
qed

lemma at_key_unique:
  assumes "wf_store st" "d0 \<in> set (deliveries st)" "at_key i t d0" "d \<in> set (deliveries st)" "at_key i t d"
  shows "d = d0"
  using assms distinct_key_unique [of d_key "deliveries st" d d0] by (simp add: wf_store_def at_key_eq)

lemma find_claimable:
  assumes wf: "wf_store st" and d0: "d0 \<in> set (deliveries st)" "at_key i t d0" and c: "claimable (d_Status d0)"
  shows "find_row (\<lambda>d. at_key i t d \<and> claimable (d_Status d)) (deliveries st) = Some d0"
proof (cases "find_row (\<lambda>d. at_key i t d \<and> claimable (d_Status d)) (deliveries st)")
  case None
  then show ?thesis using d0 c by (auto simp: find_row_None)
next
  case (Some x)
  then show ?thesis using find_row_Some [OF Some] at_key_unique [OF wf d0] by blast
qed

lemma marked_row:
  assumes wf: "wf_store st" and d: "d \<in> set (deliveries st)" "at_key i t d"
    and f: "\<And>x. d_key (f x) = d_key x \<and> d_RequestID (f x) = d_RequestID x"
  shows "find_row (at_key i t) (upd_where (at_key i t) f (deliveries st)) = Some (f d)"
proof -
  let ?st = "st\<lparr>deliveries := upd_where (at_key i t) f (deliveries st)\<rparr>"
  have "wf_store ?st" using wf f by (intro wf_upd_deliveries) auto
  moreover have "f d \<in> set (deliveries ?st)" using d by (auto simp: set_upd_where)
  moreover have "at_key i t (f d)" using d(2) f [of d] by (simp add: at_key_eq)
  ultimately show ?thesis using find_at_key [of ?st "f d" i t] by simp
qed

lemma mark_tx_outcome:
  assumes wf: "wf_store st" and d: "d \<in> set (deliveries st)" "at_key i t d"
    and f: "\<And>x. d_key (f x) = d_key x \<and> d_RequestID (f x) = d_RequestID x"
    and run: "withTx None (\<lambda>st. let st1 = st\<lparr>deliveries := upd_where (at_key i t) f (deliveries st)\<rparr>
       in map_sum id (Pair ()) (recomputeRequestStatusTx (d_RequestID d) st1)) st = (res, st')"
  shows "res = Inr () \<and> GetDelivery None i t st' = Inr (f d)"
proof -
  let ?st1 = "st\<lparr>deliveries := upd_where (at_key i t) f (deliveries st)\<rparr>"
  have "distinct (map r_ID (requests ?st1))" "d_RequestID d \<in> r_ID ` set (requests ?st1)"
    using wf d by (auto simp: wf_store_def)
  then obtain st2 where st2: "recomputeRequestStatusTx (d_RequestID d) ?st1 = Inr st2" by (rule recompute_total)
  have "res = Inr ()" "st' = st2" using run st2 by (simp_all add: withTx_def Let_def)
  moreover have "deliveries st2 = deliveries ?st1" using st2 by (rule recompute_frame)
  ultimately show ?thesis using marked_row [OF wf d f] by (simp add: GetDelivery_eq)
qed

definition sent_row :: "gotime \<Rightarrow> string \<Rightarrow> Delivery \<Rightarrow> Delivery" where
  "sent_row now m d = d\<lparr>d_Status := DeliverySent, d_ProviderMessageID := Some m, d_LastError := None,
     d_LockedUntil := None, d_UpdatedAt := now\<rparr>"

definition retrying_row :: "gotime \<Rightarrow> int \<Rightarrow> gotime \<Rightarrow> string \<Rightarrow> Delivery \<Rightarrow> Delivery" where
  "retrying_row now n t m d = d\<lparr>d_Status := DeliveryRetrying, d_AttemptCount := n,
     d_NextRetryAt := Some (timestamptz t), d_LastError := Some m, d_LockedUntil := None, d_UpdatedAt := now\<rparr>"

definition failed_row :: "gotime \<Rightarrow> int \<Rightarrow> string \<Rightarrow> Delivery \<Rightarrow> Delivery" where
  "failed_row now n m d = d\<lparr>d_Status := DeliveryFailed, d_AttemptCount := n, d_LastError := Some m,
     d_LockedUntil := None, d_UpdatedAt := now\<rparr>"

lemma row_frame:
  "d_key (sent_row now m d) = d_key d \<and> d_RequestID (sent_row now m d) = d_RequestID d"
  "d_key (retrying_row now n t m d) = d_key d \<and> d_RequestID (retrying_row now n t m d) = d_RequestID d"
  "d_key (failed_row now n m d) = d_key d \<and> d_RequestID (failed_row now n m d) = d_RequestID d"
  by (simp_all add: sent_row_def retrying_row_def failed_row_def d_key_def)

lemma mark_outcomes:
  assumes wf: "wf_store st" and d: "d \<in> set (deliveries st)" "at_key i t d"
  shows "MarkSent None now i t (d_RequestID d) m st = (res, st') \<Longrightarrow>
      res = Inr () \<and> GetDelivery None i t st' = Inr (sent_row now m d)"
    and "MarkFailed None now i t (d_RequestID d) n m st = (res, st') \<Longrightarrow>
      res = Inr () \<and> GetDelivery None i t st' = Inr (failed_row now n m d)"
    and "MarkRetrying None now i t n s m st = (res, st') \<Longrightarrow>
      res = Inr () \<and> GetDelivery None i t st' = Inr (retrying_row now n s m d)"
proof -
  show "res = Inr () \<and> GetDelivery None i t st' = Inr (sent_row now m d)"
    if "MarkSent None now i t (d_RequestID d) m st = (res, st')"
    by (rule mark_tx_outcome [OF wf d row_frame(1)]) (use that in \<open>simp add: MarkSent_def sent_row_def\<close>)
  show "res = Inr () \<and> GetDelivery None i t st' = Inr (failed_row now n m d)"
    if "MarkFailed None now i t (d_RequestID d) n m st = (res, st')"
    by (rule mark_tx_outcome [OF wf d row_frame(3)]) (use that in \<open>simp add: MarkFailed_def failed_row_def\<close>)
  show "res = Inr () \<and> GetDelivery None i t st' = Inr (retrying_row now n s m d)"
    if "MarkRetrying None now i t n s m st = (res, st')"
    using that marked_row [OF wf d, of "retrying_row now n s m", OF row_frame(2)]
    by (auto simp: MarkRetrying_def GetDelivery_eq retrying_row_def [abs_def])
qed


text \<open>The delivery row at the end of a run, in a calm environment.\<close>

definition row_at :: "Delivery \<Rightarrow> world \<Rightarrow> Delivery option" where
  "row_at del w = find_row (at_key (d_ID del) (d_CreatedAt del)) (deliveries (w_db w))"

text \<open>What the worker holds while it processes \<open>del\<close>: the claimed row itself.\<close>

definition processing :: "Delivery \<Rightarrow> store \<Rightarrow> world \<Rightarrow> bool" where
  "processing del st w \<longleftrightarrow> calm (w_env w) \<and> w_db w = st \<and> wf_store st \<and> del \<in> set (deliveries st)
     \<and> at_key (d_ID del) (d_CreatedAt del) del"

interpretation processing_wait: rate_keeps "pg_worker cfg pol us" "\<lambda>w. processing del st w \<and> w_env w = E"
  for cfg pol us del st E
  by unfold_locales (auto simp: kept_def processing_def sleep_for_def)

lemma processing_marks:
  assumes "processing del st w"
  shows "\<exists>now w'. db_call (\<lambda>flt now. MarkSent flt now (d_ID del) (d_CreatedAt del) (d_RequestID del) m) w = (Inr (), w')
      \<and> row_at del w' = Some (sent_row now m del)"
    and "\<exists>now w'. db_call (\<lambda>flt now. MarkFailed flt now (d_ID del) (d_CreatedAt del) (d_RequestID del) n m) w = (Inr (), w')
      \<and> row_at del w' = Some (failed_row now n m del)"
    and "\<exists>now w'. db_call (\<lambda>flt now. MarkRetrying flt now (d_ID del) (d_CreatedAt del) n s m) w = (Inr (), w')
      \<and> row_at del w' = Some (retrying_row now n s m del)"
proof -
  have c: "calm (w_env w)" "w_db w = st" "wf_store st" "del \<in> set (deliveries st)" "at_key (d_ID del) (d_CreatedAt del) del"
    using assms by (simp_all add: processing_def)
  have row: "GetDelivery None (d_ID del) (d_CreatedAt del) st' = Inr x \<Longrightarrow> w_db w' = st' \<Longrightarrow> row_at del w' = Some x" for st' x w'
    by (simp add: GetDelivery_eq row_at_def split: option.splits)
  note o = mark_outcomes [OF c(3-5)]
  show "\<exists>now w'. db_call (\<lambda>flt now. MarkSent flt now (d_ID del) (d_CreatedAt del) (d_RequestID del) m) w = (Inr (), w')
      \<and> row_at del w' = Some (sent_row now m del)"
    using o(1) [of "now_of w" m] c(1,2) row by (cases "MarkSent None (now_of w) (d_ID del) (d_CreatedAt del) (d_RequestID del) m st")
      (fastforce simp: db_call_eq)
  show "\<exists>now w'. db_call (\<lambda>flt now. MarkFailed flt now (d_ID del) (d_CreatedAt del) (d_RequestID del) n m) w = (Inr (), w')
      \<and> row_at del w' = Some (failed_row now n m del)"
    using o(2) [of "now_of w" n m] c(1,2) row by (cases "MarkFailed None (now_of w) (d_ID del) (d_CreatedAt del) (d_RequestID del) n m st")
      (fastforce simp: db_call_eq)
  show "\<exists>now w'. db_call (\<lambda>flt now. MarkRetrying flt now (d_ID del) (d_CreatedAt del) n s m) w = (Inr (), w')
      \<and> row_at del w' = Some (retrying_row now n s m del)"
    using o(3) [of "now_of w" n s m] c(1,2) row by (cases "MarkRetrying None (now_of w) (d_ID del) (d_CreatedAt del) n s m st")
      (fastforce simp: db_call_eq)
qed

lemma row_at_frame [simp]:
  "row_at del (emit e w) = row_at del w" "row_at del (next_tick w) = row_at del w"
  "row_at del (snd (redis_call evs w)) = row_at del w" "row_at del (snd (clock_Now w)) = row_at del w"
  by (simp_all add: row_at_def)

lemma row_at_publishDLQ [simp]: "row_at del (publishDLQ (pg_worker cfg pol us) msg n e w) = row_at del w"
proof -
  obtain t w1 where one: "clock_Now w = (t, w1)" by force
  define dm where "dm = \<lparr>dlq_Original = sm_Delivery msg, dlq_Reason = dlq_reason n, dlq_Error = e,
    dlq_AttemptCount = n, dlq_Stream = sm_Stream msg, dlq_EntryID = sm_ID msg, dlq_Timestamp = t\<rparr>"
  obtain r w2 where two: "redis_call [DeadLettered dm] w1 = (r, w2)" by force
  have "row_at del w2 = row_at del w1" using row_at_frame(3) [of del "[DeadLettered dm]" w1] two by simp
  moreover have "row_at del w1 = row_at del w" using one by (metis row_at_frame(4) snd_conv)
  ultimately show ?thesis using two by (simp add: publishDLQ_def one dm_def split: sum.split)
qed

text \<open>The cases of the outcome: requeued without an attempt, sent, or what the policy decided.\<close>

definition requeued :: "Delivery \<Rightarrow> Delivery \<Rightarrow> bool" where
  "requeued del d \<longleftrightarrow> d_Status d = DeliveryRetrying \<and> d_AttemptCount d = d_AttemptCount del"

definition sent_as :: "Delivery \<Rightarrow> ProviderResult \<Rightarrow> Delivery \<Rightarrow> bool" where
  "sent_as del res d \<longleftrightarrow> d_Status d = DeliverySent \<and> d_ProviderMessageID d = Some (res_MessageID res)
     \<and> d_AttemptCount d = d_AttemptCount del \<and> d_LastError d = None"

definition judged :: "Policy \<Rightarrow> Delivery \<Rightarrow> send_error \<Rightarrow> Delivery \<Rightarrow> bool" where
  "judged pol del err d \<longleftrightarrow> (\<exists>u now out.
     EvaluateFailure pol u now (d_AttemptCount del) (snd err) = Some out \<and> d_Status d = out_Status out
   \<and> d_AttemptCount d = out_AttemptCount out \<and> d_LastError d = Some (fst err)
   \<and> (\<forall>t. out_NextRetryAt out = Some t \<longrightarrow> d_NextRetryAt d = Some (timestamptz t)))"

definition breaker_open :: "send_error \<Rightarrow> bool" where
  "breaker_open err = (case snd err of None \<Rightarrow> False | Some e \<Rightarrow> pe_BreakerOpen e)"

lemma processing_next: "processing del st w \<Longrightarrow> processing del st (next_tick w)"
  by (simp add: processing_def)

lemma processing_clock: "clock_Now w = (t, w') \<Longrightarrow> processing del st w \<Longrightarrow> processing del st w'"
  by (auto simp: processing_def clock_Now_def)

lemma requeue_outcome:
  assumes "processing del st w"
  shows "\<exists>d. row_at del (requeueWithoutAttempt (pg_worker cfg pol us) del reason w) = Some d \<and> requeued del d"
proof -
  obtain t w1 where one: "clock_Now w = (t, w1)" by force
  have p: "processing del st w1" by (rule processing_clock [OF one assms])
  obtain now w' where "db_call (\<lambda>flt now. MarkRetrying flt now (d_ID del) (d_CreatedAt del) (d_AttemptCount del)
      (t + wc_RateWaitStep (worker_defaults cfg)) reason) w1 = (Inr (), w')"
    "row_at del w' = Some (retrying_row now (d_AttemptCount del) (t + wc_RateWaitStep (worker_defaults cfg)) reason del)"
    using processing_marks(3) [OF p] by blast
  then show ?thesis by (simp add: requeueWithoutAttempt_def one requeued_def retrying_row_def)
qed

lemma EvaluateFailure_status:
  "EvaluateFailure p u now n e = Some out \<Longrightarrow>
     out_Status out = DeliveryFailed \<and> out_NextRetryAt out = None \<or> out_Status out = DeliveryRetrying \<and> out_NextRetryAt out \<noteq> None"
  by (auto simp: EvaluateFailure_def Let_def split: option.splits if_splits)

lemma handleFailure_outcome:
  assumes p: "processing del st w" and run: "handleFailure (pg_worker cfg pol us) del msg err w = Some w'"
  shows "\<exists>d. row_at del w' = Some d \<and> (if breaker_open err then requeued del d else judged pol del err d)"
proof -
  obtain etext perr where err: "err = (etext, perr)" by force
  obtain t w1 where one: "clock_Now w = (t, w1)" by force
  define w2 where "w2 = next_tick w1"
  obtain t3 w3 where three: "clock_Now w2 = (t3, w3)" by force
  have p2: "processing del st w2" using processing_next processing_clock [OF one p] by (simp add: w2_def)
  have p3: "processing del st w3" by (rule processing_clock [OF three p2])
  show ?thesis
  proof (cases "breaker_open err")
    case True
    then have "w' = requeueWithoutAttempt (pg_worker cfg pol us) del ''circuit breaker open'' w"
      using run by (simp add: handleFailure_def err breaker_open_def split: option.splits)
    then show ?thesis using requeue_outcome [OF p] True by simp
  next
    case False
    then have nb: "\<not> (case perr of None \<Rightarrow> False | Some e \<Rightarrow> pe_BreakerOpen e)" by (simp add: breaker_open_def err)
    define u where "u = e_jitter (w_env w1) (w_tick w1)"
    obtain out where out: "EvaluateFailure pol u t (d_AttemptCount del) perr = Some out"
      using run nb by (auto simp: handleFailure_def err one u_def Let_def split: option.splits)
    show ?thesis
    proof (cases "out_Status out = DeliveryFailed")
      case True
      obtain now wf where "db_call (\<lambda>flt now. MarkFailed flt now (d_ID del) (d_CreatedAt del) (d_RequestID del)
          (out_AttemptCount out) etext) w2 = (Inr (), wf)" "row_at del wf = Some (failed_row now (out_AttemptCount out) etext del)"
        using processing_marks(2) [OF p2] by blast
      then have "row_at del w' = Some (failed_row now (out_AttemptCount out) etext del)"
        using run nb out True by (auto simp: handleFailure_def err one Let_def simp flip: w2_def u_def)
      moreover have "judged pol del err (failed_row now (out_AttemptCount out) etext del)"
        using out True EvaluateFailure_status [OF out] unfolding judged_def err
        by (intro exI [of _ u] exI [of _ t] exI [of _ out]) (auto simp: failed_row_def)
      ultimately show ?thesis using False by simp
    next
      case retry: False
      obtain s where s: "out_NextRetryAt out = Some s" "out_Status out = DeliveryRetrying"
        using EvaluateFailure_status [OF out] retry by auto
      obtain now wr where "db_call (\<lambda>flt now. MarkRetrying flt now (d_ID del) (d_CreatedAt del)
          (out_AttemptCount out) s etext) w3 = (Inr (), wr)" "row_at del wr = Some (retrying_row now (out_AttemptCount out) s etext del)"
        using processing_marks(3) [OF p3] by blast
      then have "row_at del w' = Some (retrying_row now (out_AttemptCount out) s etext del)"
        using run nb out s by (auto simp: handleFailure_def err one three Let_def simp flip: w2_def u_def)
      moreover have "judged pol del err (retrying_row now (out_AttemptCount out) s etext del)"
        using out s unfolding judged_def err
        by (intro exI [of _ u] exI [of _ t] exI [of _ out]) (auto simp: retrying_row_def)
      ultimately show ?thesis using False by simp
    qed
  qed
qed


lemma deliver_outcome:
  assumes p: "processing del st w" and run: "deliver (pg_worker cfg pol us) msg del w = Some w'"
  shows "\<exists>d req n. row_at del w' = Some d \<and> req \<in> set (requests st) \<and> r_ID req = d_RequestID del
    \<and> (case e_send (w_env w) n (provider_request us del req) of
         Inr res \<Rightarrow> sent_as del res d
       | Inl err \<Rightarrow> if breaker_open err then requeued del d else judged pol del err d)
    \<and> calls w' = calls w @ [provider_request us del req]"
proof -
  have c: "calm (w_env w)" "w_db w = st" "wf_store st" "del \<in> set (deliveries st)"
    using p by (simp_all add: processing_def)
  obtain req where req: "req \<in> set (requests st)" "r_ID req = d_RequestID del"
    using c(3,4) by (force simp: wf_store_def)
  have "find_row (\<lambda>r. r_ID r = r_ID req) (requests st) = Some req"
    using c(3) req(1) by (intro find_row_key) (simp_all add: wf_store_def)
  then have get: "db_query (\<lambda>flt. GetRequestByID flt (d_RequestID del)) w = (Inr req, next_tick (w\<lparr>w_db := st\<rparr>))"
    using c(1,2) req(2) by (simp add: db_query_eq GetRequestByID_def scanRequest_def)
  define w1 where "w1 = next_tick (w\<lparr>w_db := st\<rparr>)"
  have p1: "processing del st w1" using p by (simp add: w1_def processing_def)
  obtain t w2 where two: "clock_Now w1 = (t, w2)" by force
  have p2: "processing del st w2" and e2: "w_env w2 = w_env w"
    using processing_clock [OF two p1] two by (auto simp: clock_Now_def w1_def)
  define w3 where "w3 = emit (ProviderCalled (provider_request us del req)) (next_tick w2)"
  obtain t4 w4 where four: "clock_Now w3 = (t4, w4)" by force
  have "processing del st w3" using p2 by (simp add: w3_def processing_def)
  then have p4: "processing del st w4" by (rule processing_clock [OF four])
  define r where "r = e_send (w_env w) (w_tick w2) (provider_request us del req)"
  have send: "send (pg_worker cfg pol us) del (r_Recipient req) (r_RenderedContent req) w1 = (r, w4)"
    using four by (simp add: send_def two provider_call_def provider_request_def w3_def r_def e2)
  have "\<exists>d. row_at del w' = Some d \<and> (case r of Inr res \<Rightarrow> sent_as del res d
      | Inl err \<Rightarrow> if breaker_open err then requeued del d else judged pol del err d)"
  proof (cases r)
    case (Inl err)
    then have "handleFailure (pg_worker cfg pol us) del msg err w4 = Some w'"
      using run send by (simp add: deliver_def get flip: w1_def)
    from handleFailure_outcome [OF p4 this] Inl show ?thesis by simp
  next
    case (Inr res)
    obtain now w5 where five: "db_call (\<lambda>flt now. MarkSent flt now (d_ID del) (d_CreatedAt del) (d_RequestID del) (res_MessageID res)) w4
        = (Inr (), w5)" "row_at del w5 = Some (sent_row now (res_MessageID res) del)"
      using processing_marks(1) [OF p4] by blast
    then have "row_at del w' = Some (sent_row now (res_MessageID res) del)"
      using run send Inr by (auto simp: deliver_def get clock_Now_def Let_def simp flip: w1_def)
    then show ?thesis using Inr by (simp add: sent_as_def sent_row_def)
  qed
  moreover have "calls w' = calls w @ [provider_request us del req]"
    using deliver_calls_at [OF run get] by simp
  ultimately show ?thesis using req unfolding r_def by blast
qed

text \<open>
  A run on a delivery that can be claimed: the claim, the wait for the limiter, then the delivery or
  the requeue.
\<close>

lemma claimed_run:
  assumes calm: "calm (w_env w)" and wf: "wf_store (w_db w)"
    and d0: "d0 \<in> set (deliveries (w_db w))" "at_key (m_DeliveryID (sm_Delivery msg)) (m_DeliveryCreatedAt (sm_Delivery msg)) d0"
    and claimable: "claimable (d_Status d0)"
    and run: "process (pg_worker cfg pol us) msg w = Some w'"
  obtains now lease st2 w4 wb ok where
    "processing (claimed_row now lease d0) st2 w4" "w_env w4 = w_env w" "requests st2 = requests (w_db w)"
    "calls w4 = calls w" "w_db w' = w_db wb" "calls w' = calls wb"
    "if ok then deliver (pg_worker cfg pol us) msg (claimed_row now lease d0) w4 = Some wb
     else wb = requeueWithoutAttempt (pg_worker cfg pol us) (claimed_row now lease d0) ''rate limited'' w4"
    "(\<forall>k c. fst (e_allow (w_env w) k c)) \<longrightarrow> ok"
proof -
  let ?W = "pg_worker cfg pol us" and ?dm = "sm_Delivery msg" and ?st = "w_db w"
  let ?i = "m_DeliveryID (sm_Delivery msg)" and ?t = "m_DeliveryCreatedAt (sm_Delivery msg)"
  let ?p = "\<lambda>d. at_key ?i ?t d \<and> claimable (d_Status d)"
  obtain t1 w1 where one: "clock_Now w = (t1, w1)" by force
  obtain t2 w2 where two: "clock_Now w1 = (t2, w2)" by force
  have same: "w_db w2 = ?st" "w_env w2 = w_env w" "calls w2 = calls w"
    using one two by (auto simp: clock_Now_def)
  define lease where "lease = t2 + wc_LeaseTTL (worker_defaults cfg)"
  obtain wb where wb: "process_body ?W msg w1 = Some wb" and db: "w_db w' = w_db wb" "calls w' = calls wb"
    using run by (auto simp: process_def one Let_def split_beta split: option.splits)
  let ?del = "claimed_row (now_of w2) lease d0"
  let ?st2 = "?st\<lparr>deliveries := upd_where ?p (claimed_row (now_of w2) lease) (deliveries ?st)\<rparr>"
  define w3 where "w3 = next_tick (w2\<lparr>w_db := ?st2\<rparr>)"
  have claim: "db_call (\<lambda>flt now. ClaimDelivery flt now ?i ?t lease) w2 = (Inr (Some ?del), w3)"
    using calm same find_claimable [OF wf d0 claimable] by (simp add: db_call_eq ClaimDelivery_eq Let_def w3_def)
  have "wf_store ?st2" using wf by (intro wf_upd_deliveries) (auto simp: claimed_row_def d_key_def)
  moreover have "?del \<in> set (deliveries ?st2)" using d0 claimable by (auto simp: set_upd_where)
  moreover have "at_key (d_ID ?del) (d_CreatedAt ?del) ?del" using d0(2) by (simp add: claimed_row_def at_key_def)
  ultimately have p3: "processing ?del ?st2 w3" "w_env w3 = w_env w" "calls w3 = calls w"
    using calm same by (simp_all add: processing_def w3_def)
  obtain ok w4 where four: "waitForRateLimit ?W (m_Channel ?dm) w3 = Some (ok, w4)"
    using wb claim by (auto simp: process_body_def two Let_def simp flip: lease_def split: option.splits)
  have p4: "processing ?del ?st2 w4 \<and> w_env w4 = w_env w" "calls w4 = calls w"
    using processing_wait.wait_Q [OF four] calls_wait.wait_Q [OF four refl] p3 by (blast, simp)
  have budget: "(\<forall>k c. fst (e_allow (w_env w) k c)) \<longrightarrow> ok"
    using four p3(2) by (auto simp: waitForRateLimit_def clock_Now_def rate_loop.simps [of ?W] split_beta)
  have "if ok then deliver ?W msg ?del w4 = Some wb else wb = requeueWithoutAttempt ?W ?del ''rate limited'' w4"
    using wb claim four by (simp add: process_body_def two Let_def flip: lease_def split: if_splits)
  from that [OF conjunct1 [OF p4(1)] conjunct2 [OF p4(1)] _ p4(2) db this budget] show ?thesis by simp
qed

lemma claimed_row_same:
  "row_at (claimed_row now lease d) w = row_at d w" "provider_request us (claimed_row now lease d) = provider_request us d"
  "requeued (claimed_row now lease d) = requeued d" "sent_as (claimed_row now lease d) = sent_as d"
  "judged pol (claimed_row now lease d) = judged pol d" "d_RequestID (claimed_row now lease d) = d_RequestID d"
  by (simp_all add: row_at_def at_key_def provider_request_def requeued_def sent_as_def judged_def claimed_row_def fun_eq_iff)

lemma process_unclaimable:
  assumes calm: "calm (w_env w)" and wf: "wf_store (w_db w)"
    and d0: "d0 \<in> set (deliveries (w_db w))" "at_key (m_DeliveryID (sm_Delivery msg)) (m_DeliveryCreatedAt (sm_Delivery msg)) d0"
    and no: "\<not> claimable (d_Status d0)" and run: "process (pg_worker cfg pol us) msg w = Some w'"
  shows "w_db w' = w_db w"
proof -
  let ?i = "m_DeliveryID (sm_Delivery msg)" and ?t = "m_DeliveryCreatedAt (sm_Delivery msg)"
  obtain t1 w1 where one: "clock_Now w = (t1, w1)" by force
  obtain t2 w2 where two: "clock_Now w1 = (t2, w2)" by force
  have same: "w_db w2 = w_db w" "w_env w2 = w_env w" using one two by (auto simp: clock_Now_def)
  obtain wb where wb: "process_body (pg_worker cfg pol us) msg w1 = Some wb" and db: "w_db w' = w_db wb"
    using run by (auto simp: process_def one Let_def split_beta split: option.splits)
  have "find_row (\<lambda>d. at_key ?i ?t d \<and> claimable (d_Status d)) (deliveries (w_db w)) = None"
    using at_key_unique [OF wf d0] no by (auto simp: find_row_None)
  then have "w_db wb = w_db w"
    using wb calm same by (auto simp: process_body_def two db_call_eq ClaimDelivery_eq Let_def)
  with db show ?thesis by simp
qed


section \<open>The unguarded requeue\<close>

text \<open>
  C37. \<open>MarkRetrying\<close> is not guarded by the status of the row: applied to a delivery of a
  request that is already finished (a worker whose lease ran out while another one finished the
  delivery), it takes the finished delivery back into the retry queue and leaves the status of
  the request in disagreement with it.
\<close>

theorem MarkRetrying_resurrects:
  assumes inv: "store_inv st" and d: "d \<in> set (deliveries st)" "at_key i t d"
    and r: "r \<in> set (requests st)" "r_ID r = d_RequestID d" "r_Status r \<noteq> RequestPending"
  shows "\<exists>st'. MarkRetrying None now i t n s m st = (Inr (), st')
    \<and> GetDelivery None i t st' = Inr (retrying_row now n s m d)
    \<and> GetRequestByID None (r_ID r) st' = Inr r \<and> \<not> store_inv st'"
proof -
  obtain res st' where run: "MarkRetrying None now i t n s m st = (res, st')" by force
  have wf: "wf_store st" using inv by (rule store_invD)
  have out: "res = Inr ()" "GetDelivery None i t st' = Inr (retrying_row now n s m d)"
    using mark_outcomes(3) [OF wf d run] by auto
  have st': "requests st' = requests st" using run by (auto simp: MarkRetrying_def)
  have "find_row (\<lambda>x. r_ID x = r_ID r) (requests st) = Some r"
    using wf r(1) by (intro find_row_key) (simp_all add: wf_store_def)
  then have get: "GetRequestByID None (r_ID r) st' = Inr r"
    by (simp add: GetRequestByID_def scanRequest_def st')
  have "retrying_row now n s m d \<in> set (deliveries st')"
    using out(2) by (auto simp: GetDelivery_eq split: option.splits dest: find_row_Some)
  then have mem: "DeliveryRetrying \<in> set (delivery_statuses st' (r_ID r))"
    using r(2) by (force simp: delivery_statuses_def retrying_row_def)
  then have "AggregateRequestStatus (delivery_statuses st' (r_ID r)) = RequestPending"
    by (rule AggregateRequestStatus_nonterminal) simp
  moreover have "delivery_statuses st' (r_ID r) \<noteq> []" using mem by auto
  ultimately have "\<not> request_status_ok st' r" using r(3) by (simp add: request_status_ok_def)
  then have "\<not> store_inv st'" using r(1) st' by (auto simp: store_inv_def status_ok_def)
  with run out get show ?thesis by auto
qed

section \<open>Concrete runs\<close>

definition sample_config :: WorkerConfig where
  "sample_config = \<lparr>wc_Priorities = AllPriorities, wc_Channels = AllChannels, wc_Concurrency = 4,
     wc_Consumer = ''c1'', wc_BatchSize = 10, wc_LeaseTTL = 30 * Second, wc_BlockTime = 2 * Second,
     wc_RateWaitMax = 15 * Second, wc_RateWaitStep = 50 * Millisecond\<rparr>"

definition sample_policy :: Policy where
  "sample_policy = NewPolicy 3 [60 * Second] 0"

definition sample_message :: StreamMessage where
  "sample_message = \<lparr>sm_Stream = ''notifications.high.sms'', sm_ID = ''1-0'',
     sm_Delivery = \<lparr>m_DeliveryID = 2, m_DeliveryCreatedAt = 5000, m_RequestID = 1, m_Channel = ChannelSMS,
       m_Priority = PriorityHigh, m_CorrelationID = ''''\<rparr>\<rparr>"

abbreviation sample_worker :: "world Worker" where
  "sample_worker \<equiv> pg_worker sample_config sample_policy (\<lambda>i. ''id'')"

abbreviation sample_world :: world where
  "sample_world \<equiv> world_of (store_with [sample_delivery])"

lemma sample_process: "\<exists>w'. process sample_worker sample_message sample_world = Some w'"
  by (simp add: process_def process_body_def sample_message_def sample_config_def sample_policy_def
      waitForRateLimit_def rate_loop.simps deliver_def send_def provider_call_def
      ClaimDelivery_eq GetRequestByID_def scanRequest_def at_key_def claimable_def claimed_row_def
      clock_Now_def db_call_eq db_query_eq before_def fault_of_def now_of_def next_tick_def
      world_of_def quiet_env_def find_row_def sample_simps Let_def split_beta split: sum.split)

lemma sample_inv: "store_inv (store_with [sample_delivery])"
proof (rule store_invI)
  show "wf_store (store_with [sample_delivery])" by (rule wf_store_with) (simp_all add: sample_delivery_def)
  show "counters_ok (store_with [sample_delivery])" by (simp add: counters_ok_def sample_simps)
  show "status_ok (store_with [sample_delivery])"
    by (simp add: status_ok_def request_status_ok_def delivery_statuses_def AggregateRequestStatus_def sample_simps)
qed

lemma quiet_env_more: "lease_ok quiet_env" "calm quiet_env"
  by (simp_all add: lease_ok_def calm_def quiet_env_def)


theorem process_returns_witness: "\<exists>w'. process sample_worker sample_message sample_world = Some w'"
  by (rule process_returns) (simp add: world_of_def quiet_env_def store_with_def sample_delivery_def)



theorem MarkRetrying_resurrects_witness:
  "\<exists>st'. MarkRetrying None 9000 2 5000 1 9000 ''late'' (snd (MarkSent None 6000 2 5000 1 ''m1'' (store_with [sample_delivery])))
     = (Inr (), st') \<and> \<not> store_inv st'"
proof -
  let ?st = "snd (MarkSent None 6000 2 5000 1 ''m1'' (store_with [sample_delivery]))"
  have st: "?st = store_with [sent_row 6000 ''m1'' sample_delivery]\<lparr>requests := [sample_request\<lparr>r_Status := RequestSent\<rparr>]\<rparr>"
    by (simp add: MarkSent_def withTx_def recomputeRequestStatusTx_def find_row_def delivery_statuses_def
        AggregateRequestStatus_def at_key_def sent_row_def sample_simps Let_def)
  have "owns (store_with [sample_delivery]) 2 5000 1" by (simp add: owns_def sample_simps)
  then have inv: "store_inv ?st" using MarkSent_inv [OF sample_inv] by blast
  have d: "sent_row 6000 ''m1'' sample_delivery \<in> set (deliveries ?st)" "at_key 2 5000 (sent_row 6000 ''m1'' sample_delivery)"
    unfolding st by (simp_all add: store_with_def sent_row_def sample_delivery_def at_key_def timestamptz_def)
  have "sample_request\<lparr>r_Status := RequestSent\<rparr> \<in> set (requests ?st)" unfolding st by simp
  from MarkRetrying_resurrects [OF inv d this, where now = 9000 and n = 1 and s = 9000 and m = "''late''"]
  show ?thesis by (auto simp: sent_row_def sample_delivery_def sample_request_def)
qed


end
