(* ===== verification/Scheduler.thy ===== *)
theory Scheduler
  imports World
begin

text \<open>
  The package \<open>internal/scheduler\<close>: configuration defaults (scheduler.go) and the background jobs
  (jobs.go) over the ports the package declares.  \<open>sk_Now\<close> is \<open>time.Now\<close>, \<open>sk_tick\<close> the
  \<open>select\<close> between \<open>ctx.Done()\<close> (\<open>True\<close>) and the job's ticker.  The jobs that loop until
  a batch comes back short are partial functions: \<open>None\<close> is a job that never returns.
\<close>

section \<open>Configuration and ports (scheduler.go)\<close>

record SchedulerConfig =
  sc_PollInterval :: duration
  sc_OutboxInterval :: duration
  sc_OutboxBatchSize :: int
  sc_PromoteBatch :: int
  sc_ReaperInterval :: duration
  sc_ReconcileAfter :: duration
  sc_RetentionDays :: int
  sc_PreCreateDays :: int
  sc_OutboxRetention :: duration

record 'w Scheduler =
  sc_cfg :: SchedulerConfig
  sd_PromoteDue :: "int \<Rightarrow> 'w \<Rightarrow> int result \<times> 'w"
  sd_SweepRetries :: "int \<Rightarrow> 'w \<Rightarrow> int result \<times> 'w"
  sd_ReapStuck :: "'w \<Rightarrow> int result \<times> 'w"
  sd_ReconcilePending :: "duration \<Rightarrow> int \<Rightarrow> 'w \<Rightarrow> int result \<times> 'w"
  sd_FetchUnpublishedOutbox :: "int \<Rightarrow> 'w \<Rightarrow> OutboxEntry list result \<times> 'w"
  sd_MarkOutboxPublished :: "uuid list \<Rightarrow> 'w \<Rightarrow> unit result \<times> 'w"
  sd_CountUnpublishedOutbox :: "'w \<Rightarrow> int result \<times> 'w"
  sd_OldestDueLagSeconds :: "'w \<Rightarrow> rat result \<times> 'w"
  sd_CreateDeliveryPartition :: "gotime \<Rightarrow> 'w \<Rightarrow> unit result \<times> 'w"
  sd_ArchiveAndDropPartition :: "gotime \<Rightarrow> 'w \<Rightarrow> unit result \<times> 'w"
  sd_PurgePublishedOutbox :: "gotime \<Rightarrow> 'w \<Rightarrow> int result \<times> 'w"
  sq_Publish :: "string \<Rightarrow> DeliveryMessage \<Rightarrow> 'w \<Rightarrow> unit result \<times> 'w"
  sq_Depth :: "string \<Rightarrow> 'w \<Rightarrow> int result \<times> 'w"
  sq_Pending :: "string \<Rightarrow> 'w \<Rightarrow> int result \<times> 'w"
  sx_SetQueueDepth :: "string \<Rightarrow> int \<Rightarrow> 'w \<Rightarrow> 'w"
  sx_SetQueuePending :: "string \<Rightarrow> int \<Rightarrow> 'w \<Rightarrow> 'w"
  sx_SetOutboxUnpublished :: "int \<Rightarrow> 'w \<Rightarrow> 'w"
  sx_SetSchedulerLag :: "rat \<Rightarrow> 'w \<Rightarrow> 'w"
  sx_AddPromoted :: "int \<Rightarrow> 'w \<Rightarrow> 'w"
  sx_AddReclaimed :: "int \<Rightarrow> 'w \<Rightarrow> 'w"
  sx_AddReconciled :: "int \<Rightarrow> 'w \<Rightarrow> 'w"
  sk_Now :: "'w \<Rightarrow> gotime \<times> 'w"
  sk_tick :: "duration \<Rightarrow> 'w \<Rightarrow> bool \<times> 'w"

definition scheduler_defaults :: "SchedulerConfig \<Rightarrow> SchedulerConfig" where
  "scheduler_defaults cfg =
     (let c1 = (if sc_RetentionDays cfg \<le> 0 then cfg\<lparr>sc_RetentionDays := 30\<rparr> else cfg);
          c2 = (if sc_PreCreateDays c1 \<le> 0 then c1\<lparr>sc_PreCreateDays := 3\<rparr> else c1)
      in if sc_OutboxRetention c2 \<le> 0 then c2\<lparr>sc_OutboxRetention := 24 * Hour\<rparr> else c2)"

definition Scheduler_New :: "SchedulerConfig \<Rightarrow> 'w Scheduler \<Rightarrow> 'w Scheduler" where
  "Scheduler_New cfg ports = ports\<lparr>sc_cfg := scheduler_defaults cfg\<rparr>"

definition allStreams :: "string list" where
  "allStreams = concat (map (\<lambda>p. map (\<lambda>c. Stream p c) AllChannels) AllPriorities)"

section \<open>The outbox relay (jobs.go)\<close>

fun publish_entries :: "'w Scheduler \<Rightarrow> OutboxEntry list \<Rightarrow> uuid list \<Rightarrow> 'w \<Rightarrow> uuid list \<times> 'w" where
  "publish_entries S [] published w = (published, w)"
| "publish_entries S (e # es) published w =
     (case sq_Publish S (oe_Stream e) (oe_Message e) w of
        (Inl _, w1) \<Rightarrow> publish_entries S es published w1
      | (Inr _, w1) \<Rightarrow> publish_entries S es (published @ [oe_ID e]) w1)"

partial_function (option) relayOutbox :: "'w Scheduler \<Rightarrow> 'w \<Rightarrow> 'w option" where
  "relayOutbox S w =
     (let (res, w1) = sd_FetchUnpublishedOutbox S (sc_OutboxBatchSize (sc_cfg S)) w in
      case res of
        Inl _ \<Rightarrow> Some w1
      | Inr entries \<Rightarrow>
          if entries = [] then Some w1
          else let (published, w2) = publish_entries S entries [] w1;
                   (marked, w3) = sd_MarkOutboxPublished S published w2 in
            case marked of
              Inl _ \<Rightarrow> Some w3
            | Inr _ \<Rightarrow>
                if int (length entries) < sc_OutboxBatchSize (sc_cfg S) then Some w3
                else relayOutbox S w3)"

section \<open>Promotion and retry sweep (jobs.go)\<close>

partial_function (option) promoteDue :: "'w Scheduler \<Rightarrow> 'w \<Rightarrow> 'w option" where
  "promoteDue S w =
     (let (res, w1) = sd_PromoteDue S (sc_PromoteBatch (sc_cfg S)) w in
      case res of
        Inl _ \<Rightarrow> Some w1
      | Inr n \<Rightarrow>
          let w2 = (if n > 0 then sx_AddPromoted S n w1 else w1) in
          if n < sc_PromoteBatch (sc_cfg S) then Some w2 else promoteDue S w2)"

partial_function (option) sweepRetries :: "'w Scheduler \<Rightarrow> 'w \<Rightarrow> 'w option" where
  "sweepRetries S w =
     (let (res, w1) = sd_SweepRetries S (sc_PromoteBatch (sc_cfg S)) w in
      case res of
        Inl _ \<Rightarrow> Some w1
      | Inr n \<Rightarrow> if n < sc_PromoteBatch (sc_cfg S) then Some w1 else sweepRetries S w1)"

section \<open>Reaper, reconciliation, maintenance, gauges (jobs.go)\<close>

definition reapStuck :: "'w Scheduler \<Rightarrow> 'w \<Rightarrow> 'w" where
  "reapStuck S w =
     (case sd_ReapStuck S w of
        (Inl _, w1) \<Rightarrow> w1
      | (Inr n, w1) \<Rightarrow> if n > 0 then sx_AddReclaimed S n w1 else w1)"

definition reconcile :: "'w Scheduler \<Rightarrow> 'w \<Rightarrow> 'w" where
  "reconcile S w =
     (case sd_ReconcilePending S (sc_ReconcileAfter (sc_cfg S)) (sc_PromoteBatch (sc_cfg S)) w of
        (Inl _, w1) \<Rightarrow> w1
      | (Inr n, w1) \<Rightarrow> if n > 0 then sx_AddReconciled S n w1 else w1)"

definition truncate_day :: "gotime \<Rightarrow> gotime" where
  "truncate_day t = t div (24 * Hour) * (24 * Hour)"

definition add_days :: "int \<Rightarrow> gotime \<Rightarrow> gotime" where
  "add_days n t = t + n * (24 * Hour)"

definition maintainPartitions :: "'w Scheduler \<Rightarrow> 'w \<Rightarrow> 'w" where
  "maintainPartitions S w =
     (let (now, w1) = sk_Now S w;
          today = truncate_day now;
          w2 = fold (\<lambda>i w. snd (sd_CreateDeliveryPartition S (add_days i today) w))
                 [0..sc_PreCreateDays (sc_cfg S)] w1;
          (_, w3) = sd_ArchiveAndDropPartition S (add_days (- (sc_RetentionDays (sc_cfg S) + 1)) today) w2;
          (now2, w4) = sk_Now S w3;
          (_, w5) = sd_PurgePublishedOutbox S (now2 - sc_OutboxRetention (sc_cfg S)) w4
      in w5)"

definition refresh_stream :: "'w Scheduler \<Rightarrow> string \<Rightarrow> 'w \<Rightarrow> 'w" where
  "refresh_stream S stream w =
     (let w2 = (case sq_Depth S stream w of (Inl _, w1) \<Rightarrow> w1 | (Inr n, w1) \<Rightarrow> sx_SetQueueDepth S stream n w1)
      in case sq_Pending S stream w2 of (Inl _, w3) \<Rightarrow> w3 | (Inr n, w3) \<Rightarrow> sx_SetQueuePending S stream n w3)"

definition refreshMetrics :: "'w Scheduler \<Rightarrow> 'w \<Rightarrow> 'w" where
  "refreshMetrics S w =
     (let w1 = (case sd_CountUnpublishedOutbox S w of
                  (Inl _, w1) \<Rightarrow> w1 | (Inr n, w1) \<Rightarrow> sx_SetOutboxUnpublished S n w1);
          w2 = (case sd_OldestDueLagSeconds S w1 of
                  (Inl _, w2) \<Rightarrow> w2 | (Inr lag, w2) \<Rightarrow> sx_SetSchedulerLag S lag w2)
      in fold (refresh_stream S) allStreams w2)"

section \<open>Running the jobs (scheduler.go)\<close>

definition RunOutboxRelay :: "'w Scheduler \<Rightarrow> 'w \<Rightarrow> 'w option" where
  "RunOutboxRelay S w = relayOutbox S w"

partial_function (option) ticking :: "'w Scheduler \<Rightarrow> duration \<Rightarrow> ('w \<Rightarrow> 'w option) \<Rightarrow> 'w \<Rightarrow> 'w option" where
  "ticking S interval fn w =
     (let (done, w1) = sk_tick S interval w in
      if done then Some w1
      else case fn w1 of None \<Rightarrow> None | Some w2 \<Rightarrow> ticking S interval fn w2)"

text \<open>\<open>time.NewTicker\<close> panics when the interval is not positive: \<open>None\<close> again.\<close>

definition runLoop :: "'w Scheduler \<Rightarrow> duration \<Rightarrow> ('w \<Rightarrow> 'w option) \<Rightarrow> 'w \<Rightarrow> 'w option" where
  "runLoop S interval fn w = (if interval \<le> 0 then None else ticking S interval fn w)"

definition scheduler_jobs :: "'w Scheduler \<Rightarrow> (string \<times> duration \<times> ('w \<Rightarrow> 'w option)) list" where
  "scheduler_jobs S =
     [(''outbox-relay'', sc_OutboxInterval (sc_cfg S), relayOutbox S),
      (''promote-due'', sc_PollInterval (sc_cfg S), promoteDue S),
      (''retry-sweep'', sc_PollInterval (sc_cfg S), sweepRetries S),
      (''reaper'', sc_ReaperInterval (sc_cfg S), \<lambda>w. Some (reapStuck S w)),
      (''reconcile'', sc_ReaperInterval (sc_cfg S), \<lambda>w. Some (reconcile S w)),
      (''metrics'', 5 * Second, \<lambda>w. Some (refreshMetrics S w)),
      (''maintenance'', Hour, \<lambda>w. Some (maintainPartitions S w))]"

section \<open>The scheduler on PostgreSQL and Redis\<close>

definition pg_scheduler :: "SchedulerConfig \<Rightarrow> world Scheduler" where
  "pg_scheduler cfg = Scheduler_New cfg \<lparr>
     sc_cfg = cfg,
     sd_PromoteDue = (\<lambda>n w. db_call (\<lambda>flt now. PromoteDue flt now (e_locked (w_env w) (w_tick w)) (e_uuid (w_env w) (w_tick w)) n) w),
     sd_SweepRetries = (\<lambda>n w. db_call (\<lambda>flt now. SweepRetries flt now (e_locked (w_env w) (w_tick w)) (e_uuid (w_env w) (w_tick w)) n) w),
     sd_ReapStuck = db_call ReapStuck,
     sd_ReconcilePending = (\<lambda>d n w. db_call (\<lambda>flt now. ReconcilePending flt now (w_time w) (e_locked (w_env w) (w_tick w))
                                        (e_uuid (w_env w) (w_tick w)) d n) w),
     sd_FetchUnpublishedOutbox = (\<lambda>n w. db_query (\<lambda>flt. FetchUnpublishedOutbox flt (e_locked_outbox (w_env w) (w_tick w)) n) w),
     sd_MarkOutboxPublished = (\<lambda>ids. db_call (\<lambda>flt now. MarkOutboxPublished flt now ids)),
     sd_CountUnpublishedOutbox = db_query CountUnpublishedOutbox,
     sd_OldestDueLagSeconds = db_call (\<lambda>flt now st. (OldestDueLagSeconds flt now st, st)),
     sd_CreateDeliveryPartition = (\<lambda>day. db_call (\<lambda>flt now. CreateDeliveryPartition flt day)),
     sd_ArchiveAndDropPartition = (\<lambda>day. db_call (\<lambda>flt now. ArchiveAndDropPartition flt day)),
     sd_PurgePublishedOutbox = (\<lambda>t. db_call (\<lambda>flt now. PurgePublishedOutbox flt t)),
     sq_Publish = (\<lambda>s m. redis_call [Published s m]),
     sq_Depth = (\<lambda>s w. (Inr 0, next_tick w)),
     sq_Pending = (\<lambda>s w. (Inr 0, next_tick w)),
     sx_SetQueueDepth = (\<lambda>s n w. w), sx_SetQueuePending = (\<lambda>s n w. w), sx_SetOutboxUnpublished = (\<lambda>n w. w),
     sx_SetSchedulerLag = (\<lambda>l w. w), sx_AddPromoted = (\<lambda>n. emit (CountedPromoted n)),
     sx_AddReclaimed = (\<lambda>n. emit (CountedReclaimed n)), sx_AddReconciled = (\<lambda>n. emit (CountedReconciled n)),
     sk_Now = clock_Now,
     sk_tick = (\<lambda>d w. (e_stop (w_env w) (w_tick w), next_tick w))\<rparr>"

lemma pg_scheduler_simps [simp]:
  "sc_cfg (pg_scheduler cfg) = scheduler_defaults cfg"
  "sd_PromoteDue (pg_scheduler cfg) n w = db_call (\<lambda>flt now. PromoteDue flt now (e_locked (w_env w) (w_tick w)) (e_uuid (w_env w) (w_tick w)) n) w"
  "sd_SweepRetries (pg_scheduler cfg) n w = db_call (\<lambda>flt now. SweepRetries flt now (e_locked (w_env w) (w_tick w)) (e_uuid (w_env w) (w_tick w)) n) w"
  "sd_ReapStuck (pg_scheduler cfg) = db_call ReapStuck"
  "sd_ReconcilePending (pg_scheduler cfg) d n w = db_call (\<lambda>flt now. ReconcilePending flt now (w_time w) (e_locked (w_env w) (w_tick w))
      (e_uuid (w_env w) (w_tick w)) d n) w"
  "sd_FetchUnpublishedOutbox (pg_scheduler cfg) n w = db_query (\<lambda>flt. FetchUnpublishedOutbox flt (e_locked_outbox (w_env w) (w_tick w)) n) w"
  "sd_MarkOutboxPublished (pg_scheduler cfg) = (\<lambda>ids. db_call (\<lambda>flt now. MarkOutboxPublished flt now ids))"
  "sd_CreateDeliveryPartition (pg_scheduler cfg) = (\<lambda>day. db_call (\<lambda>flt now. CreateDeliveryPartition flt day))"
  "sd_ArchiveAndDropPartition (pg_scheduler cfg) = (\<lambda>day. db_call (\<lambda>flt now. ArchiveAndDropPartition flt day))"
  "sd_PurgePublishedOutbox (pg_scheduler cfg) = (\<lambda>t. db_call (\<lambda>flt now. PurgePublishedOutbox flt t))"
  "sq_Publish (pg_scheduler cfg) = (\<lambda>s m. redis_call [Published s m])"
  "sx_AddPromoted (pg_scheduler cfg) = (\<lambda>n. emit (CountedPromoted n))"
  "sx_AddReclaimed (pg_scheduler cfg) = (\<lambda>n. emit (CountedReclaimed n))"
  "sx_AddReconciled (pg_scheduler cfg) = (\<lambda>n. emit (CountedReconciled n))"
  "sk_Now (pg_scheduler cfg) = clock_Now"
  by (simp_all add: pg_scheduler_def Scheduler_New_def)

lemma scheduler_defaults_frame [simp]:
  "sc_OutboxBatchSize (scheduler_defaults cfg) = sc_OutboxBatchSize cfg"
  "sc_PromoteBatch (scheduler_defaults cfg) = sc_PromoteBatch cfg"
  "sc_ReconcileAfter (scheduler_defaults cfg) = sc_ReconcileAfter cfg"
  by (simp_all add: scheduler_defaults_def Let_def)

end
