(* ===== verification/Scheduler_Props.thy ===== *)
theory Scheduler_Props
  imports Scheduler Service_Props
begin

text \<open>
  Correctness of the scheduler's jobs: the drain loops return and leave nothing due behind, the
  relay publishes before it marks and drains the outbox, and two configurations or failures in
  which a job never returns.
\<close>

section \<open>Drain loops\<close>

text \<open>
  A loop that repeats a step until it handles fewer than \<open>limit\<close> items; \<open>after\<close> is what it
  does after a successful step, \<open>todo\<close> counts what is left.
\<close>

locale drain_loop =
  fixes loop :: "'w \<Rightarrow> 'w option" and step :: "'w \<Rightarrow> int result \<times> 'w" and after :: "int \<Rightarrow> 'w \<Rightarrow> 'w"
    and limit :: int and I :: "'w \<Rightarrow> bool" and todo :: "'w \<Rightarrow> nat"
  assumes loop_eq: "loop w = (case step w of (Inl _, w1) \<Rightarrow> Some w1
      | (Inr n, w1) \<Rightarrow> if n < limit then Some (after n w1) else loop (after n w1))"
    and step_keeps: "I w \<Longrightarrow> I (snd (step w))"
    and after_keeps: "I w \<Longrightarrow> I (after n w)" and after_todo: "todo (after n w) = todo w"
    and step_progress: "I w \<Longrightarrow> step w = (Inr n, w1) \<Longrightarrow> int (todo w1) + n \<le> int (todo w)"
begin

text \<open>With a positive limit the loop returns, and its last step failed or came back short.\<close>

lemma returns:
  assumes "0 < limit" "I w"
  shows "\<exists>w'. loop w = Some w' \<and> I w' \<and>
     (\<exists>w0 w1. I w0 \<and> ((\<exists>e. step w0 = (Inl e, w1) \<and> w' = w1) \<or> (\<exists>n. step w0 = (Inr n, w1) \<and> n < limit \<and> w' = after n w1)))"
  using assms(2)
proof (induction "todo w" arbitrary: w rule: less_induct)
  case less
  obtain r w1 where one: "step w = (r, w1)" by force
  have i1: "I w1" using step_keeps [OF less.prems] one by simp
  show ?case
  proof (cases r)
    case (Inl e)
    then show ?thesis using one i1 less.prems by (subst loop_eq) auto
  next
    case (Inr n)
    have i2: "I (after n w1)" by (rule after_keeps [OF i1])
    show ?thesis
    proof (cases "n < limit")
      case True
      then show ?thesis using one Inr i2 less.prems by (subst loop_eq) auto
    next
      case False
      have "int (todo w1) + n \<le> int (todo w)" using step_progress [OF less.prems] one Inr by simp
      then have "todo (after n w1) < todo w" using False assms(1) by (simp add: after_todo)
      from less.hyps [OF this i2] show ?thesis using one Inr False by (subst loop_eq) auto
    qed
  qed
qed

end

text \<open>The tables change only by the scheduler's own calls.\<close>

definition alone :: "env \<Rightarrow> bool" where
  "alone E \<longleftrightarrow> (\<forall>k st. e_others E k st = st)"

definition sch_good :: "world \<Rightarrow> bool" where
  "sch_good w \<longleftrightarrow> store_inv (w_db w) \<and> alone (w_env w)"

lemma alone_before [simp]: "alone (w_env w) \<Longrightarrow> before w = w_db w"
  by (simp add: alone_def before_def)

definition in_status :: "DeliveryStatus \<Rightarrow> world \<Rightarrow> nat" where
  "in_status s w = count_where (\<lambda>d. d_Status d = s) (deliveries (w_db w))"

lemma sch_call_good:
  "sch_good w \<Longrightarrow> (\<And>flt now. store_inv (snd (f flt now (w_db w)))) \<Longrightarrow> sch_good (snd (db_call f w))"
  by (simp add: sch_good_def)

lemma promote_progress:
  assumes "sch_good w" "sd_PromoteDue (pg_scheduler cfg) lmt w = (Inr n, w1)"
  shows "int (in_status DeliveryScheduled w1) + n \<le> int (in_status DeliveryScheduled w)"
  using promote.progress [of "w_db w" "fault_of w" "now_of w" _ _ lmt n "w_db w1"] assms
  by (auto simp: sch_good_def db_call_eq in_status_def store_inv_def prod_eq_iff)

lemma sweep_progress:
  assumes "sch_good w" "sd_SweepRetries (pg_scheduler cfg) lmt w = (Inr n, w1)"
  shows "int (in_status DeliveryRetrying w1) + n \<le> int (in_status DeliveryRetrying w)"
  using sweep.progress [of "w_db w" "fault_of w" "now_of w" _ _ lmt n "w_db w1"] assms
  by (auto simp: sch_good_def db_call_eq in_status_def store_inv_def prod_eq_iff)

lemma emit_in_status [simp]: "in_status s (emit e w) = in_status s w"
  by (simp add: in_status_def)

text \<open>A world of the same run: the environment is the same and no earlier tick.\<close>

definition sch_run :: "env \<Rightarrow> nat \<Rightarrow> world \<Rightarrow> bool" where
  "sch_run E k w \<longleftrightarrow> sch_good w \<and> w_env w = E \<and> k \<le> w_tick w"

lemma db_call_tick [simp]: "w_tick (snd (db_call f w)) = Suc (w_tick w)"
  by (simp add: db_call_eq)

lemma emit_run: "sch_run E k w \<Longrightarrow> sch_run E k (emit e w)"
  by (auto simp: sch_run_def sch_good_def)

interpretation promote_loop: drain_loop "promoteDue (pg_scheduler cfg)"
  "sd_PromoteDue (pg_scheduler cfg) (sc_PromoteBatch cfg)" "\<lambda>n w. if n > 0 then emit (CountedPromoted n) w else w"
  "sc_PromoteBatch cfg" "sch_run E k" "in_status DeliveryScheduled" for cfg E k
proof
  show "promoteDue (pg_scheduler cfg) w = (case sd_PromoteDue (pg_scheduler cfg) (sc_PromoteBatch cfg) w of
      (Inl _, w1) \<Rightarrow> Some w1
    | (Inr n, w1) \<Rightarrow> if n < sc_PromoteBatch cfg then Some (if n > 0 then emit (CountedPromoted n) w1 else w1)
        else promoteDue (pg_scheduler cfg) (if n > 0 then emit (CountedPromoted n) w1 else w1))" for w
    by (subst promoteDue.simps) (auto simp: Let_def split: prod.split sum.split)
  show "sch_run E k (snd (sd_PromoteDue (pg_scheduler cfg) (sc_PromoteBatch cfg) w))" if "sch_run E k w" for w
    using that by (auto simp: sch_run_def sch_good_def promote.keeps_inv)
  show "int (in_status DeliveryScheduled w1) + n \<le> int (in_status DeliveryScheduled w)"
    if "sch_run E k w" "sd_PromoteDue (pg_scheduler cfg) (sc_PromoteBatch cfg) w = (Inr n, w1)" for w n w1
    using that promote_progress unfolding sch_run_def by blast
qed (simp_all add: emit_run)

interpretation sweep_loop: drain_loop "sweepRetries (pg_scheduler cfg)"
  "sd_SweepRetries (pg_scheduler cfg) (sc_PromoteBatch cfg)" "\<lambda>n w. w"
  "sc_PromoteBatch cfg" "sch_run E k" "in_status DeliveryRetrying" for cfg E k
proof
  show "sweepRetries (pg_scheduler cfg) w = (case sd_SweepRetries (pg_scheduler cfg) (sc_PromoteBatch cfg) w of
      (Inl _, w1) \<Rightarrow> Some w1
    | (Inr n, w1) \<Rightarrow> if n < sc_PromoteBatch cfg then Some w1 else sweepRetries (pg_scheduler cfg) w1)" for w
    by (subst sweepRetries.simps) (auto simp: Let_def split: prod.split sum.split)
  show "sch_run E k (snd (sd_SweepRetries (pg_scheduler cfg) (sc_PromoteBatch cfg) w))" if "sch_run E k w" for w
    using that by (auto simp: sch_run_def sch_good_def sweep.keeps_inv)
qed (auto simp: sweep_progress sch_run_def simp del: pg_scheduler_simps)

text \<open>The identifiers a call draws are fresh: distinct, and new to the outbox.\<close>

definition ids_fresh :: "world \<Rightarrow> int \<Rightarrow> bool" where
  "ids_fresh w n \<longleftrightarrow> inj_on (e_uuid (w_env w) (w_tick w)) {..<nat n}
     \<and> (\<forall>j<nat n. e_uuid (w_env w) (w_tick w) j \<notin> o_ID ` set (outbox (w_db w)))"

text \<open>
  With a positive batch size the promotion job returns and keeps the invariant.  When its
  last call (made in the world \<open>w0\<close>) met no fault and drew fresh identifiers, no scheduled
  delivery is left behind that was due at that call and not held by another transaction.
\<close>

theorem promoteDue_drains:
  assumes pos: "0 < sc_PromoteBatch cfg" and good: "sch_good w"
  shows "\<exists>w' w0. promoteDue (pg_scheduler cfg) w = Some w' \<and> store_inv (w_db w')
    \<and> w_env w0 = w_env w \<and> w_tick w \<le> w_tick w0 \<and> w_tick w' = Suc (w_tick w0)
    \<and> (fault_of w0 = None \<and> ids_fresh w0 (sc_PromoteBatch cfg) \<longrightarrow>
         (\<forall>d\<in>set (deliveries (w_db w')). is_due DeliveryScheduled d_SendAt (now_of w0) d
            \<longrightarrow> e_locked (w_env w0) (w_tick w0) d))"
proof -
  have "sch_run (w_env w) (w_tick w) w" using good by (simp add: sch_run_def)
  from promote_loop.returns [OF pos this] obtain w' w0 w1 where
    run: "promoteDue (pg_scheduler cfg) w = Some w'" "sch_run (w_env w) (w_tick w) w'" "sch_run (w_env w) (w_tick w) w0"
    and last: "(\<exists>e. sd_PromoteDue (pg_scheduler cfg) (sc_PromoteBatch cfg) w0 = (Inl e, w1) \<and> w' = w1)
      \<or> (\<exists>n. sd_PromoteDue (pg_scheduler cfg) (sc_PromoteBatch cfg) w0 = (Inr n, w1) \<and> n < sc_PromoteBatch cfg
           \<and> w' = (if n > 0 then emit (CountedPromoted n) w1 else w1))"
    by blast
  let ?op = "PromoteDue (fault_of w0) (now_of w0) (e_locked (w_env w0) (w_tick w0)) (e_uuid (w_env w0) (w_tick w0)) (sc_PromoteBatch cfg) (w_db w0)"
  have w0: "wf_store (w_db w0)" "before w0 = w_db w0"
    using run(3) by (auto simp: sch_run_def sch_good_def store_inv_def)
  have call: "sd_PromoteDue (pg_scheduler cfg) (sc_PromoteBatch cfg) w0 = (fst ?op, next_tick (w0\<lparr>w_db := snd ?op\<rparr>))"
    using w0(2) by (simp add: db_call_eq)
  have tick: "w_tick w' = Suc (w_tick w0)" using last call by auto
  have "e_locked (w_env w0) (w_tick w0) d"
    if ok: "fault_of w0 = None" "ids_fresh w0 (sc_PromoteBatch cfg)" and d: "d \<in> set (deliveries (w_db w'))"
      "is_due DeliveryScheduled d_SendAt (now_of w0) d" for d
  proof -
    have "\<exists>n. fst ?op = Inr n"
      using promote.commits [OF w0(1), of "sc_PromoteBatch cfg" "e_uuid (w_env w0) (w_tick w0)"] pos ok
      by (simp add: ids_fresh_def)
    then obtain n where n: "?op = (Inr n, snd ?op)" "n < sc_PromoteBatch cfg" "deliveries (w_db w') = deliveries (snd ?op)"
      using last call by (auto simp: prod_eq_iff)
    show ?thesis by (rule promote.drained [OF w0(1) n(1) _ n(2)]) (use d n(3) in simp_all)
  qed
  then show ?thesis using run tick by (auto simp: sch_run_def sch_good_def)
qed

text \<open>
  The retry sweep returns under the same conditions and, when its last call met no fault
  and drew fresh identifiers, leaves no retrying delivery behind that was due at that call and not
  held by another transaction.
\<close>

theorem sweepRetries_drains:
  assumes pos: "0 < sc_PromoteBatch cfg" and good: "sch_good w"
  shows "\<exists>w' w0. sweepRetries (pg_scheduler cfg) w = Some w' \<and> store_inv (w_db w')
    \<and> w_env w0 = w_env w \<and> w_tick w \<le> w_tick w0 \<and> w_tick w' = Suc (w_tick w0)
    \<and> (fault_of w0 = None \<and> ids_fresh w0 (sc_PromoteBatch cfg) \<longrightarrow>
         (\<forall>d\<in>set (deliveries (w_db w')). is_due DeliveryRetrying d_NextRetryAt (now_of w0) d
            \<longrightarrow> e_locked (w_env w0) (w_tick w0) d))"
proof -
  have "sch_run (w_env w) (w_tick w) w" using good by (simp add: sch_run_def)
  from sweep_loop.returns [OF pos this] obtain w' w0 w1 where
    run: "sweepRetries (pg_scheduler cfg) w = Some w'" "sch_run (w_env w) (w_tick w) w'" "sch_run (w_env w) (w_tick w) w0"
    and last: "(\<exists>e. sd_SweepRetries (pg_scheduler cfg) (sc_PromoteBatch cfg) w0 = (Inl e, w1) \<and> w' = w1)
      \<or> (\<exists>n. sd_SweepRetries (pg_scheduler cfg) (sc_PromoteBatch cfg) w0 = (Inr n, w1) \<and> n < sc_PromoteBatch cfg \<and> w' = w1)"
    by blast
  let ?op = "SweepRetries (fault_of w0) (now_of w0) (e_locked (w_env w0) (w_tick w0)) (e_uuid (w_env w0) (w_tick w0)) (sc_PromoteBatch cfg) (w_db w0)"
  have w0: "wf_store (w_db w0)" "before w0 = w_db w0"
    using run(3) by (auto simp: sch_run_def sch_good_def store_inv_def)
  have call: "sd_SweepRetries (pg_scheduler cfg) (sc_PromoteBatch cfg) w0 = (fst ?op, next_tick (w0\<lparr>w_db := snd ?op\<rparr>))"
    using w0(2) by (simp add: db_call_eq)
  have tick: "w_tick w' = Suc (w_tick w0)" using last call by auto
  have "e_locked (w_env w0) (w_tick w0) d"
    if ok: "fault_of w0 = None" "ids_fresh w0 (sc_PromoteBatch cfg)" and d: "d \<in> set (deliveries (w_db w'))"
      "is_due DeliveryRetrying d_NextRetryAt (now_of w0) d" for d
  proof -
    have "\<exists>n. fst ?op = Inr n"
      using sweep.commits [OF w0(1), of "sc_PromoteBatch cfg" "e_uuid (w_env w0) (w_tick w0)"] pos ok
      by (simp add: ids_fresh_def)
    then obtain n where n: "?op = (Inr n, snd ?op)" "n < sc_PromoteBatch cfg" "deliveries (w_db w') = deliveries (snd ?op)"
      using last call by (auto simp: prod_eq_iff)
    show ?thesis by (rule sweep.drained [OF w0(1) n(1) _ n(2)]) (use d n(3) in simp_all)
  qed
  then show ?thesis using run tick by (auto simp: sch_run_def sch_good_def)
qed

text \<open>A batch size of zero makes the promotion job run for ever.\<close>

lemma promoteDue_zero_batch:
  assumes "sc_PromoteBatch cfg = 0" "alone (w_env w)" "\<forall>k. e_fault (w_env w) k = None" "wf_store (w_db w)"
  shows "promoteDue (pg_scheduler cfg) w = None"
proof (rule ccontr)
  assume "promoteDue (pg_scheduler cfg) w \<noteq> None"
  then obtain w' where run: "promoteDue (pg_scheduler cfg) w = Some w'" by blast
  let ?I = "\<lambda>w. alone (w_env w) \<and> (\<forall>k. e_fault (w_env w) k = None) \<and> wf_store (w_db w)"
  have "pg_scheduler cfg = pg_scheduler cfg \<longrightarrow> \<not> ?I w"
  proof (rule promoteDue.raw_induct [where P = "\<lambda>S w r. S = pg_scheduler cfg \<longrightarrow> \<not> ?I w", OF _ run], goal_cases)
    case (1 rec S w r)
    show ?case
    proof (intro impI notI)
      assume S: "S = pg_scheduler cfg" and I: "?I w"
      have "due_query DeliveryScheduled d_SendAt (now_of w) (e_locked (w_env w) (w_tick w)) 0 (w_db w)
          = Inr ([], w_db w)"
        using I due_query_eq [of "w_db w" DeliveryScheduled d_SendAt "now_of w" "e_locked (w_env w) (w_tick w)" 0]
        by (simp add: due_selection_def upd_where_def)
      then have step: "sd_PromoteDue (pg_scheduler cfg) 0 w = (Inr 0, next_tick w)"
        using I by (simp add: db_call_eq PromoteDue_def transitionAndEnqueue_def withTx_def fault_of_def
            scanDueRows_def Let_def)
      then have "rec (pg_scheduler cfg) (next_tick w) = Some r"
        using 1(2) assms(1) S by (simp del: pg_scheduler_simps(2))
      from 1(1) [OF this] I show False by simp
    qed
  qed
  then show False using assms by simp
qed


section \<open>The outbox relay\<close>

text \<open>The message of an outbox row, as the relay publishes it.\<close>

definition publication :: "outbox_row \<Rightarrow> event" where
  "publication o' = Published (o_Stream o') (o_Payload o')"

text \<open>
  Publishing a batch: the tables do not change, nothing is unpublished, and an identifier is
  reported exactly when its message was appended to the stream.
\<close>

lemma publish_entries_spec:
  assumes "publish_entries (pg_scheduler cfg) es acc w = (ids, w')"
  shows "w_db w' = w_db w \<and> w_env w' = w_env w
    \<and> (\<exists>ok. set ok \<subseteq> set es \<and> ids = acc @ map oe_ID ok
         \<and> w_events w' = w_events w @ map (\<lambda>e. Published (oe_Stream e) (oe_Message e)) ok)"
  using assms
proof (induction es arbitrary: acc w)
  case (Cons e es)
  obtain r w1 where one: "redis_call [Published (oe_Stream e) (oe_Message e)] w = (r, w1)" by force
  show ?case
  proof (cases "rfault_of w")
    case (Some msg)
    then have r: "r = Inl (ErrInfra msg)" and w1: "w1 = next_tick w" using one by (simp_all add: redis_call_def)
    then have "publish_entries (pg_scheduler cfg) es acc (next_tick w) = (ids, w')" using Cons.prems one by simp
    from Cons.IH [OF this] show ?thesis by auto
  next
    case None
    then have r: "r = Inr ()" and w1: "w1 = emit (Published (oe_Stream e) (oe_Message e)) (next_tick w)"
      using one by (simp_all add: redis_call_def)
    then have "publish_entries (pg_scheduler cfg) es (acc @ [oe_ID e]) w1 = (ids, w')" using Cons.prems one by simp
    from Cons.IH [OF this] obtain ok where "set ok \<subseteq> set es" "ids = (acc @ [oe_ID e]) @ map oe_ID ok"
      "w_db w' = w_db w1" "w_env w' = w_env w1"
      "w_events w' = w_events w1 @ map (\<lambda>e. Published (oe_Stream e) (oe_Message e)) ok" by auto
    then show ?thesis by (intro conjI exI [of _ "e # ok"]) (auto simp: w1)
  qed
qed simp

text \<open>
  The other processes insert outbox rows, unpublished ones, and keep the invariant; only the
  relay marks rows.
\<close>

definition relay_env :: "env \<Rightarrow> bool" where
  "relay_env E \<longleftrightarrow> (\<forall>k st. store_inv st \<longrightarrow> store_inv (e_others E k st)
     \<and> (\<exists>new. outbox (e_others E k st) = outbox st @ new \<and> list_all unpublished new))"

definition published_ok :: "event list \<Rightarrow> store \<Rightarrow> bool" where
  "published_ok evs st \<longleftrightarrow> (\<forall>o'\<in>set (outbox st). \<not> unpublished o' \<longrightarrow> publication o' \<in> set evs)"

definition relay_good :: "world \<Rightarrow> bool" where
  "relay_good w \<longleftrightarrow> store_inv (w_db w) \<and> relay_env (w_env w) \<and> published_ok (w_events w) (w_db w)"

lemma relay_before:
  assumes "relay_good w"
  obtains new where "store_inv (before w)" "outbox (before w) = outbox (w_db w) @ new" "list_all unpublished new"
  using assms by (auto simp: relay_good_def relay_env_def before_def)

lemma published_ok_others:
  assumes "relay_good w"
  shows "published_ok (w_events w) (before w)"
proof -
  obtain new where "outbox (before w) = outbox (w_db w) @ new" "list_all unpublished new"
    using relay_before [OF assms] by blast
  then show ?thesis using assms by (auto simp: relay_good_def published_ok_def list_all_iff)
qed

lemma published_ok_mark:
  assumes ok: "published_ok evs st"
    and ids: "\<forall>o'\<in>set (outbox st). o_ID o' \<in> set ids \<longrightarrow> publication o' \<in> set evs"
  shows "published_ok evs (snd (MarkOutboxPublished flt now ids st))"
  using assms
  by (auto simp: published_ok_def MarkOutboxPublished_def unpublished_def publication_def
      elim!: in_upd_whereE split: option.splits)

lemma relay_step_good:
  assumes good: "relay_good w"
    and fetch: "sd_FetchUnpublishedOutbox (pg_scheduler cfg) n w = (Inr es, w1)"
    and pub: "publish_entries (pg_scheduler cfg) es [] w1 = (ids, w2)"
    and mark: "sd_MarkOutboxPublished (pg_scheduler cfg) ids w2 = (r, w3)"
  shows "relay_good w3"
proof -
  obtain new where inv: "store_inv (before w)" using relay_before [OF good] by blast
  have w1: "w1 = next_tick (w\<lparr>w_db := before w\<rparr>)"
    and es: "\<forall>e\<in>set es. \<exists>o'\<in>set (outbox (before w)). e = entry_of o'"
    using fetch
    by (auto simp: db_query_eq FetchUnpublishedOutbox_def sql_limit_def split: option.splits if_splits dest!: in_set_takeD)
      blast
  obtain ok where ok: "set ok \<subseteq> set es" "ids = map oe_ID ok" "w_db w2 = before w" "w_env w2 = w_env w"
    "w_events w2 = w_events w @ map (\<lambda>e. Published (oe_Stream e) (oe_Message e)) ok"
    using publish_entries_spec [OF pub] by (auto simp: w1)
  have good2: "relay_good w2"
    using good inv published_ok_others [OF good] ok(3-5) by (auto simp: relay_good_def published_ok_def)
  obtain new where b2: "store_inv (before w2)" "outbox (before w2) = outbox (before w) @ new"
    using relay_before [OF good2] ok(3) by metis
  have "publication o' \<in> set (w_events w2)" if o: "o' \<in> set (outbox (before w2))" "o_ID o' \<in> set ids" for o'
  proof -
    obtain e where e: "e \<in> set ok" "oe_ID e = o_ID o'" using o(2) ok(2) by auto
    then obtain x where x: "x \<in> set (outbox (before w))" "e = entry_of x" using es ok(1) by blast
    have "x = o'"
      using o(1) x b2 e(2) wf_outbox_ids [OF b2(1)] distinct_key_unique [of o_ID "outbox (before w2)" x o']
      by (simp add: entry_of_def)
    then have "publication o' = Published (oe_Stream e) (oe_Message e)" using x(2) by (simp add: publication_def entry_of_def)
    then show ?thesis using e(1) ok(5) by simp
  qed
  then have "published_ok (w_events w2) (snd (MarkOutboxPublished (fault_of w2) (now_of w2) ids (before w2)))"
    using published_ok_others [OF good2] by (intro published_ok_mark) auto
  moreover have "store_inv (snd (MarkOutboxPublished (fault_of w2) (now_of w2) ids (before w2)))"
    using b2(1) by (rule MarkOutboxPublished_inv)
  moreover have "w3 = next_tick (w2\<lparr>w_db := snd (MarkOutboxPublished (fault_of w2) (now_of w2) ids (before w2))\<rparr>)"
    using mark by (simp add: db_call_eq)
  ultimately show ?thesis using good2 by (simp add: relay_good_def)
qed

lemma relay_fetch_good:
  assumes "relay_good w" "sd_FetchUnpublishedOutbox (pg_scheduler cfg) n w = (r, w1)"
  shows "relay_good w1"
proof -
  have "w1 = next_tick (w\<lparr>w_db := before w\<rparr>)" using assms(2) by (simp add: db_query_eq)
  then show ?thesis
    using assms(1) published_ok_others [OF assms(1)] relay_before [OF assms(1)] by (auto simp: relay_good_def)
qed

text \<open>
  C7. Publish before mark: whenever the relay returns, every outbox row that is marked as
  published has had its message appended to its stream, with every fault of the drivers and every
  insertion by other processes.  A row is never marked without its message being out.
\<close>

theorem relay_publishes_before_mark:
  assumes good: "relay_good w" and run: "relayOutbox (pg_scheduler cfg) w = Some w'"
  shows "\<forall>o'\<in>set (outbox (w_db w')). o_PublishedAt o' \<noteq> None \<longrightarrow> Published (o_Stream o') (o_Payload o') \<in> set (w_events w')"
proof -
  have "pg_scheduler cfg = pg_scheduler cfg \<longrightarrow> relay_good w \<longrightarrow> relay_good w'"
  proof (rule relayOutbox.raw_induct [where P = "\<lambda>S w r. S = pg_scheduler cfg \<longrightarrow> relay_good w \<longrightarrow> relay_good r", OF _ run], goal_cases)
    case (1 rec S w r)
    show ?case
    proof (intro impI)
      assume S: "S = pg_scheduler cfg" and g: "relay_good w"
      let ?n = "sc_OutboxBatchSize (sc_cfg S)"
      obtain res w1 where fetch: "sd_FetchUnpublishedOutbox S ?n w = (res, w1)" by force
      have g1: "relay_good w1" using relay_fetch_good [OF g] fetch S by blast
      show "relay_good r"
      proof (cases res)
        case (Inl e)
        then show ?thesis using 1(2) fetch g1 by simp
      next
        case (Inr es)
        obtain ids w2 where pub: "publish_entries S es [] w1 = (ids, w2)" by force
        obtain m w3 where mark: "sd_MarkOutboxPublished S ids w2 = (m, w3)" by force
        have "relay_good w3" using relay_step_good [OF g] fetch pub mark Inr S by blast
        then show ?thesis using 1 S g1 fetch pub mark Inr by (auto split: if_splits sum.splits)
      qed
    qed
  qed
  then have "published_ok (w_events w') (w_db w')" using good by (simp add: relay_good_def)
  then show ?thesis by (auto simp: published_ok_def unpublished_def publication_def)
qed


section \<open>The relay drains the outbox\<close>

definition backlog :: "store \<Rightarrow> outbox_row list" where
  "backlog st = filter unpublished (outbox st)"

text \<open>Without Redis faults every entry of a batch is published and reported, in order.\<close>

lemma publish_entries_all:
  assumes "\<forall>k. e_rfault (w_env w) k = None" "publish_entries (pg_scheduler cfg) es acc w = (ids, w')"
  shows "ids = acc @ map oe_ID es \<and> w_db w' = w_db w \<and> w_env w' = w_env w
    \<and> w_events w' = w_events w @ map (\<lambda>e. Published (oe_Stream e) (oe_Message e)) es"
  using assms
proof (induction es arbitrary: acc w)
  case (Cons e es)
  let ?w1 = "emit (Published (oe_Stream e) (oe_Message e)) (next_tick w)"
  have "publish_entries (pg_scheduler cfg) es (acc @ [oe_ID e]) ?w1 = (ids, w')"
    using Cons.prems by (simp add: redis_call_def rfault_of_def)
  from Cons.IH [OF _ this] Cons.prems(1) show ?case by simp
qed simp

lemma publish_entries_none:
  assumes "\<forall>k. e_rfault (w_env w) k \<noteq> None" "publish_entries (pg_scheduler cfg) es acc w = (ids, w')"
  shows "ids = acc \<and> w_db w' = w_db w \<and> w_env w' = w_env w"
  using assms
proof (induction es arbitrary: acc w)
  case (Cons e es)
  obtain err where "e_rfault (w_env w) (w_tick w) = Some err" using Cons.prems(1) by blast
  then have "publish_entries (pg_scheduler cfg) es acc (next_tick w) = (ids, w')"
    using Cons.prems(2) by (simp add: redis_call_def rfault_of_def)
  from Cons.IH [OF _ this] Cons.prems(1) show ?case by simp
qed simp

lemma backlog_mark:
  assumes "ids \<noteq> []"
  shows "backlog (snd (MarkOutboxPublished None now ids st)) = filter (\<lambda>o'. o_ID o' \<notin> set ids) (backlog st)"
proof -
  have "filter unpublished (upd_where (\<lambda>o'. o_ID o' \<in> set ids) (\<lambda>o'. o'\<lparr>o_PublishedAt := Some now\<rparr>) os)
      = filter (\<lambda>o'. o_ID o' \<notin> set ids) (filter unpublished os)" for os
    by (induction os) (auto simp: unpublished_def)
  then show ?thesis using assms by (simp add: backlog_def MarkOutboxPublished_def)
qed

lemma mset_filter_not_taken:
  assumes "distinct (map k ys)" "mset ys = mset xs"
  shows "mset (filter (\<lambda>x. k x \<notin> set (map k (take n ys))) xs) = mset (drop n ys)"
proof -
  have "distinct (map k (take n ys @ drop n ys))" unfolding append_take_drop_id by (rule assms(1))
  then have "filter (\<lambda>x. k x \<notin> set (map k (take n ys))) (take n ys @ drop n ys) = drop n ys"
    by (auto simp del: append_take_drop_id simp: filter_empty_conv filter_id_conv)
  then have "mset (filter (\<lambda>x. k x \<notin> set (map k (take n ys))) ys) = mset (drop n ys)" by simp
  then show ?thesis using assms(2) by (metis mset_filter)
qed

definition relay_calm :: "world \<Rightarrow> bool" where
  "relay_calm w \<longleftrightarrow> alone (w_env w) \<and> store_inv (w_db w) \<and> (\<forall>k. e_fault (w_env w) k = None)
     \<and> (\<forall>k. e_rfault (w_env w) k = None) \<and> (\<forall>k o'. \<not> e_locked_outbox (w_env w) k o')"

text \<open>The relay touches nothing but the outbox.\<close>

definition only_outbox :: "world \<Rightarrow> world \<Rightarrow> bool" where
  "only_outbox w w' \<longleftrightarrow> w_env w' = w_env w \<and> (w_db w')\<lparr>outbox := []\<rparr> = (w_db w)\<lparr>outbox := []\<rparr>"

lemma only_outbox_trans [trans]: "only_outbox w w1 \<Longrightarrow> only_outbox w1 w2 \<Longrightarrow> only_outbox w w2"
  by (simp add: only_outbox_def)

lemma only_outbox_tables:
  assumes "only_outbox w w'"
  shows "w_env w' = w_env w" "requests (w_db w') = requests (w_db w)" "deliveries (w_db w') = deliveries (w_db w)"
proof -
  have "requests ((w_db w')\<lparr>outbox := []\<rparr>) = requests ((w_db w)\<lparr>outbox := []\<rparr>)"
    "deliveries ((w_db w')\<lparr>outbox := []\<rparr>) = deliveries ((w_db w)\<lparr>outbox := []\<rparr>)"
    using assms by (simp_all only: only_outbox_def)
  then show "w_env w' = w_env w" "requests (w_db w') = requests (w_db w)" "deliveries (w_db w') = deliveries (w_db w)"
    using assms by (simp_all add: only_outbox_def)
qed

text \<open>One round of the relay in a calm world with a backlog.\<close>

lemma relay_round:
  assumes calm: "relay_calm w" and n: "0 < n"
  defines "batch \<equiv> take (nat n) (sort_key o_CreatedAt (backlog (w_db w)))"
  shows "sd_FetchUnpublishedOutbox (pg_scheduler cfg) n w = (Inr (map entry_of batch), next_tick w)"
    and "publish_entries (pg_scheduler cfg) (map entry_of batch) [] (next_tick w) = (ids, w2) \<Longrightarrow>
      sd_MarkOutboxPublished (pg_scheduler cfg) ids w2 = (r, w3) \<Longrightarrow> batch \<noteq> [] \<Longrightarrow>
      r = Inr () \<and> relay_calm w3 \<and> w_events w3 = w_events w @ map publication batch
      \<and> mset (backlog (w_db w)) = mset batch + mset (backlog (w_db w3)) \<and> only_outbox w w3"
proof -
  have c: "before w = w_db w" "fault_of w = None" using calm by (auto simp: relay_calm_def fault_of_def)
  have "filter (\<lambda>o'. \<not> e_locked_outbox (w_env w) (w_tick w) o') os = os" for os
    using calm by (auto simp: relay_calm_def filter_id_conv)
  then show fetch: "sd_FetchUnpublishedOutbox (pg_scheduler cfg) n w = (Inr (map entry_of batch), next_tick w)"
    using c n by (simp add: db_query_eq FetchUnpublishedOutbox_def sql_limit_def batch_def backlog_def)
  assume pub: "publish_entries (pg_scheduler cfg) (map entry_of batch) [] (next_tick w) = (ids, w2)"
    and mark: "sd_MarkOutboxPublished (pg_scheduler cfg) ids w2 = (r, w3)" and ne: "batch \<noteq> []"
  have p: "ids = map o_ID batch" "w_db w2 = w_db w" "w_env w2 = w_env w" "w_events w2 = w_events w @ map publication batch"
    using publish_entries_all [OF _ pub] calm by (simp_all add: relay_calm_def entry_of_def publication_def comp_def)
  have c2: "before w2 = w_db w" "fault_of w2 = None" using calm p(2,3) by (auto simp: relay_calm_def fault_of_def)
  define st3 where "st3 = snd (MarkOutboxPublished None (now_of w2) ids (w_db w))"
  have r: "r = Inr ()" and w3: "w3 = next_tick (w2\<lparr>w_db := st3\<rparr>)"
    using mark c2 by (auto simp: db_call_eq st3_def MarkOutboxPublished_def)
  have inv: "store_inv (w_db w)" using calm by (simp add: relay_calm_def)
  have "store_inv st3" unfolding st3_def by (rule MarkOutboxPublished_inv [OF inv])
  then have calm3: "relay_calm w3" using calm p(3) by (simp add: relay_calm_def w3)
  have "distinct (map o_ID (backlog (w_db w)))"
    using wf_outbox_ids [OF inv] by (simp add: backlog_def distinct_map_filter)
  then have d: "distinct (map o_ID (sort_key o_CreatedAt (backlog (w_db w))))"
    by (metis mset_eq_imp_distinct_iff mset_map mset_sort)
  have "backlog st3 = filter (\<lambda>o'. o_ID o' \<notin> set (map o_ID batch)) (backlog (w_db w))"
    using backlog_mark [of ids] p(1) ne by (simp add: st3_def)
  then have "mset (backlog st3) = mset (drop (nat n) (sort_key o_CreatedAt (backlog (w_db w))))"
    using mset_filter_not_taken [OF d, of "backlog (w_db w)" "nat n"] by (simp add: batch_def)
  moreover have "mset batch + mset (drop (nat n) (sort_key o_CreatedAt (backlog (w_db w)))) = mset (backlog (w_db w))"
    unfolding batch_def by (metis append_take_drop_id mset_append mset_sort)
  ultimately have "mset (backlog (w_db w)) = mset batch + mset (backlog (w_db w3))" by (simp add: w3)
  moreover have "only_outbox w w3" using p(3) by (simp add: only_outbox_def w3 st3_def MarkOutboxPublished_def)
  ultimately show "r = Inr () \<and> relay_calm w3 \<and> w_events w3 = w_events w @ map publication batch
      \<and> mset (backlog (w_db w)) = mset batch + mset (backlog (w_db w3)) \<and> only_outbox w w3"
    using r calm3 p(4) by (simp add: w3)
qed

lemma relay_total:
  assumes n: "0 < sc_OutboxBatchSize cfg" and calm: "relay_calm w"
  shows "\<exists>w' evs. relayOutbox (pg_scheduler cfg) w = Some w' \<and> backlog (w_db w') = [] \<and> relay_calm w' \<and> only_outbox w w'
    \<and> w_events w' = w_events w @ evs \<and> mset evs = mset (map publication (backlog (w_db w)))"
  using calm
proof (induction "length (backlog (w_db w))" arbitrary: w rule: less_induct)
  case less
  let ?S = "pg_scheduler cfg" and ?n = "sc_OutboxBatchSize cfg"
  let ?batch = "take (nat ?n) (sort_key o_CreatedAt (backlog (w_db w)))"
  note fetch = relay_round(1) [OF less.prems n, of cfg]
  have size: "size (mset ?batch) = min (length (backlog (w_db w))) (nat ?n)" by simp
  show ?case
  proof (cases "?batch = []")
    case True
    then have "backlog (w_db w) = []" using n by (simp add: take_eq_Nil) (metis length_0_conv length_sort)
    then show ?thesis using fetch True less.prems by (subst relayOutbox.simps) (auto simp: only_outbox_def relay_calm_def simp del: pg_scheduler_simps(6))
  next
    case False
    obtain ids w2 where pub: "publish_entries ?S (map entry_of ?batch) [] (next_tick w) = (ids, w2)" by force
    obtain r w3 where mark: "sd_MarkOutboxPublished ?S ids w2 = (r, w3)" by force
    note round = relay_round(2) [OF less.prems n pub mark False]
    have unfold: "relayOutbox ?S w = (if int (length ?batch) < ?n then Some w3 else relayOutbox ?S w3)"
      using fetch pub mark round False
      by (subst relayOutbox.simps) (simp del: pg_scheduler_simps(6,7) take_eq_Nil length_take)
    have len: "length (backlog (w_db w)) = length ?batch + length (backlog (w_db w3))"
      using round by (metis size_mset size_union)
    show ?thesis
    proof (cases "int (length ?batch) < ?n")
      case True
      then have "length ?batch = length (backlog (w_db w))" by simp
      then have "backlog (w_db w3) = []" using len by (metis add_left_cancel add_0_right length_0_conv)
      moreover from this have "mset (map publication ?batch) = mset (map publication (backlog (w_db w)))"
        unfolding mset_map using round by (metis add_0_right mset.simps(1))
      ultimately show ?thesis using unfold True round by (metis (no_types))
    next
      case full: False
      have "length (backlog (w_db w3)) < length (backlog (w_db w))" using len False by (cases ?batch) auto
      from less.hyps [OF this] round obtain w' evs where
        rest: "relayOutbox ?S w3 = Some w'" "backlog (w_db w') = []" "w_events w' = w_events w3 @ evs"
          "mset evs = mset (map publication (backlog (w_db w3)))" "relay_calm w'" "only_outbox w3 w'" by blast
      have "mset (map publication (backlog (w_db w))) = image_mset publication (mset ?batch + mset (backlog (w_db w3)))"
        unfolding mset_map using round by presburger
      then have "mset (map publication ?batch @ evs) = mset (map publication (backlog (w_db w)))"
        unfolding mset_append rest(4) mset_map image_mset_union by (rule sym)
      moreover have "only_outbox w w'" using round rest(6) by (blast intro: only_outbox_trans)
      ultimately show ?thesis using unfold full rest round by auto
    qed
  qed
qed

text \<open>
  In a calm environment the relay returns with the outbox drained, and it has published the
  message of every row of the backlog exactly once.
\<close>

theorem relay_drains:
  assumes n: "0 < sc_OutboxBatchSize cfg" and calm: "relay_calm w"
  shows "\<exists>w' evs. relayOutbox (pg_scheduler cfg) w = Some w' \<and> backlog (w_db w') = []
    \<and> w_events w' = w_events w @ evs \<and> mset evs = mset (map publication (backlog (w_db w)))"
  using relay_total [OF assms] by blast

text \<open>
  C38. While Redis refuses every publication and the backlog fills a batch, the relay never
  returns: it fetches the same rows again at once, instead of leaving them to a later tick.
\<close>

theorem relay_spins:
  assumes n: "0 < sc_OutboxBatchSize cfg" and full: "sc_OutboxBatchSize cfg \<le> int (length (backlog (w_db w)))"
    and env: "alone (w_env w)" "\<forall>k. e_fault (w_env w) k = None" "\<forall>k. e_rfault (w_env w) k \<noteq> None"
      "\<forall>k o'. \<not> e_locked_outbox (w_env w) k o'"
  shows "relayOutbox (pg_scheduler cfg) w = None"
proof (rule ccontr)
  assume "relayOutbox (pg_scheduler cfg) w \<noteq> None"
  then obtain w' where run: "relayOutbox (pg_scheduler cfg) w = Some w'" by blast
  let ?n = "sc_OutboxBatchSize cfg"
  let ?I = "\<lambda>w. ?n \<le> int (length (backlog (w_db w))) \<and> alone (w_env w) \<and> (\<forall>k. e_fault (w_env w) k = None)
     \<and> (\<forall>k. e_rfault (w_env w) k \<noteq> None) \<and> (\<forall>k o'. \<not> e_locked_outbox (w_env w) k o')"
  have "pg_scheduler cfg = pg_scheduler cfg \<longrightarrow> \<not> ?I w"
  proof (rule relayOutbox.raw_induct [where P = "\<lambda>S w r. S = pg_scheduler cfg \<longrightarrow> \<not> ?I w", OF _ run], goal_cases)
    case (1 rec S w r)
    show ?case
    proof (intro impI notI)
      assume S: "S = pg_scheduler cfg" and I: "?I w"
      let ?es = "map entry_of (take (nat ?n) (sort_key o_CreatedAt (backlog (w_db w))))"
      have "filter (\<lambda>o'. \<not> e_locked_outbox (w_env w) (w_tick w) o') os = os" for os
        using I by (simp add: filter_id_conv)
      then have fetch: "sd_FetchUnpublishedOutbox S ?n w = (Inr ?es, next_tick w)"
        using I n S by (simp add: db_query_eq FetchUnpublishedOutbox_def sql_limit_def backlog_def fault_of_def)
      have "nat ?n \<le> length (backlog (w_db w))" using I n by linarith
      then have len: "int (length ?es) = ?n" using n by simp
      then have ne: "?es \<noteq> []" using n by (intro notI) (simp del: take_eq_Nil)
      obtain ids w2 where pub: "publish_entries S ?es [] (next_tick w) = (ids, w2)" by force
      have w2: "ids = []" "w_db w2 = w_db w" "w_env w2 = w_env w"
        using publish_entries_none [of "next_tick w" cfg ?es "[]" ids w2] pub S I by simp_all
      then have mark: "sd_MarkOutboxPublished S ids w2 = (Inr (), next_tick (w2\<lparr>w_db := w_db w\<rparr>))"
        using I S by (simp add: db_call_eq MarkOutboxPublished_def)
      have "rec S (next_tick (w2\<lparr>w_db := w_db w\<rparr>)) = Some r"
        using 1(2) S fetch pub mark len ne by (simp del: pg_scheduler_simps(6,7) take_eq_Nil length_take length_map map_is_Nil_conv)
      from 1(1) [OF this] I S w2 show False by simp
    qed
  qed
  then show False using assms by simp
qed


section \<open>Witnesses\<close>

definition sample_scheduler :: SchedulerConfig where
  "sample_scheduler = \<lparr>sc_PollInterval = Second, sc_OutboxInterval = Second, sc_OutboxBatchSize = 1,
     sc_PromoteBatch = 2, sc_ReaperInterval = 30 * Second, sc_ReconcileAfter = 60 * Second, sc_RetentionDays = 30,
     sc_PreCreateDays = 3, sc_OutboxRetention = 24 * Hour\<rparr>"

definition sample_row :: outbox_row where
  "sample_row = \<lparr>o_ID = 9, o_DeliveryID = 2, o_DeliveryCreatedAt = 5000, o_Stream = ''notifications.high.sms'',
     o_Payload = \<lparr>m_DeliveryID = 2, m_DeliveryCreatedAt = 5000, m_RequestID = 1, m_Channel = ChannelSMS,
       m_Priority = PriorityHigh, m_CorrelationID = ''''\<rparr>, o_CreatedAt = 5000, o_PublishedAt = None\<rparr>"

definition relay_store :: store where
  "relay_store = empty_store\<lparr>outbox := [sample_row]\<rparr>"

lemma relay_store_inv: "store_inv relay_store"
  by (simp add: relay_store_def store_inv_def wf_store_def counters_ok_def status_ok_def empty_store_def)

lemma store_with_inv:
  assumes "d_RequestID d = 1" "d_Status d \<in> {DeliveryPending, DeliveryScheduled, DeliveryRetrying}"
  shows "store_inv (store_with [d])"
  using assms wf_store_with [of "[d]"]
  by (auto intro!: store_invI simp: counters_ok_def status_ok_def request_status_ok_def delivery_statuses_def AggregateRequestStatus_def sample_simps)

lemma quiet_world [simp]:
  "w_db (world_of st) = st" "w_env (world_of st) = quiet_env" "alone quiet_env"
  "e_fault quiet_env k = None" "e_rfault quiet_env k = None" "\<not> e_locked quiet_env k d" "\<not> e_locked_outbox quiet_env k r"
  by (simp_all add: world_of_def alone_def quiet_env_def)

theorem promoteDue_drains_witness:
  "\<exists>w'. promoteDue (pg_scheduler sample_scheduler) (world_of (store_with [due_later])) = Some w' \<and> store_inv (w_db w')"
proof -
  have "0 < sc_PromoteBatch sample_scheduler" "sch_good (world_of (store_with [due_later]))"
    by (auto simp: sample_scheduler_def sch_good_def due_later_def sample_delivery_def intro!: store_with_inv)
  from promoteDue_drains [OF this] show ?thesis by blast
qed

theorem sweepRetries_drains_witness:
  "\<exists>w'. sweepRetries (pg_scheduler sample_scheduler) (world_of (store_with [retry_due])) = Some w' \<and> store_inv (w_db w')"
proof -
  have "0 < sc_PromoteBatch sample_scheduler" "sch_good (world_of (store_with [retry_due]))"
    by (auto simp: sample_scheduler_def sch_good_def retry_due_def sample_delivery_def intro!: store_with_inv)
  from sweepRetries_drains [OF this] show ?thesis by blast
qed

theorem relay_drains_witness:
  "\<exists>w'. relayOutbox (pg_scheduler sample_scheduler) (world_of relay_store) = Some w'
     \<and> w_events w' = [Published ''notifications.high.sms'' (o_Payload sample_row)]"
proof -
  have "0 < sc_OutboxBatchSize sample_scheduler" "relay_calm (world_of relay_store)"
    by (simp_all add: sample_scheduler_def relay_calm_def relay_store_inv)
  from relay_drains [OF this] show ?thesis
    by (auto simp: backlog_def relay_store_def sample_row_def unpublished_def publication_def world_of_def)
qed

theorem relay_publishes_before_mark_witness:
  "\<exists>w'. relayOutbox (pg_scheduler (sample_scheduler\<lparr>sc_OutboxBatchSize := 2\<rparr>)) (world_of relay_store) = Some w'
     \<and> (\<exists>o'\<in>set (outbox (w_db w')). o_PublishedAt o' \<noteq> None \<and> Published (o_Stream o') (o_Payload o') \<in> set (w_events w'))"
proof -
  let ?cfg = "sample_scheduler\<lparr>sc_OutboxBatchSize := 2\<rparr>"
  have good: "relay_good (world_of relay_store)"
    unfolding relay_good_def quiet_world
    by (intro conjI relay_store_inv)
      (simp_all add: relay_env_def quiet_env_def published_ok_def relay_store_def sample_row_def unpublished_def)
  have "\<exists>w'. relayOutbox (pg_scheduler ?cfg) (world_of relay_store) = Some w' \<and> (\<exists>o'. outbox (w_db w') = [o'] \<and> o_PublishedAt o' \<noteq> None)"
    by (subst relayOutbox.simps) (simp add: db_query_eq db_call_eq FetchUnpublishedOutbox_def sql_limit_def redis_call_def rfault_of_def
        fault_of_def MarkOutboxPublished_def relay_store_def sample_row_def unpublished_def entry_of_def empty_store_def)
  then obtain w' o' where w': "relayOutbox (pg_scheduler ?cfg) (world_of relay_store) = Some w'" "outbox (w_db w') = [o']"
    "o_PublishedAt o' \<noteq> None" by blast
  from relay_publishes_before_mark [OF good w'(1)] w' show ?thesis by simp
qed

theorem relay_spins_witness:
  "relayOutbox (pg_scheduler sample_scheduler)
     ((world_of relay_store)\<lparr>w_env := quiet_env\<lparr>e_rfault := \<lambda>k. Some ''connection refused''\<rparr>\<rparr>) = None"
  by (rule relay_spins)
    (simp_all add: sample_scheduler_def backlog_def relay_store_def sample_row_def unpublished_def alone_def quiet_env_def)


end
