(* ===== verification/Delivery_Path.thy ===== *)
theory Delivery_Path
  imports Worker_Outcome Scheduler_Props
begin

text \<open>
  The path of a notification through the three processes: the service creates it, the relay publishes
  its message, a worker processes that message, and the service shows the result to its owner.
\<close>

section \<open>What a worker leaves alone\<close>

text \<open>
  Processing a message changes no key and no owner of a delivery and nothing of a request but its
  status.
\<close>

definition framed :: "env \<Rightarrow> ((uuid \<times> gotime) \<times> uuid) list \<Rightarrow> Request list \<Rightarrow> world \<Rightarrow> bool" where
  "framed E D R w \<longleftrightarrow> w_env w = E \<and> calm E
     \<and> map (\<lambda>d. (d_key d, d_RequestID d)) (deliveries (w_db w)) = D
     \<and> map (\<lambda>r. r\<lparr>r_Status := RequestPending\<rparr>) (requests (w_db w)) = R"

lemma recompute_requests:
  assumes "recomputeRequestStatusTx i st = Inr st'"
  shows "map (\<lambda>r. r\<lparr>r_Status := RequestPending\<rparr>) (requests st') = map (\<lambda>r. r\<lparr>r_Status := RequestPending\<rparr>) (requests st)"
  using assms
  by (auto simp: recomputeRequestStatusTx_def Let_def adjustBatchCountersTx_def map_upd_where_same
      split: option.splits if_splits)

lemma framed_tx:
  assumes w: "framed E D R w" and f: "\<And>now x. d_key (f now x) = d_key x \<and> d_RequestID (f now x) = d_RequestID x"
  shows "framed E D R (snd (db_call (\<lambda>flt now. withTx flt (\<lambda>st. let st1 = st\<lparr>deliveries := upd_where p (f now) (deliveries st)\<rparr>
    in map_sum id (Pair ()) (recomputeRequestStatusTx i st1))) w))"
proof (cases "recomputeRequestStatusTx i ((w_db w)\<lparr>deliveries := upd_where p (f (now_of w)) (deliveries (w_db w))\<rparr>)")
  case (Inl e)
  then show ?thesis using w by (auto simp: framed_def withTx_def)
next
  case (Inr st')
  then show ?thesis
    using w recompute_frame(1) [OF Inr] recompute_requests [OF Inr] f
    by (auto simp: framed_def withTx_def map_upd_where_same)
qed

lemma framed_marks:
  assumes "framed E D R w"
  shows "framed E D R (snd (db_call (\<lambda>flt now. MarkSent flt now i t rid m) w))"
    "framed E D R (snd (db_call (\<lambda>flt now. MarkFailed flt now i t rid n m) w))"
    "framed E D R (snd (db_call (\<lambda>flt now. MarkRetrying flt now i t n s m) w))"
    "framed E D R (snd (db_call (\<lambda>flt now. ClaimDelivery flt now i t lease) w))"
proof -
  show "framed E D R (snd (db_call (\<lambda>flt now. MarkSent flt now i t rid m) w))"
    unfolding MarkSent_def by (rule framed_tx [OF assms]) (simp add: d_key_def)
  show "framed E D R (snd (db_call (\<lambda>flt now. MarkFailed flt now i t rid n m) w))"
    unfolding MarkFailed_def by (rule framed_tx [OF assms]) (simp add: d_key_def)
  show "framed E D R (snd (db_call (\<lambda>flt now. MarkRetrying flt now i t n s m) w))"
    "framed E D R (snd (db_call (\<lambda>flt now. ClaimDelivery flt now i t lease) w))"
    using assms
    by (auto simp: framed_def MarkRetrying_def ClaimDelivery_eq Let_def d_key_def claimed_row_def map_upd_where_same
        split: option.split)
qed

lemma framed_local:
  "framed E D R (next_tick w) = framed E D R w" "framed E D R (emit e w) = framed E D R w"
  "framed E D R (snd (clock_Now w)) = framed E D R w" "framed E D R (snd (redis_call evs w)) = framed E D R w"
  "framed E D R (snd (sleep_for d w)) = framed E D R w" "framed E D R (snd (provider_call p w)) = framed E D R w"
  "framed E D R w \<Longrightarrow> framed E D R (snd (db_query q w))"
  by (auto simp: framed_def sleep_for_def provider_call_def)

interpretation frame: worker_keeps "pg_worker cfg pol us" "framed E D R" "\<lambda>del. framed E D R" for cfg pol us E D R
proof (unfold_locales, goal_cases)
  case (2 w i t lease del w')
  then show ?case using framed_marks(4) [of E D R w i t lease] by simp
next
  case (3 w i t lease res w')
  then show ?case using framed_marks(4) [of E D R w i t lease] by simp
next
  case (16 publish dm)
  then have "publish = (\<lambda>m. redis_call [DeadLettered m])" by simp
  then show ?case by (simp add: kept_def framed_local)
qed (simp_all add: kept_def framed_local framed_marks)

section \<open>From acceptance to delivery\<close>

text \<open>
  An environment in which nothing fails: no fault of the drivers, no other process at work, budget at
  the limiter, and a provider that accepts.
\<close>

definition ideal :: "env \<Rightarrow> bool" where
  "ideal E \<longleftrightarrow> calm E \<and> (\<forall>k. e_rfault E k = None) \<and> (\<forall>k o'. \<not> e_locked_outbox E k o')
     \<and> (\<forall>k c. fst (e_allow E k c)) \<and> (\<forall>k p. \<not> isl (e_send E k p))"

lemma process_accepted:
  assumes ideal: "ideal (w_env w)" and wf: "wf_store (w_db w)"
    and d: "d \<in> set (deliveries (w_db w))" "at_key (m_DeliveryID (sm_Delivery msg)) (m_DeliveryCreatedAt (sm_Delivery msg)) d"
    and fresh: "d_Status d = DeliveryPending" "0 \<le> d_AttemptCount d"
  shows "\<exists>w' d' req. process (pg_worker cfg pol us) msg w = Some w' \<and> row_at d w' = Some d' \<and> d_Status d' = DeliverySent
    \<and> req \<in> set (requests (w_db w)) \<and> r_ID req = d_RequestID d \<and> calls w' = calls w @ [provider_request us d req]"
proof -
  have calm: "calm (w_env w)" using ideal by (simp add: ideal_def)
  have "0 \<le> d_AttemptCount x" if "x \<in> set (deliveries (e_others (w_env w) n (w_db w)))"
      "at_key (m_DeliveryID (sm_Delivery msg)) (m_DeliveryCreatedAt (sm_Delivery msg)) x" for n x
    using that at_key_unique [OF wf d, of x] calm fresh by (simp add: calm_def)
  then obtain w' where run: "process (pg_worker cfg pol us) msg w = Some w'"
    using process_total [of w msg cfg pol us] by blast
  have can: "claimable (d_Status d)" using fresh by (simp add: claimable_def)
  obtain now lease st2 w4 wb ok where p4: "processing (claimed_row now lease d) st2 w4" "w_env w4 = w_env w"
    "requests st2 = requests (w_db w)" "calls w4 = calls w" and db: "w_db w' = w_db wb" "calls w' = calls wb"
    and rest: "if ok then deliver (pg_worker cfg pol us) msg (claimed_row now lease d) w4 = Some wb
      else wb = requeueWithoutAttempt (pg_worker cfg pol us) (claimed_row now lease d) ''rate limited'' w4"
    and budget: "(\<forall>k c. fst (e_allow (w_env w) k c)) \<longrightarrow> ok"
    by (rule claimed_run [OF calm wf d can run])
  have "deliver (pg_worker cfg pol us) msg (claimed_row now lease d) w4 = Some wb"
    using rest budget ideal by (simp add: ideal_def)
  then obtain d' req n where "row_at d wb = Some d'" "req \<in> set (requests (w_db w))" "r_ID req = d_RequestID d"
    "calls wb = calls w @ [provider_request us d req]"
    and out: "case e_send (w_env w) n (provider_request us d req) of Inr res \<Rightarrow> sent_as d res d'
      | Inl err \<Rightarrow> if breaker_open err then requeued d d' else judged pol d err d'"
    using deliver_outcome [OF p4(1), of cfg pol us msg wb] unfolding claimed_row_same p4(2-4) by auto
  moreover have "d_Status d' = DeliverySent"
    using out ideal by (auto simp: ideal_def isl_def sent_as_def split: sum.splits)
  ultimately show ?thesis using run db by (auto simp: row_at_def)
qed

text \<open>The one delivery of a request, after a run that moved no row.\<close>

lemma only_row:
  assumes same: "map (\<lambda>d. (d_key d, d_RequestID d)) (deliveries st') = map (\<lambda>d. (d_key d, d_RequestID d)) (deliveries st)"
    and one: "filter (\<lambda>x. d_RequestID x = i) (deliveries st) = [d]" and ts: "timestamptz (d_CreatedAt d) = d_CreatedAt d"
    and wf: "wf_store st'" and row: "find_row (at_key (d_ID d) (d_CreatedAt d)) (deliveries st') = Some d'"
  shows "filter (\<lambda>x. d_RequestID x = i) (deliveries st') = [d']"
proof -
  have "map (\<lambda>d. (d_key d, d_RequestID d)) (filter (\<lambda>x. d_RequestID x = i) (deliveries st'))
      = filter (\<lambda>y. snd y = i) (map (\<lambda>d. (d_key d, d_RequestID d)) (deliveries st'))"
    by (simp add: filter_map comp_def)
  also have "\<dots> = map (\<lambda>d. (d_key d, d_RequestID d)) (filter (\<lambda>x. d_RequestID x = i) (deliveries st))"
    unfolding same by (simp add: filter_map comp_def)
  also have "\<dots> = [(d_key d, d_RequestID d)]" by (simp only: one list.map)
  finally obtain x where x: "filter (\<lambda>x. d_RequestID x = i) (deliveries st') = [x]" "d_key x = d_key d"
    by (auto simp: map_eq_Cons_conv)
  have "x \<in> set (filter (\<lambda>x. d_RequestID x = i) (deliveries st'))" by (simp add: x(1))
  then have "x \<in> set (deliveries st')" by simp
  moreover have "d' \<in> set (deliveries st')" "d_key d' = d_key d"
    using find_row_Some [OF row] ts by (auto simp: at_key_def d_key_def)
  ultimately have "x = d'" using x(2) wf by (auto simp: wf_store_def intro: distinct_key_unique)
  with x show ?thesis by simp
qed

lemma sent_request:
  assumes "store_inv st" "filter (\<lambda>x. d_RequestID x = r_ID r) (deliveries st) = [d]" "d_Status d = DeliverySent"
    "r \<in> set (requests st)"
  shows "r_Status r = RequestSent"
  using assms by (simp add: store_inv_def status_ok_def request_status_ok_def delivery_statuses_def AggregateRequestStatus_def)

lemma same_request:
  assumes "map (\<lambda>r. r\<lparr>r_Status := RequestPending\<rparr>) (requests st') = map (\<lambda>r. r\<lparr>r_Status := RequestPending\<rparr>) (requests st)"
    and "wf_store st'" "r \<in> set (requests st)"
  shows "\<exists>s. GetRequestByID None (r_ID r) st' = Inr (r\<lparr>r_Status := s\<rparr>) \<and> r\<lparr>r_Status := s\<rparr> \<in> set (requests st')"
proof -
  have "(r\<lparr>r_Status := RequestPending\<rparr>) \<in> set (map (\<lambda>r. r\<lparr>r_Status := RequestPending\<rparr>) (requests st'))"
    unfolding assms(1) using assms(3) by simp
  then obtain x where x: "x \<in> set (requests st')" "r\<lparr>r_Status := RequestPending\<rparr> = x\<lparr>r_Status := RequestPending\<rparr>" by auto
  then have "r_Status_update (\<lambda>_. r_Status x) (r\<lparr>r_Status := RequestPending\<rparr>) = x" by simp
  then have r: "x = r\<lparr>r_Status := r_Status x\<rparr>" by simp
  have "find_row (\<lambda>y. r_ID y = r_ID x) (requests st') = Some x"
    using assms(2) x(1) by (intro find_row_key) (simp_all add: wf_store_def)
  moreover have "r_ID x = r_ID r" by (subst r) simp
  ultimately have "GetRequestByID None (r_ID r) st' = Inr x" by (simp add: GetRequestByID_def scanRequest_def)
  with x(1) r show ?thesis by metis
qed

lemma sort_single: "sort_key f xs = [x] \<longleftrightarrow> xs = [x]"
proof
  assume s: "sort_key f xs = [x]"
  have "mset xs = {#x#}" using arg_cong [OF s, of mset] by simp
  then show "xs = [x]" by simp
qed simp

lemma Get_calm:
  assumes "calm (w_env w)" "GetRequestByID None i (w_db w) = Inr r" "r_UserID r = u" "filter (\<lambda>x. d_RequestID x = i) (deliveries (w_db w)) = [d]"
  shows "fst (Get pg_service u i w) = Inr \<lparr>v_Request = r, v_Deliveries = [d]\<rparr>"
  using assms by (simp add: Get_def pg_simps db_query_eq GetDeliveriesByRequest_def)

text \<open>The worker's part of the path.\<close>

lemma worker_delivers:
  assumes ideal: "ideal (w_env w)" and inv: "store_inv (w_db w)" and r: "r \<in> set (requests (w_db w))"
    and one: "filter (\<lambda>x. d_RequestID x = r_ID r) (deliveries (w_db w)) = [d]"
    and d: "d_Status d = DeliveryPending" "0 \<le> d_AttemptCount d" "timestamptz (d_CreatedAt d) = d_CreatedAt d"
      "at_key (m_DeliveryID (sm_Delivery msg)) (m_DeliveryCreatedAt (sm_Delivery msg)) d"
  shows "\<exists>w' d'. process (pg_worker cfg pol us) msg w = Some w' \<and> calls w' = calls w @ [provider_request us d r]
    \<and> fst (Get pg_service (r_UserID r) (r_ID r) w') = Inr \<lparr>v_Request = r\<lparr>r_Status := RequestSent\<rparr>, v_Deliveries = [d']\<rparr>
    \<and> d_Status d' = DeliverySent"
proof -
  have calm: "calm (w_env w)" using ideal by (simp add: ideal_def)
  have wf: "wf_store (w_db w)" using inv by (rule store_invD)
  have "d \<in> set (filter (\<lambda>x. d_RequestID x = r_ID r) (deliveries (w_db w)))" by (simp add: one)
  then have mem: "d \<in> set (deliveries (w_db w))" "d_RequestID d = r_ID r" by simp_all
  obtain w' d' req where run: "process (pg_worker cfg pol us) msg w = Some w'" and row: "row_at d w' = Some d'" "d_Status d' = DeliverySent"
    and req: "req \<in> set (requests (w_db w))" "r_ID req = d_RequestID d" and call: "calls w' = calls w @ [provider_request us d req]"
    using process_accepted [OF ideal wf mem(1) d(4) d(1,2)] by blast
  have "req = r" using wf r req mem(2) by (auto simp: wf_store_def intro: distinct_key_unique)
  have "framed (w_env w) (map (\<lambda>d. (d_key d, d_RequestID d)) (deliveries (w_db w)))
      (map (\<lambda>r. r\<lparr>r_Status := RequestPending\<rparr>) (requests (w_db w))) w'"
    by (rule frame.process_P [OF _ run]) (simp add: framed_def calm)
  then have env: "w_env w' = w_env w"
    and same: "map (\<lambda>d. (d_key d, d_RequestID d)) (deliveries (w_db w')) = map (\<lambda>d. (d_key d, d_RequestID d)) (deliveries (w_db w))"
      "map (\<lambda>r. r\<lparr>r_Status := RequestPending\<rparr>) (requests (w_db w')) = map (\<lambda>r. r\<lparr>r_Status := RequestPending\<rparr>) (requests (w_db w))"
    by (simp_all add: framed_def)
  have "wk_good w'" by (rule pg_keeps.process_P [OF _ run]) (use inv calm in \<open>simp add: wk_good_def lease_ok_def calm_def\<close>)
  then have inv': "store_inv (w_db w')" by (simp add: wk_good_def)
  then have wf': "wf_store (w_db w')" by (rule store_invD)
  have one': "filter (\<lambda>x. d_RequestID x = r_ID r) (deliveries (w_db w')) = [d']"
    by (rule only_row [OF same(1) one d(3) wf']) (use row(1) in \<open>simp add: row_at_def\<close>)
  obtain s where s: "GetRequestByID None (r_ID r) (w_db w') = Inr (r\<lparr>r_Status := s\<rparr>)" "r\<lparr>r_Status := s\<rparr> \<in> set (requests (w_db w'))"
    using same_request [OF same(2) wf' r] by blast
  have "s = RequestSent" using sent_request [OF inv' _ row(2) s(2)] one' by simp
  then show ?thesis
    using run call row(2) \<open>req = r\<close> Get_calm [OF _ s(1) _ one', of "r_UserID r"] calm env by auto
qed

text \<open>The relay's and the worker's part of the path, for a delivery that waits in the outbox.\<close>

lemma enqueued_is_delivered:
  assumes ideal: "ideal (w_env w)" and inv: "store_inv (w_db w)" and batch: "0 < sc_OutboxBatchSize scfg"
    and r: "r \<in> set (requests (w_db w))" and one: "filter (\<lambda>x. d_RequestID x = r_ID r) (deliveries (w_db w)) = [d]"
    and d: "d_Status d = DeliveryPending" "0 \<le> d_AttemptCount d" "timestamptz (d_CreatedAt d) = d_CreatedAt d"
    and o': "o' \<in> set (outbox (w_db w))" "enqueues o' d"
  shows "\<exists>w2. relayOutbox (pg_scheduler scfg) w = Some w2
    \<and> Published (Stream (d_Priority d) (d_Channel d)) (o_Payload o') \<in> set (w_events w2)
    \<and> (\<forall>strm entry. \<exists>w3 d'.
         process (pg_worker cfg pol us) \<lparr>sm_Stream = strm, sm_ID = entry, sm_Delivery = o_Payload o'\<rparr> w2 = Some w3
       \<and> calls w3 = calls w2 @ [provider_request us d r]
       \<and> fst (Get pg_service (r_UserID r) (r_ID r) w3) = Inr \<lparr>v_Request = r\<lparr>r_Status := RequestSent\<rparr>, v_Deliveries = [d']\<rparr>
       \<and> d_Status d' = DeliverySent)"
proof -
  have "relay_calm w" using ideal inv by (simp add: relay_calm_def ideal_def alone_def calm_def)
  then obtain w2 evs where relay: "relayOutbox (pg_scheduler scfg) w = Some w2" "relay_calm w2" "only_outbox w w2"
    and evs: "w_events w2 = w_events w @ evs" "mset evs = mset (map publication (backlog (w_db w)))"
    using relay_total [OF batch] by blast
  note same = only_outbox_tables [OF relay(3)]
  have "publication o' \<in> set evs"
    using o' arg_cong [OF evs(2), of set_mset] by (auto simp: backlog_def enqueues_def)
  then have pub: "Published (Stream (d_Priority d) (d_Channel d)) (o_Payload o') \<in> set (w_events w2)"
    using o'(2) evs(1) by (simp add: publication_def enqueues_def)
  have inv2: "store_inv (w_db w2)" using relay(2) by (simp add: relay_calm_def)
  have "at_key (m_DeliveryID (o_Payload o')) (m_DeliveryCreatedAt (o_Payload o')) d"
    using o'(2) d(3) by (simp add: enqueues_def at_key_def)
  with worker_delivers [OF _ inv2 _ _ d] ideal r one relay(1) pub show ?thesis by (auto simp: same)
qed

text \<open>
  C1. From acceptance to delivery.  When \<open>Create\<close> accepts a notification that is not scheduled for
  later and nothing fails, the relay returns and has published its message on the stream of its
  priority and channel; a worker that processes that message returns, having called the provider
  exactly once, with the recipient and the content of the request; and then \<open>Get\<close> shows the owner
  a request that is sent, with one delivery, which is sent.
\<close>

theorem accepted_is_delivered:
  assumes ideal: "ideal (w_env w)" and inv: "store_inv (w_db w)" and batch: "0 < sc_OutboxBatchSize scfg"
    and create: "Create pg_service corr inp w = (Inr res, w1)" "\<not> cr_Duplicate res"
    and immediate: "\<not> future (in_SendAt inp) (r_CreatedAt (cr_Request res))"
  shows "\<exists>w2 m. relayOutbox (pg_scheduler scfg) w1 = Some w2
    \<and> Published (Stream (in_Priority inp) (in_Channel inp)) m \<in> set (w_events w2)
    \<and> (\<forall>entry. \<exists>w3 call req d.
         process (pg_worker cfg pol us) \<lparr>sm_Stream = Stream (in_Priority inp) (in_Channel inp), sm_ID = entry, sm_Delivery = m\<rparr> w2
           = Some w3
       \<and> calls w3 = calls w2 @ [call] \<and> pr_To call = in_Recipient inp \<and> pr_Channel call = in_Channel inp
       \<and> pr_Content call = r_RenderedContent (cr_Request res)
       \<and> fst (Get pg_service (in_UserID inp) (r_ID (cr_Request res)) w3) = Inr \<lparr>v_Request = req, v_Deliveries = [d]\<rparr>
       \<and> r_Status req = RequestSent \<and> d_Status d = DeliverySent)"
proof -
  let ?rid = "r_ID (cr_Request res)" and ?r = "stored_request (cr_Request res)"
  have good: "pg_good w" using inv ideal by (simp add: pg_good_def env_ok_def calm_def ideal_def)
  have e1: "w_env w1 = w_env w"
    using service_keeps.Create_kept [OF pg_keeps_env, of w "w_env w" corr inp] create(1) by simp
  have inv1: "store_inv (w_db w1)"
    using pg.Create_kept [OF good, of corr inp] create(1) by (simp add: pg_good_def)
  obtain d where get1: "GetRequestByID None ?rid (w_db w1) = Inr ?r" and ds1: "GetDeliveriesByRequest None ?rid (w_db w1) = Inr [d]"
    and req: "r_UserID (cr_Request res) = in_UserID inp" "r_Recipient (cr_Request res) = in_Recipient inp"
    and d: "d_AttemptCount d = 0" "d_Priority d = in_Priority inp" "d_Channel d = in_Channel inp" "d_RequestID d = ?rid"
      "timestamptz (d_CreatedAt d) = d_CreatedAt d" "d_Status d = DeliveryPending"
    and enq: "list_ex (\<lambda>o'. enqueues o' d) (outbox (w_db w1))"
    using created_notification [OF good create] immediate by blast
  have r: "r_ID ?r = ?rid" "r_UserID ?r = in_UserID inp" "r_Recipient ?r = in_Recipient inp"
    "r_RenderedContent ?r = r_RenderedContent (cr_Request res)"
    using req by (simp_all add: stored_request_def)
  have call: "pr_To (provider_request us d ?r) = in_Recipient inp" "pr_Channel (provider_request us d ?r) = in_Channel inp"
    "pr_Content (provider_request us d ?r) = r_RenderedContent (cr_Request res)"
    using r d(3) by (simp_all add: provider_request_def)
  obtain o' where o': "o' \<in> set (outbox (w_db w1))" "enqueues o' d" using enq by (auto simp: list_ex_iff)
  have rows: "filter (\<lambda>x. d_RequestID x = r_ID ?r) (deliveries (w_db w1)) = [d]"
    using ds1 by (simp add: GetDeliveriesByRequest_def sort_single r)
  have rmem: "?r \<in> set (requests (w_db w1))"
    using get1 by (auto simp: GetRequestByID_def scanRequest_def split: option.splits dest: find_row_Some)
  have ideal1: "ideal (w_env w1)" and fresh: "0 \<le> d_AttemptCount d" using ideal d(1) by (simp_all add: e1)
  obtain w2 where relay: "relayOutbox (pg_scheduler scfg) w1 = Some w2"
    "Published (Stream (in_Priority inp) (in_Channel inp)) (o_Payload o') \<in> set (w_events w2)"
    and served: "\<And>strm entry. \<exists>w3 d'.
         process (pg_worker cfg pol us) \<lparr>sm_Stream = strm, sm_ID = entry, sm_Delivery = o_Payload o'\<rparr> w2 = Some w3
       \<and> calls w3 = calls w2 @ [provider_request us d ?r]
       \<and> fst (Get pg_service (in_UserID inp) ?rid w3) = Inr \<lparr>v_Request = ?r\<lparr>r_Status := RequestSent\<rparr>, v_Deliveries = [d']\<rparr>
       \<and> d_Status d' = DeliverySent"
    using enqueued_is_delivered [OF ideal1 inv1 batch rmem rows d(6) fresh d(5) o', of cfg pol us] unfolding r d(2,3) by blast
  show ?thesis
  proof (rule exI [of _ w2], rule exI [of _ "o_Payload o'"], intro conjI allI)
    fix entry
    obtain w3 d' where "process (pg_worker cfg pol us) \<lparr>sm_Stream = Stream (in_Priority inp) (in_Channel inp), sm_ID = entry, sm_Delivery = o_Payload o'\<rparr> w2 = Some w3"
      "calls w3 = calls w2 @ [provider_request us d ?r]"
      "fst (Get pg_service (in_UserID inp) ?rid w3) = Inr \<lparr>v_Request = ?r\<lparr>r_Status := RequestSent\<rparr>, v_Deliveries = [d']\<rparr>"
      "d_Status d' = DeliverySent"
      using served by blast
    then show "\<exists>w3 call req d.
         process (pg_worker cfg pol us) \<lparr>sm_Stream = Stream (in_Priority inp) (in_Channel inp), sm_ID = entry, sm_Delivery = o_Payload o'\<rparr> w2
           = Some w3
       \<and> calls w3 = calls w2 @ [call] \<and> pr_To call = in_Recipient inp \<and> pr_Channel call = in_Channel inp
       \<and> pr_Content call = r_RenderedContent (cr_Request res)
       \<and> fst (Get pg_service (in_UserID inp) ?rid w3) = Inr \<lparr>v_Request = req, v_Deliveries = [d]\<rparr>
       \<and> r_Status req = RequestSent \<and> d_Status d = DeliverySent"
      using call by (intro exI conjI) (assumption | simp)+
  qed (rule relay)+
qed

section \<open>From the due instant to delivery\<close>

lemma filter_upd_where: "(\<And>x. q (f x) = q x) \<Longrightarrow> filter q (upd_where p f xs) = upd_where p f (filter q xs)"
  by (induction xs) auto

context due_transition
begin

text \<open>A call whose limit exceeds what is due takes every due row that is not held.\<close>

lemma takes_due:
  assumes wf: "wf_store st" and ids: "inj_on ids {..<nat limit}" "\<forall>j<nat limit. ids j \<notin> o_ID ` set (outbox st)"
    and short: "int (count_where (\<lambda>x. is_due s due_at now x \<and> \<not> locked x) (deliveries st)) < limit"
    and one: "filter (\<lambda>x. d_RequestID x = i) (deliveries st) = [d]" and due: "is_due s due_at now d" "\<not> locked d"
  shows "\<exists>n st' o'. run None now locked ids limit st = (Inr n, st') \<and> n < limit \<and> requests st' = requests st
    \<and> filter (\<lambda>x. d_RequestID x = i) (deliveries st') = [to_pending now d]
    \<and> o' \<in> set (outbox st') \<and> enqueues o' (to_pending now d)"
proof -
  let ?due = "due_selection s due_at now locked limit st"
  let ?new = "due_rows now ids 0 (scanDueRows (map (to_pending now) ?due))"
  have lim: "0 \<le> limit" using short by linarith
  have "length (filter (\<lambda>x. is_due s due_at now x \<and> \<not> locked x) (deliveries st)) \<le> nat limit"
    using short by (simp add: count_where_def)
  then have all: "set ?due = set (filter (\<lambda>x. is_due s due_at now x \<and> \<not> locked x) (deliveries st))"
    and len: "length ?due = count_where (\<lambda>x. is_due s due_at now x \<and> \<not> locked x) (deliveries st)"
    by (simp_all add: due_selection_def count_where_def)
  have "d \<in> set (filter (\<lambda>x. d_RequestID x = i) (deliveries st))" by (simp add: one)
  then have d: "d \<in> set ?due" using due by (simp add: all)
  have rows: "filter (\<lambda>x. d_RequestID x = i) (upd_where (\<lambda>x. x \<in> set ?due) (to_pending now) (deliveries st)) = [to_pending now d]"
    using d by (subst filter_upd_where) (simp_all add: one to_pending_def)
  have "\<exists>o'\<in>set ?new. enqueues o' (to_pending now d)"
    by (rule due_rows_mem) (use d in simp)
  then show ?thesis using commits [OF wf lim ids, of now locked] short len rows by auto
qed

end

text \<open>
  One tick of a job (\<open>promoteDue\<close> for scheduled, \<open>sweepRetries\<close> for retrying deliveries) that finds less
  than a batch to do and meets no fault.
\<close>

definition due_job :: "(world Scheduler \<Rightarrow> world \<Rightarrow> world option) \<Rightarrow> DeliveryStatus \<Rightarrow> (Delivery \<Rightarrow> gotime option) \<Rightarrow> bool" where
  "due_job job s due_at \<longleftrightarrow> job = promoteDue \<and> s = DeliveryScheduled \<and> due_at = d_SendAt
     \<or> job = sweepRetries \<and> s = DeliveryRetrying \<and> due_at = d_NextRetryAt"

lemma job_takes_due:
  assumes job: "due_job job s due_at" and calm: "calm (w_env w)" and inv: "store_inv (w_db w)"
    and ids: "ids_fresh w (sc_PromoteBatch scfg)" and free: "\<forall>k x. \<not> e_locked (w_env w) k x"
    and short: "int (count_where (is_due s due_at (now_of w)) (deliveries (w_db w))) < sc_PromoteBatch scfg"
    and one: "filter (\<lambda>x. d_RequestID x = i) (deliveries (w_db w)) = [d]" and due: "is_due s due_at (now_of w) d"
  shows "\<exists>w1 o'. job (pg_scheduler scfg) w = Some w1 \<and> w_env w1 = w_env w \<and> store_inv (w_db w1) \<and> calls w1 = calls w
    \<and> requests (w_db w1) = requests (w_db w)
    \<and> filter (\<lambda>x. d_RequestID x = i) (deliveries (w_db w1)) = [to_pending (now_of w) d]
    \<and> o' \<in> set (outbox (w_db w1)) \<and> enqueues o' (to_pending (now_of w) d)"
proof -
  have wf: "wf_store (w_db w)" using inv by (rule store_invD)
  have fresh: "inj_on (e_uuid (w_env w) (w_tick w)) {..<nat (sc_PromoteBatch scfg)}"
    "\<forall>j<nat (sc_PromoteBatch scfg). e_uuid (w_env w) (w_tick w) j \<notin> o_ID ` set (outbox (w_db w))"
    using ids by (simp_all add: ids_fresh_def)
  have short': "int (count_where (\<lambda>x. is_due s due_at (now_of w) x \<and> \<not> e_locked (w_env w) (w_tick w) x) (deliveries (w_db w)))
      < sc_PromoteBatch scfg" using short free by simp
  note taken = wf fresh short' one due
  from job consider (promote) "job = promoteDue" "s = DeliveryScheduled" "due_at = d_SendAt"
    | (sweep) "job = sweepRetries" "s = DeliveryRetrying" "due_at = d_NextRetryAt"
    unfolding due_job_def by blast
  then show ?thesis
  proof cases
    case promote
    obtain n st' o' where run: "PromoteDue None (now_of w) (e_locked (w_env w) (w_tick w)) (e_uuid (w_env w) (w_tick w))
        (sc_PromoteBatch scfg) (w_db w) = (Inr n, st')" "n < sc_PromoteBatch scfg"
      and st': "requests st' = requests (w_db w)" "filter (\<lambda>x. d_RequestID x = i) (deliveries st') = [to_pending (now_of w) d]"
        "o' \<in> set (outbox st')" "enqueues o' (to_pending (now_of w) d)"
      using promote.takes_due [OF taken [unfolded promote]] free by blast
    have "store_inv st'" using promote.keeps_inv [OF inv] run(1) by (metis snd_conv)
    moreover have "sd_PromoteDue (pg_scheduler scfg) (sc_PromoteBatch scfg) w = (Inr n, next_tick (w\<lparr>w_db := st'\<rparr>))"
      using calm run(1) by (simp add: db_call_eq)
    ultimately show ?thesis
      unfolding promote(1) by (subst promote_loop.loop_eq) (use run(2) st' in \<open>auto simp del: pg_scheduler_simps\<close>)
  next
    case sweep
    obtain n st' o' where run: "SweepRetries None (now_of w) (e_locked (w_env w) (w_tick w)) (e_uuid (w_env w) (w_tick w))
        (sc_PromoteBatch scfg) (w_db w) = (Inr n, st')" "n < sc_PromoteBatch scfg"
      and st': "requests st' = requests (w_db w)" "filter (\<lambda>x. d_RequestID x = i) (deliveries st') = [to_pending (now_of w) d]"
        "o' \<in> set (outbox st')" "enqueues o' (to_pending (now_of w) d)"
      using sweep.takes_due [OF taken [unfolded sweep]] free by blast
    have "store_inv st'" using sweep.keeps_inv [OF inv] run(1) by (metis snd_conv)
    moreover have "sd_SweepRetries (pg_scheduler scfg) (sc_PromoteBatch scfg) w = (Inr n, next_tick (w\<lparr>w_db := st'\<rparr>))"
      using calm run(1) by (simp add: db_call_eq)
    ultimately show ?thesis
      unfolding sweep(1) by (subst sweep_loop.loop_eq) (use run(2) st' in \<open>auto simp del: pg_scheduler_simps\<close>)
  qed
qed

text \<open>
  C4. From the due instant to delivery.  Once the instant of a scheduled or retrying delivery has come,
  a tick of the promotion job, or of the retry sweep, and then of the relay, publishes its message, and
  the worker that processes it calls the provider once and completes the request, when nothing fails
  and less than a batch is due.
\<close>

theorem due_is_delivered:
  assumes job: "due_job job s due_at" and ideal: "ideal (w_env w)" and inv: "store_inv (w_db w)"
    and batch: "0 < sc_OutboxBatchSize scfg" and ids: "ids_fresh w (sc_PromoteBatch scfg)"
    and free: "\<forall>k x. \<not> e_locked (w_env w) k x"
    and short: "int (count_where (is_due s due_at (now_of w)) (deliveries (w_db w))) < sc_PromoteBatch scfg"
    and r: "r \<in> set (requests (w_db w))" and one: "filter (\<lambda>x. d_RequestID x = r_ID r) (deliveries (w_db w)) = [d]"
    and d: "is_due s due_at (now_of w) d" "0 \<le> d_AttemptCount d" "timestamptz (d_CreatedAt d) = d_CreatedAt d"
  shows "\<exists>w1 w2 m. job (pg_scheduler scfg) w = Some w1 \<and> relayOutbox (pg_scheduler scfg) w1 = Some w2
    \<and> Published (Stream (d_Priority d) (d_Channel d)) m \<in> set (w_events w2)
    \<and> (\<forall>strm entry. \<exists>w3 d'.
         process (pg_worker cfg pol us) \<lparr>sm_Stream = strm, sm_ID = entry, sm_Delivery = m\<rparr> w2 = Some w3
       \<and> calls w3 = calls w2 @ [provider_request us d r]
       \<and> fst (Get pg_service (r_UserID r) (r_ID r) w3) = Inr \<lparr>v_Request = r\<lparr>r_Status := RequestSent\<rparr>, v_Deliveries = [d']\<rparr>
       \<and> d_Status d' = DeliverySent)"
proof -
  have calm: "calm (w_env w)" using ideal by (simp add: ideal_def)
  let ?d = "to_pending (now_of w) d"
  obtain w1 o' where tick: "job (pg_scheduler scfg) w = Some w1" and w1: "w_env w1 = w_env w" "store_inv (w_db w1)"
      "requests (w_db w1) = requests (w_db w)" "filter (\<lambda>x. d_RequestID x = r_ID r) (deliveries (w_db w1)) = [?d]"
    and o': "o' \<in> set (outbox (w_db w1))" "enqueues o' ?d"
    using job_takes_due [OF job calm inv ids free short one d(1)] by blast
  have pend: "d_Status ?d = DeliveryPending" "0 \<le> d_AttemptCount ?d" "timestamptz (d_CreatedAt ?d) = d_CreatedAt ?d"
    and same: "d_Priority ?d = d_Priority d" "d_Channel ?d = d_Channel d" "provider_request us ?d r = provider_request us d r"
    using d by (simp_all add: to_pending_def provider_request_def)
  from enqueued_is_delivered [OF ideal [folded w1(1)] w1(2) batch r [folded w1(3)] w1(4) pend o', of cfg pol us] tick
  show ?thesis unfolding same by blast
qed

section \<open>Concrete paths\<close>

lemma ideal_quiet: "ideal quiet_env"
  by (simp add: ideal_def calm_def quiet_env_def)

theorem accepted_is_delivered_witness:
  "\<exists>res w1 w2 m w3 req d. Create pg_service ''c'' sample_input (world_of empty_store) = (Inr res, w1)
     \<and> relayOutbox (pg_scheduler sample_scheduler) w1 = Some w2
     \<and> process (pg_worker sample_config sample_policy (\<lambda>i. ''id''))
         \<lparr>sm_Stream = Stream PriorityHigh ChannelSMS, sm_ID = ''1-0'', sm_Delivery = m\<rparr> w2 = Some w3
     \<and> fst (Get pg_service ''bob'' (r_ID (cr_Request res)) w3) = Inr \<lparr>v_Request = req, v_Deliveries = [d]\<rparr>
     \<and> r_Status req = RequestSent \<and> d_Status d = DeliverySent"
proof -
  obtain res w1 where run: "Create pg_service ''c'' sample_input (world_of empty_store) = (Inr res, w1)" "\<not> cr_Duplicate res"
    by (simp add: run_simps)
  have w: "ideal (w_env (world_of empty_store))" "store_inv (w_db (world_of empty_store))" "0 < sc_OutboxBatchSize sample_scheduler"
    by (simp_all add: ideal_quiet store_inv_empty sample_scheduler_def)
  have now: "\<not> future (in_SendAt sample_input) (r_CreatedAt (cr_Request res))" by (simp add: sample_input_def future_def)
  have inp: "in_UserID sample_input = ''bob''" "in_Priority sample_input = PriorityHigh" "in_Channel sample_input = ChannelSMS"
    by (simp_all add: sample_input_def)
  from accepted_is_delivered [OF w run now, of sample_config sample_policy "\<lambda>i. ''id''"] run(1)
  show ?thesis unfolding inp by blast
qed

definition overdue :: Delivery where
  "overdue = sample_delivery\<lparr>d_Status := DeliveryScheduled, d_SendAt := Some 4000\<rparr>"

theorem due_is_delivered_witness:
  "\<exists>w1 w2 m w3 d. promoteDue (pg_scheduler sample_scheduler) (world_of (store_with [overdue])) = Some w1
     \<and> relayOutbox (pg_scheduler sample_scheduler) w1 = Some w2
     \<and> process sample_worker \<lparr>sm_Stream = ''s'', sm_ID = ''1-0'', sm_Delivery = m\<rparr> w2 = Some w3
     \<and> fst (Get pg_service ''alice'' 1 w3) = Inr \<lparr>v_Request = sample_request\<lparr>r_Status := RequestSent\<rparr>, v_Deliveries = [d]\<rparr>
     \<and> d_Status d = DeliverySent"
proof -
  let ?w = "world_of (store_with [overdue])"
  have job: "due_job promoteDue DeliveryScheduled d_SendAt" by (simp add: due_job_def)
  have env: "ideal (w_env ?w)" "\<forall>k x. \<not> e_locked (w_env ?w) k x" by (simp_all add: ideal_quiet)
  have inv: "store_inv (w_db ?w)" by (simp add: store_with_inv overdue_def sample_delivery_def)
  have sizes: "0 < sc_OutboxBatchSize sample_scheduler" by (simp add: sample_scheduler_def)
  have ids: "ids_fresh ?w (sc_PromoteBatch sample_scheduler)"
    by (auto simp: ids_fresh_def sample_scheduler_def quiet_env_def world_of_def store_with_def empty_store_def inj_on_def
        numeral_2_eq_2 less_Suc_eq)
  have due: "is_due DeliveryScheduled d_SendAt (now_of ?w) overdue"
    by (simp add: is_due_def overdue_def now_of_def world_of_def quiet_env_def)
  have short: "int (count_where (is_due DeliveryScheduled d_SendAt (now_of ?w)) (deliveries (w_db ?w))) < sc_PromoteBatch sample_scheduler"
    by (simp add: store_with_def sample_scheduler_def)
  have rows: "sample_request \<in> set (requests (w_db ?w))"
    "filter (\<lambda>x. d_RequestID x = r_ID sample_request) (deliveries (w_db ?w)) = [overdue]"
    "0 \<le> d_AttemptCount overdue" "timestamptz (d_CreatedAt overdue) = d_CreatedAt overdue"
    by (simp_all add: overdue_def sample_simps)
  have r: "r_UserID sample_request = ''alice''" "r_ID sample_request = 1" by (simp_all add: sample_request_def)
  from due_is_delivered [OF job env(1) inv sizes ids env(2) short rows(1,2) due rows(3,4), of sample_config sample_policy "\<lambda>i. ''id''"]
  show ?thesis unfolding r by blast
qed

end
