(* ===== verification/Worker_Pool.thy ===== *)
theory Worker_Pool
  imports Worker_Outcome
begin

text \<open>
  \<open>Worker.Run\<close> as a state machine: the reader, the buffered channel and the goroutines of the pool,
  with every interleaving of their steps.  Where the reader waits for room in the channel or for the
  end of the context, both steps are possible.  One message is processed in one step; the work of
  other processes during it is part of \<open>process\<close>.
\<close>

section \<open>The pool (worker.go)\<close>

text \<open>\<open>Feeding ms\<close>: the messages of the last read not yet handed over; \<open>Stopped\<close>: \<open>readLoop\<close> has returned.\<close>

datatype reader = Reading | Feeding "StreamMessage list" | Stopped

text \<open>
  \<open>po_jobs\<close> is the channel, \<open>po_busy\<close> what the goroutines are processing; \<open>po_offered\<close> and \<open>po_done\<close>
  record what was handed over and what was processed.
\<close>

record 'w pool =
  po_world :: 'w
  po_reader :: reader
  po_jobs :: "StreamMessage list"
  po_idle :: nat
  po_busy :: "StreamMessage list"
  po_offered :: "StreamMessage list"
  po_done :: "StreamMessage list"

definition start_pool :: "'w Worker \<Rightarrow> 'w \<Rightarrow> 'w pool result \<times> 'w" where
  "start_pool W w =
     (case ensure_groups W (wk_streams W) w of
        (Inl err, w1) \<Rightarrow> (Inl err, w1)
      | (Inr _, w1) \<Rightarrow>
          (Inr \<lparr>po_world = w1, po_reader = Reading, po_jobs = [], po_idle = nat (wc_Concurrency (wk_cfg W)),
                po_busy = [], po_offered = [], po_done = []\<rparr>, w1))"

inductive pool_step :: "'w Worker \<Rightarrow> 'w pool \<Rightarrow> 'w pool \<Rightarrow> bool" for W :: "'w Worker" where
  stop: "po_reader P = Reading \<Longrightarrow> wk_ctxErr W (po_world P) = (True, w1) \<Longrightarrow>
    pool_step W P (P\<lparr>po_world := w1, po_reader := Stopped\<rparr>)"
| read: "po_reader P = Reading \<Longrightarrow> wk_ctxErr W (po_world P) = (False, w1) \<Longrightarrow>
    q_Read W (wc_Consumer (wk_cfg W)) (wk_streams W) (wc_BatchSize (wk_cfg W)) (wc_BlockTime (wk_cfg W)) w1 = (Inr msgs, w2) \<Longrightarrow>
    pool_step W P (P\<lparr>po_world := w2, po_reader := Feeding msgs\<rparr>)"
| read_stop: "po_reader P = Reading \<Longrightarrow> wk_ctxErr W (po_world P) = (False, w1) \<Longrightarrow>
    q_Read W (wc_Consumer (wk_cfg W)) (wk_streams W) (wc_BatchSize (wk_cfg W)) (wc_BlockTime (wk_cfg W)) w1 = (Inl err, w2) \<Longrightarrow>
    wk_ctxErr W w2 = (True, w3) \<Longrightarrow>
    pool_step W P (P\<lparr>po_world := w3, po_reader := Stopped\<rparr>)"
| read_pause: "po_reader P = Reading \<Longrightarrow> wk_ctxErr W (po_world P) = (False, w1) \<Longrightarrow>
    q_Read W (wc_Consumer (wk_cfg W)) (wk_streams W) (wc_BatchSize (wk_cfg W)) (wc_BlockTime (wk_cfg W)) w1 = (Inl err, w2) \<Longrightarrow>
    wk_ctxErr W w2 = (False, w3) \<Longrightarrow> wk_select W Second w3 = (stopped, w4) \<Longrightarrow>
    pool_step W P (P\<lparr>po_world := w4, po_reader := if stopped then Stopped else Reading\<rparr>)"
| fed: "po_reader P = Feeding [] \<Longrightarrow> pool_step W P (P\<lparr>po_reader := Reading\<rparr>)"
| offer: "po_reader P = Feeding (m # ms) \<Longrightarrow> int (length (po_jobs P)) < wc_Concurrency (wk_cfg W) \<Longrightarrow>
    pool_step W P (P\<lparr>po_reader := Feeding ms, po_jobs := po_jobs P @ [m], po_offered := po_offered P @ [m]\<rparr>)"
| abandon: "po_reader P = Feeding (m # ms) \<Longrightarrow> wk_ctxErr W (po_world P) = (True, w1) \<Longrightarrow>
    pool_step W P (P\<lparr>po_world := w1, po_reader := Stopped\<rparr>)"
| take: "po_jobs P = m # ms \<Longrightarrow> po_idle P = Suc n \<Longrightarrow>
    pool_step W P (P\<lparr>po_jobs := ms, po_idle := n, po_busy := po_busy P @ [m]\<rparr>)"
| finish: "po_busy P = ms @ m # ms' \<Longrightarrow> process W m (po_world P) = Some w1 \<Longrightarrow>
    pool_step W P (P\<lparr>po_world := w1, po_idle := Suc (po_idle P), po_busy := ms @ ms', po_done := po_done P @ [m]\<rparr>)"

inductive_cases pool_stepE: "pool_step W P P'"

text \<open>\<open>Run\<close> returns when the reader has stopped and the channel and the goroutines are empty.\<close>

definition returned :: "'w pool \<Rightarrow> bool" where
  "returned P \<longleftrightarrow> po_reader P = Stopped \<and> po_jobs P = [] \<and> po_busy P = []"

section \<open>Every message is accounted for\<close>

definition pool_inv :: "'w Worker \<Rightarrow> 'w pool \<Rightarrow> bool" where
  "pool_inv W P \<longleftrightarrow> mset (po_offered P) = mset (po_jobs P) + mset (po_busy P) + mset (po_done P)
     \<and> (\<exists>taken. po_offered P = taken @ po_jobs P)
     \<and> int (length (po_jobs P)) \<le> wc_Concurrency (wk_cfg W)
     \<and> int (po_idle P + length (po_busy P)) = wc_Concurrency (wk_cfg W)"

lemma start_pool_inv:
  "start_pool W w = (Inr P, w1) \<Longrightarrow> 0 \<le> wc_Concurrency (wk_cfg W) \<Longrightarrow> pool_inv W P"
  by (auto simp: start_pool_def pool_inv_def split: prod.splits sum.splits)

lemma pool_step_inv: "pool_step W P P' \<Longrightarrow> pool_inv W P \<Longrightarrow> pool_inv W P'"
proof (induction rule: pool_step.induct)
  case (offer P m ms)
  then show ?case by (auto simp: pool_inv_def)
next
  case (take P m ms n)
  then show ?case by (auto simp: pool_inv_def)
qed (auto simp: pool_inv_def)

lemma pool_steps_inv: "(pool_step W)\<^sup>*\<^sup>* P P' \<Longrightarrow> pool_inv W P \<Longrightarrow> pool_inv W P'"
  by (induction rule: rtranclp_induct) (auto intro: pool_step_inv)

section \<open>Draining\<close>

text \<open>Once the reader has stopped, only the goroutines move, and each move brings the end nearer.\<close>

lemma stopped_step:
  assumes "pool_step W P P'" "po_reader P = Stopped"
  shows "po_reader P' = Stopped \<and> po_offered P' = po_offered P
    \<and> 2 * length (po_jobs P) + length (po_busy P) = Suc (2 * length (po_jobs P') + length (po_busy P'))"
  using assms by (auto elim!: pool_stepE)

lemma stopped_steps:
  assumes "(pool_step W ^^ n) P P'" "po_reader P = Stopped"
  shows "po_reader P' = Stopped \<and> po_offered P' = po_offered P
    \<and> n + 2 * length (po_jobs P') + length (po_busy P') = 2 * length (po_jobs P) + length (po_busy P)"
  using assms
proof (induction n arbitrary: P')
  case (Suc n)
  then obtain Q where "(pool_step W ^^ n) P Q" "pool_step W Q P'" by auto
  with Suc.IH [of Q] Suc.prems(2) stopped_step [of W Q P'] show ?case by auto
qed simp

text \<open>The goroutines never get stuck: an empty pool takes the next message, a busy one finishes or panics.\<close>

lemma stuck_cases:
  assumes inv: "pool_inv W P" and pos: "0 < wc_Concurrency (wk_cfg W)" and stopped: "po_reader P = Stopped"
    and stuck: "\<nexists>P'. pool_step W P P'"
  shows "returned P \<or> (\<exists>m\<in>set (po_busy P). process W m (po_world P) = None)"
proof (cases "po_busy P")
  case Nil
  then obtain n where "po_idle P = Suc n" using inv pos by (cases "po_idle P") (auto simp: pool_inv_def)
  then have "po_jobs P = []" using stuck pool_step.take [of P _ _ n W] by (cases "po_jobs P") auto
  then show ?thesis using Nil stopped by (simp add: returned_def)
next
  case (Cons m ms)
  then have "process W m (po_world P) = None"
    using stuck pool_step.finish [of P "[]" m ms W] by (cases "process W m (po_world P)") auto
  then show ?thesis using Cons by auto
qed

text \<open>
  C8. Graceful shutdown.  At every moment of a run the messages handed to the pool are those that
  wait, are being processed or have been processed, each exactly once, and they leave the channel in
  order.  When the reader has stopped, whatever the order in which the goroutines run, they make at most
  two moves for each waiting message and one for each in progress, and when they can make no more,
  \<open>Run\<close> returns with every message that was handed over processed exactly once, unless the
  processing of one of them panics.
\<close>

theorem worker_pool_drains:
  assumes start: "start_pool (newWorker cfg ports) w = (Inr P0, w0)"
    and reach: "(pool_step (newWorker cfg ports))\<^sup>*\<^sup>* P0 P"
  shows "mset (po_offered P) = mset (po_jobs P) + mset (po_busy P) + mset (po_done P)
    \<and> (\<exists>taken. po_offered P = taken @ po_jobs P)
    \<and> (po_reader P = Stopped \<longrightarrow> (\<forall>n P'. (pool_step (newWorker cfg ports) ^^ n) P P' \<longrightarrow>
         n \<le> 2 * length (po_jobs P) + length (po_busy P)
       \<and> ((\<nexists>P''. pool_step (newWorker cfg ports) P' P'') \<longrightarrow>
            returned P' \<and> mset (po_done P') = mset (po_offered P)
          \<or> (\<exists>m\<in>set (po_busy P'). process (newWorker cfg ports) m (po_world P') = None))))"
proof -
  let ?W = "newWorker cfg ports"
  have pos: "0 < wc_Concurrency (wk_cfg ?W)" by (simp add: newWorker_def worker_defaults_pos)
  have inv: "pool_inv ?W P" using pool_steps_inv [OF reach] start_pool_inv [OF start] pos by simp
  have "n \<le> 2 * length (po_jobs P) + length (po_busy P)
      \<and> ((\<nexists>P''. pool_step ?W P' P'') \<longrightarrow> returned P' \<and> mset (po_done P') = mset (po_offered P)
        \<or> (\<exists>m\<in>set (po_busy P'). process ?W m (po_world P') = None))"
    if s: "po_reader P = Stopped" and run: "(pool_step ?W ^^ n) P P'" for n P'
  proof -
    note st = stopped_steps [OF run s]
    have inv': "pool_inv ?W P'" using pool_steps_inv inv relpowp_imp_rtranclp [OF run] by blast
    then have "mset (po_done P') = mset (po_offered P)" if "returned P'"
      using that st by (simp add: pool_inv_def returned_def)
    then show ?thesis using st stuck_cases [OF inv' pos] by auto
  qed
  then show ?thesis using inv by (auto simp: pool_inv_def)
qed

section \<open>A concrete run\<close>

lemma pg_worker_pool_simps:
  "q_EnsureGroup (pg_worker cfg pol us) = (\<lambda>s. redis_call [])"
  "q_Read (pg_worker cfg pol us) = (\<lambda>consumer streams count block w.
     (case rfault_of w of Some msg \<Rightarrow> Inl (ErrInfra msg) | None \<Rightarrow> Inr (e_read (w_env w) (w_tick w)), next_tick w))"
  "wk_ctxErr (pg_worker cfg pol us) = (\<lambda>w. (e_stop (w_env w) (w_tick w), next_tick w))"
  by (simp_all add: pg_worker_def newWorker_def)

lemma ensure_groups_pg:
  "\<forall>k. e_rfault (w_env w) k = None \<Longrightarrow> \<exists>w1. ensure_groups (pg_worker cfg pol us) ss w = (Inr (), w1)
     \<and> w_env w1 = w_env w \<and> w_tick w1 = w_tick w + length ss"
proof (induction ss arbitrary: w)
  case (Cons s ss)
  from Cons.IH [of "next_tick w"] Cons.prems show ?case by (auto simp: pg_worker_pool_simps redis_call_def rfault_of_def)
qed simp

text \<open>An environment that delivers one message and then ends the context.\<close>

definition one_message_world :: world where
  "one_message_world = (world_of (store_with [sample_delivery]))
     \<lparr>w_env := quiet_env\<lparr>e_read := (\<lambda>k. [sample_message]), e_stop := (\<lambda>k. 11 \<le> k)\<rparr>\<rparr>"

lemma one_message_run:
  "\<exists>P0 w0 P. start_pool sample_worker one_message_world = (Inr P0, w0) \<and> (pool_step sample_worker)\<^sup>*\<^sup>* P0 P
     \<and> po_reader P = Stopped \<and> po_jobs P = [sample_message] \<and> po_busy P = []"
proof -
  let ?W = sample_worker
  have streams: "length (wk_streams ?W) = 9"
    by (simp add: pg_worker_def newWorker_def worker_streams_def worker_defaults_def sample_config_def AllPriorities_def
        AllChannels_def Let_def)
  have conc: "wc_Concurrency (worker_defaults sample_config) = 4" by (simp add: worker_defaults_def sample_config_def Let_def)
  obtain w1 where w1: "ensure_groups ?W (wk_streams ?W) one_message_world = (Inr (), w1)"
      "w_env w1 = w_env one_message_world" "w_tick w1 = 9"
    using ensure_groups_pg [of one_message_world sample_config sample_policy "\<lambda>i. ''id''" "wk_streams ?W"] streams
    by (auto simp: one_message_world_def world_of_def quiet_env_def)
  define P0 where "P0 = \<lparr>po_world = w1, po_reader = Reading, po_jobs = [], po_idle = 4, po_busy = [], po_offered = [], po_done = []\<rparr>"
  have start: "start_pool ?W one_message_world = (Inr P0, w1)" by (simp add: start_pool_def w1 conc P0_def)
  define w2 where "w2 = next_tick (next_tick w1)"
  have env: "e_stop (w_env w1) 9 = False" "e_stop (w_env w1) 11 = True" "e_read (w_env w1) 10 = [sample_message]"
    "e_rfault (w_env w1) 10 = None"
    by (simp_all add: w1 one_message_world_def world_of_def quiet_env_def)
  let ?P1 = "P0\<lparr>po_world := w2, po_reader := Feeding [sample_message]\<rparr>"
  let ?P2 = "?P1\<lparr>po_reader := Feeding [], po_jobs := [sample_message], po_offered := [sample_message]\<rparr>"
  let ?P3 = "?P2\<lparr>po_reader := Reading\<rparr>"
  have s1: "pool_step ?W P0 ?P1"
    by (rule pool_step.read [of _ _ "next_tick w1"]) (simp_all add: P0_def pg_worker_pool_simps w1(3) rfault_of_def env w2_def)
  have s2: "pool_step ?W ?P1 ?P2"
    using pool_step.offer [of ?P1 sample_message "[]" ?W] by (simp add: conc P0_def)
  have s3: "pool_step ?W ?P2 ?P3" by (rule pool_step.fed) simp
  have s4: "pool_step ?W ?P3 (?P3\<lparr>po_world := next_tick w2, po_reader := Stopped\<rparr>)"
    by (rule pool_step.stop) (simp_all add: pg_worker_pool_simps w2_def w1(3) env)
  have "(pool_step ?W)\<^sup>*\<^sup>* P0 (?P3\<lparr>po_world := next_tick w2, po_reader := Stopped\<rparr>)"
    using s1 s2 s3 s4 by (meson converse_rtranclp_into_rtranclp rtranclp.rtrancl_refl)
  with start show ?thesis by (intro exI conjI) (assumption | simp add: P0_def)+
qed

theorem worker_pool_drains_witness:
  "\<exists>P0 w0 P. start_pool sample_worker one_message_world = (Inr P0, w0) \<and> (pool_step sample_worker)\<^sup>*\<^sup>* P0 P
     \<and> po_jobs P = [sample_message] \<and> \<not> (\<exists>n P'. (pool_step sample_worker ^^ n) P P' \<and> 2 < n)"
proof -
  obtain P0 w0 P where run: "start_pool sample_worker one_message_world = (Inr P0, w0)" "(pool_step sample_worker)\<^sup>*\<^sup>* P0 P"
    and P: "po_reader P = Stopped" "po_jobs P = [sample_message]" "po_busy P = []"
    using one_message_run by blast
  have "\<not> (\<exists>n P'. (pool_step sample_worker ^^ n) P P' \<and> 2 < n)"
    using worker_pool_drains [OF run [unfolded pg_worker_def], folded pg_worker_def] P by fastforce
  with run P show ?thesis by blast
qed

end
