(* ===== verification/Scheduler_Run.thy ===== *)
theory Scheduler_Run
  imports Scheduler_Props
begin

text \<open>
  \<open>Scheduler.Run\<close> as a state machine: the partitions are maintained once, then the seven loops run side
  by side, each a sequence of ticks of its job, in any order.  Whatever the ports keep, every such run
  keeps.
\<close>

section \<open>The run (scheduler.go)\<close>

text \<open>
  One tick of one of the loops, or the end of one.  A loop that has ended may tick again, so the relation
  has all the runs of the code and some more.  A loop without a positive interval panics at its start and
  takes the process down, so it never ticks.
\<close>

inductive scheduler_step :: "'w Scheduler \<Rightarrow> 'w \<Rightarrow> 'w \<Rightarrow> bool" for S :: "'w Scheduler" where
  tick: "(name, interval, fn) \<in> set (scheduler_jobs S) \<Longrightarrow> 0 < interval \<Longrightarrow> sk_tick S interval w = (False, w1) \<Longrightarrow> fn w1 = Some w2 \<Longrightarrow>
    scheduler_step S w w2"
| stop: "(name, interval, fn) \<in> set (scheduler_jobs S) \<Longrightarrow> 0 < interval \<Longrightarrow> sk_tick S interval w = (True, w1) \<Longrightarrow> scheduler_step S w w1"

definition scheduler_run :: "'w Scheduler \<Rightarrow> 'w \<Rightarrow> 'w \<Rightarrow> bool" where
  "scheduler_run S w w' \<longleftrightarrow> (scheduler_step S)\<^sup>*\<^sup>* (maintainPartitions S w) w'"

section \<open>What the jobs keep\<close>

locale scheduler_keeps =
  fixes S :: "'w Scheduler" and P :: "'w \<Rightarrow> bool"
  assumes promote_P: "kept P (\<lambda>w. snd (sd_PromoteDue S n w))"
    and sweep_P: "kept P (\<lambda>w. snd (sd_SweepRetries S n w))"
    and reap_P: "kept P (\<lambda>w. snd (sd_ReapStuck S w))"
    and reconcile_P: "kept P (\<lambda>w. snd (sd_ReconcilePending S d n w))"
    and fetch_P: "kept P (\<lambda>w. snd (sd_FetchUnpublishedOutbox S n w))"
    and mark_P: "kept P (\<lambda>w. snd (sd_MarkOutboxPublished S ids w))"
    and create_P: "kept P (\<lambda>w. snd (sd_CreateDeliveryPartition S t w))"
    and drop_P: "kept P (\<lambda>w. snd (sd_ArchiveAndDropPartition S t w))"
    and purge_P: "kept P (\<lambda>w. snd (sd_PurgePublishedOutbox S t w))"
    and query_P: "kept P (\<lambda>w. snd (sd_CountUnpublishedOutbox S w))" "kept P (\<lambda>w. snd (sd_OldestDueLagSeconds S w))"
    and redis_P: "kept P (\<lambda>w. snd (sq_Publish S s m w))" "kept P (\<lambda>w. snd (sq_Depth S s w))" "kept P (\<lambda>w. snd (sq_Pending S s w))"
    and gauge_P: "kept P (sx_SetQueueDepth S s i)" "kept P (sx_SetQueuePending S s i)" "kept P (sx_SetOutboxUnpublished S i)"
      "kept P (sx_SetSchedulerLag S x)" "kept P (sx_AddPromoted S i)" "kept P (sx_AddReclaimed S i)" "kept P (sx_AddReconciled S i)"
    and clock_P: "kept P (\<lambda>w. snd (sk_Now S w))" "kept P (\<lambda>w. snd (sk_tick S d w))"
begin

lemma publish_entries_P: "P w \<Longrightarrow> P (snd (publish_entries S es ids w))"
proof (induction es arbitrary: ids w)
  case (Cons e es)
  then have "P (snd (sq_Publish S (oe_Stream e) (oe_Message e) w))" by (intro keptD [OF redis_P(1)])
  with Cons.IH show ?case by (auto split: prod.split sum.split)
qed simp

lemma relayOutbox_P:
  assumes "relayOutbox S w = Some w'" "P w"
  shows "P w'"
proof -
  have "S = S \<longrightarrow> P w \<longrightarrow> P w'"
  proof (rule relayOutbox.raw_induct [where P = "\<lambda>S' w w'. S' = S \<longrightarrow> P w \<longrightarrow> P w'"], goal_cases)
    case (1 rec S' w w')
    obtain r w1 where one: "sd_FetchUnpublishedOutbox S (sc_OutboxBatchSize (sc_cfg S)) w = (r, w1)" by force
    obtain ids w2 where two: "publish_entries S (projr r) [] w1 = (ids, w2)" by force
    obtain m w3 where three: "sd_MarkOutboxPublished S ids w2 = (m, w3)" by force
    show ?case
    proof (intro impI)
      assume S: "S' = S" and w: "P w"
      have p1: "P w1" using keptD [OF fetch_P w, of "sc_OutboxBatchSize (sc_cfg S)"] one by simp
      then have p2: "P w2" using publish_entries_P [of w1 "projr r" "[]"] two by simp
      then have p3: "P w3" using keptD [OF mark_P p2, of ids] three by simp
      show "P w'"
        using 1 S one two three p1 p3 by (cases r; cases m) (auto simp: Let_def split: if_splits)
    qed
  qed (rule assms(1))
  with assms(2) show ?thesis by simp
qed

lemma promoteDue_P:
  assumes "promoteDue S w = Some w'" "P w"
  shows "P w'"
proof -
  have "S = S \<longrightarrow> P w \<longrightarrow> P w'"
  proof (rule promoteDue.raw_induct [where P = "\<lambda>S' w w'. S' = S \<longrightarrow> P w \<longrightarrow> P w'"], goal_cases)
    case (1 rec S' w w')
    obtain r w1 where one: "sd_PromoteDue S (sc_PromoteBatch (sc_cfg S)) w = (r, w1)" by force
    show ?case
    proof (intro impI)
      assume S: "S' = S" and w: "P w"
      have p1: "P w1" using keptD [OF promote_P w, of "sc_PromoteBatch (sc_cfg S)"] one by simp
      then have "P (sx_AddPromoted S n w1)" for n by (rule keptD [OF gauge_P(5)])
      then show "P w'" using 1 S one p1 by (cases r) (auto simp: Let_def split: if_splits)
    qed
  qed (rule assms(1))
  with assms(2) show ?thesis by simp
qed

lemma sweepRetries_P:
  assumes "sweepRetries S w = Some w'" "P w"
  shows "P w'"
proof -
  have "S = S \<longrightarrow> P w \<longrightarrow> P w'"
  proof (rule sweepRetries.raw_induct [where P = "\<lambda>S' w w'. S' = S \<longrightarrow> P w \<longrightarrow> P w'"], goal_cases)
    case (1 rec S' w w')
    obtain r w1 where one: "sd_SweepRetries S (sc_PromoteBatch (sc_cfg S)) w = (r, w1)" by force
    show ?case
    proof (intro impI)
      assume S: "S' = S" and w: "P w"
      have "P w1" using keptD [OF sweep_P w, of "sc_PromoteBatch (sc_cfg S)"] one by simp
      then show "P w'" using 1 S one by (cases r) (auto split: if_splits)
    qed
  qed (rule assms(1))
  with assms(2) show ?thesis by simp
qed

lemma reapStuck_P: "P w \<Longrightarrow> P (reapStuck S w)"
  using keptD [OF reap_P] keptD [OF gauge_P(6)] by (auto simp: reapStuck_def split: prod.split sum.split) (metis snd_conv)+

lemma reconcile_job_P: "P w \<Longrightarrow> P (reconcile S w)"
  using keptD [OF reconcile_P] keptD [OF gauge_P(7)] by (auto simp: reconcile_def split: prod.split sum.split) (metis snd_conv)+

lemma fold_P: "(\<And>x w. P w \<Longrightarrow> P (f x w)) \<Longrightarrow> P w \<Longrightarrow> P (fold f xs w)"
  by (induction xs arbitrary: w) auto

lemma maintainPartitions_P:
  assumes "P w"
  shows "P (maintainPartitions S w)"
proof -
  have "P (fold (\<lambda>i w. snd (sd_CreateDeliveryPartition S (add_days i today) w)) xs w')" if "P w'" for today xs w'
    using that by (intro fold_P) (auto intro: keptD [OF create_P])
  then show ?thesis
    using keptD [OF clock_P(1)] keptD [OF drop_P] keptD [OF purge_P] assms by (simp add: maintainPartitions_def split_beta Let_def)
qed

lemma refresh_stream_P:
  assumes "P w"
  shows "P (refresh_stream S s w)"
proof -
  let ?w2 = "case sq_Depth S s w of (Inl _, w1) \<Rightarrow> w1 | (Inr n, w1) \<Rightarrow> sx_SetQueueDepth S s n w1"
  have "P ?w2"
    using keptD [OF redis_P(2) assms] keptD [OF gauge_P(1)] by (auto split: prod.split sum.split) (metis snd_conv)+
  then show ?thesis
    using keptD [OF redis_P(3)] keptD [OF gauge_P(2)] unfolding refresh_stream_def Let_def
    by (auto split: prod.split sum.split) (metis snd_conv)+
qed

lemma refreshMetrics_P:
  assumes "P w"
  shows "P (refreshMetrics S w)"
proof -
  define w1 where "w1 = (case sd_CountUnpublishedOutbox S w of (Inl _, w1) \<Rightarrow> w1 | (Inr n, w1) \<Rightarrow> sx_SetOutboxUnpublished S n w1)"
  define w2 where "w2 = (case sd_OldestDueLagSeconds S w1 of (Inl _, w2) \<Rightarrow> w2 | (Inr lag, w2) \<Rightarrow> sx_SetSchedulerLag S lag w2)"
  have "P w1"
    using keptD [OF query_P(1) assms] keptD [OF gauge_P(3)] by (auto simp: w1_def split: prod.split sum.split)
  then have "P w2"
    using keptD [OF query_P(2)] keptD [OF gauge_P(4)] by (auto simp: w2_def split: prod.split sum.split) (metis snd_conv)+
  then have "P (fold (refresh_stream S) allStreams w2)" by (intro fold_P refresh_stream_P)
  then show ?thesis by (simp add: refreshMetrics_def w1_def w2_def Let_def)
qed

lemma job_P:
  assumes "(name, interval, fn) \<in> set (scheduler_jobs S)" "fn w = Some w'" "P w"
  shows "P w'"
  using assms relayOutbox_P promoteDue_P sweepRetries_P reapStuck_P reconcile_job_P refreshMetrics_P maintainPartitions_P
  by (auto simp: scheduler_jobs_def)

lemma scheduler_step_P: "scheduler_step S w w' \<Longrightarrow> P w \<Longrightarrow> P w'"
proof (induction rule: scheduler_step.induct)
  case (tick name interval fn w w1 w2)
  then have "P w1" using keptD [OF clock_P(2), of w interval] by simp
  with tick show ?case by (blast intro: job_P)
next
  case (stop name interval fn w w1)
  then show ?case using keptD [OF clock_P(2), of w interval] by simp
qed

theorem scheduler_run_P:
  assumes "scheduler_run S w w'" "P w"
  shows "P w'"
proof -
  have "(scheduler_step S)\<^sup>*\<^sup>* (maintainPartitions S w) w'" using assms(1) by (simp add: scheduler_run_def)
  then show ?thesis
    by (induction rule: rtranclp_induct) (auto intro: maintainPartitions_P [OF assms(2)] scheduler_step_P)
qed

end

end
