(* ===== verification/Lifecycle.thy ===== *)
theory Lifecycle
  imports Store_Create Store_Scheduler
begin

text \<open>
  The life cycle of a delivery as an abstract specification, and the repository as its refinement.
  The specification knows nothing of tables: it is a map from delivery keys to statuses, which an
  operation may extend by new deliveries or move along the edges of \<open>life\<close>, and from which retention
  may remove keys.  \<open>db_step\<close> is one repository call by any of the processes, in any order, with any
  arguments and any fault; a worker finishes a delivery only while its claim holds.
\<close>

section \<open>The specification\<close>

inductive life :: "DeliveryStatus \<Rightarrow> DeliveryStatus \<Rightarrow> bool" where
  promote: "life DeliveryScheduled DeliveryPending"
| claim: "life DeliveryPending DeliveryProcessing"
| claim_retry: "life DeliveryRetrying DeliveryProcessing"
| sweep: "life DeliveryRetrying DeliveryPending"
| sent: "life DeliveryProcessing DeliverySent"
| failed: "life DeliveryProcessing DeliveryFailed"
| retry: "life DeliveryProcessing DeliveryRetrying"
| cancel: "s \<in> {DeliveryScheduled, DeliveryPending, DeliveryRetrying} \<Longrightarrow> life s DeliveryCancelled"

inductive_cases life_cases: "life s s'"

type_synonym spec = "uuid \<times> gotime \<rightharpoonup> DeliveryStatus"

definition spec_step :: "spec \<Rightarrow> spec \<Rightarrow> bool" where
  "spec_step a b \<longleftrightarrow> (\<forall>k. b k = a k
     \<or> (a k = None \<and> b k \<in> {Some DeliveryScheduled, Some DeliveryPending})
     \<or> (\<exists>s s'. a k = Some s \<and> b k = Some s' \<and> life s s'))"

definition spec_retention :: "spec \<Rightarrow> spec \<Rightarrow> bool" where
  "spec_retention a b \<longleftrightarrow> (\<exists>day. b = a |` {k. day_of (snd k) \<noteq> day})"

lemma life_not_terminal: "life s s' \<Longrightarrow> \<not> IsTerminal s"
  by (auto elim: life_cases)

section \<open>The system of repository calls\<close>

definition status_at :: "store \<Rightarrow> spec" where
  "status_at st = map_of (map (\<lambda>d. (d_key d, d_Status d)) (deliveries st))"

definition initial :: "Delivery \<Rightarrow> bool" where
  "initial d \<longleftrightarrow> d_Status d \<in> {DeliveryScheduled, DeliveryPending}"

text \<open>The claim of a worker still holds: the delivery it is about to finish is being processed.\<close>

definition leased :: "store \<Rightarrow> uuid \<Rightarrow> gotime \<Rightarrow> uuid \<Rightarrow> bool" where
  "leased st i t rid \<longleftrightarrow> (\<forall>d\<in>set (deliveries st). at_key i t d \<longrightarrow> d_RequestID d = rid \<and> d_Status d = DeliveryProcessing)"

inductive db_step :: "store \<Rightarrow> store \<Rightarrow> bool" where
  create: "item_ok r d \<Longrightarrow> initial d \<Longrightarrow> r_BatchID r = None \<Longrightarrow> db_step st (snd (CreateNotification flt now r d ob st))"
| create_batch: "\<forall>it\<in>set items. item_ok (bi_Request it) (bi_Delivery it) \<and> initial (bi_Delivery it) \<and> r_BatchID (bi_Request it) = Some (b_ID b)
    \<Longrightarrow> db_step st (snd (CreateBatch flt now b items st))"
| cancel_request: "db_step st (snd (CancelRequest flt now i st))"
| claim_delivery: "db_step st (snd (ClaimDelivery flt now i t lease st))"
| mark_sent: "leased st i t rid \<Longrightarrow> db_step st (snd (MarkSent flt now i t rid pm st))"
| mark_failed: "leased st i t rid \<Longrightarrow> db_step st (snd (MarkFailed flt now i t rid n msg st))"
| mark_retrying: "leased st i t rid \<Longrightarrow> db_step st (snd (MarkRetrying flt now i t n at' msg st))"
| promote_due: "db_step st (snd (PromoteDue flt now locked ids limit st))"
| sweep_retries: "db_step st (snd (SweepRetries flt now locked ids limit st))"
| reap_stuck: "db_step st (snd (ReapStuck flt now st))"
| reconcile: "db_step st (snd (ReconcilePending flt now wall locked ids older limit st))"
| mark_published: "db_step st (snd (MarkOutboxPublished flt now oids st))"
| purge: "db_step st (snd (PurgePublishedOutbox flt before st))"
| partition: "db_step st (snd (CreateDeliveryPartition flt day st))"

section \<open>How an operation changes the deliveries\<close>

definition moved :: "Delivery \<Rightarrow> Delivery \<Rightarrow> bool" where
  "moved d d' \<longleftrightarrow> d_key d' = d_key d \<and> d_RequestID d' = d_RequestID d \<and> (d_Status d' = d_Status d \<or> life (d_Status d) (d_Status d'))"

definition evolves :: "store \<Rightarrow> store \<Rightarrow> bool" where
  "evolves st st' \<longleftrightarrow> (\<exists>ds new. deliveries st' = ds @ new \<and> list_all2 moved (deliveries st) ds \<and> list_all initial new)
     \<and> (single_delivery st \<longrightarrow> single_delivery st')"

lemma moved_refl: "list_all2 moved ds ds"
  by (simp add: list_all2_same moved_def)

lemma moved_requests: "list_all2 moved ds ds' \<Longrightarrow> map d_RequestID ds' = map d_RequestID ds"
  by (induction rule: list_all2_induct) (simp_all add: moved_def)

lemma evolvesI:
  assumes "deliveries st' = ds @ new" "list_all2 moved (deliveries st) ds" "list_all initial new"
    "single_delivery st \<Longrightarrow> single_delivery st'"
  shows "evolves st st'"
  using assms by (auto simp: evolves_def)

lemma evolves_same: "deliveries st' = deliveries st \<Longrightarrow> evolves st st'"
  by (rule evolvesI [of _ "deliveries st" "[]"]) (simp_all add: moved_refl single_delivery_def)

lemma evolves_upd:
  assumes "deliveries st' = upd_where p f (deliveries st)" "\<And>d. d \<in> set (deliveries st) \<Longrightarrow> p d \<Longrightarrow> moved d (f d)"
  shows "evolves st st'"
proof -
  have "list_all2 moved ds (upd_where p f ds)" if "\<And>d. d \<in> set ds \<Longrightarrow> p d \<Longrightarrow> moved d (f d)" for ds
    using that by (induction ds) (auto simp: moved_def)
  then have "list_all2 moved (deliveries st) (deliveries st')" using assms by simp
  with moved_requests [OF this] show ?thesis
    by (intro evolvesI [of _ "deliveries st'" "[]"]) (simp_all add: single_delivery_def)
qed

lemma evolves_add:
  assumes "deliveries st' = deliveries st @ new" "list_all initial new" "single_delivery st \<Longrightarrow> single_delivery st'"
  shows "evolves st st'"
  by (rule evolvesI [of _ "deliveries st" new]) (simp_all add: assms moved_refl)

lemma moved_status_at:
  assumes "list_all2 moved ds ds'"
  shows "(map_of (map (\<lambda>d. (d_key d, d_Status d)) ds) k = None \<and> map_of (map (\<lambda>d. (d_key d, d_Status d)) ds') k = None)
    \<or> (\<exists>s s'. map_of (map (\<lambda>d. (d_key d, d_Status d)) ds) k = Some s
         \<and> map_of (map (\<lambda>d. (d_key d, d_Status d)) ds') k = Some s' \<and> (s' = s \<or> life s s'))"
  using assms by (induction rule: list_all2_induct) (auto simp: moved_def)

lemma initial_status_at:
  "list_all initial new \<Longrightarrow> map_of (map (\<lambda>d. (d_key d, d_Status d)) new) k \<in> {None, Some DeliveryScheduled, Some DeliveryPending}"
  by (induction new) (auto simp: initial_def)

lemma evolves_spec:
  assumes "evolves st st'"
  shows "spec_step (status_at st) (status_at st')"
  unfolding spec_step_def
proof
  fix k
  obtain ds new where d: "deliveries st' = ds @ new" "list_all2 moved (deliveries st) ds" "list_all initial new"
    using assms by (auto simp: evolves_def)
  show "status_at st' k = status_at st k
      \<or> (status_at st k = None \<and> status_at st' k \<in> {Some DeliveryScheduled, Some DeliveryPending})
      \<or> (\<exists>s s'. status_at st k = Some s \<and> status_at st' k = Some s' \<and> life s s')"
    using moved_status_at [OF d(2), of k] initial_status_at [OF d(3), of k]
    by (auto simp: status_at_def d(1) map_add_def)
qed


section \<open>Every call evolves the deliveries\<close>

lemma evolves_tx:
  assumes "\<And>x st'. fn st = Inr (x, st') \<Longrightarrow> evolves st st'"
  shows "evolves st (snd (withTx flt fn st))"
  by (rule withTx_inv) (simp_all add: evolves_same assms)

lemma initial_stored [simp]: "initial (stored_delivery d) = initial d"
  by (simp add: initial_def)

lemma single_delivery_new:
  assumes "wf_store st" "new_request st r" "d_RequestID d = r_ID r" "single_delivery st"
    "deliveries st' = deliveries st @ [stored_delivery d]"
  shows "single_delivery st'"
proof -
  have "d_RequestID d \<notin> d_RequestID ` set (deliveries st)"
    using assms(1-3) by (fastforce simp: wf_store_def new_request_def)
  then show ?thesis using assms(4,5) by (auto simp: single_delivery_def)
qed

lemma CreateNotification_evolves:
  assumes "store_inv st" "item_ok r d" "initial d"
  shows "evolves st (snd (CreateNotification flt now r d ob st))"
  unfolding CreateNotification_def
proof (rule evolves_tx)
  fix x st'
  assume "(case insertRequest r st of Inl err \<Rightarrow> Inl err
    | Inr st1 \<Rightarrow> (case insert_delivery_and_outbox now d ob st1 of Inl err \<Rightarrow> Inl err | Inr st2 \<Rightarrow> Inr ((), st2))) = Inr (x, st')"
  then have new: "new_request st r" and ds: "deliveries st' = deliveries st @ [stored_delivery d]"
    by (auto simp: insertRequest_Inr insert_delivery_and_outbox_Inr add_request_frame split: sum.splits)
  show "evolves st st'"
  proof (rule evolves_add [OF ds])
    show "list_all initial [stored_delivery d]" using assms(3) by simp
    show "single_delivery st'" if "single_delivery st"
      using single_delivery_new [OF store_invD(1) [OF assms(1)] new _ that ds] assms(2) by (simp add: item_ok_def)
  qed
qed

lemma insert_items_evolves:
  assumes "insert_items now items n st = Inr (n', st')" "wf_store st" "status_ok st"
    "\<forall>it\<in>set items. item_ok (bi_Request it) (bi_Delivery it) \<and> initial (bi_Delivery it)"
  shows "\<exists>new. deliveries st' = deliveries st @ new \<and> list_all initial new \<and> (single_delivery st \<longrightarrow> single_delivery st')"
  using assms
proof (induction now items n st rule: insert_items.induct)
  case (2 now item items n st)
  obtain inserted st1 where c: "insertRequestOnConflict (bi_Request item) st = Inr (inserted, st1)"
    using "2.prems"(1) by (auto split: sum.splits)
  show ?case
  proof (cases inserted)
    case False
    with c have "st1 = st" by (simp add: insertRequestOnConflict_Inr)
    with "2.IH"(1) [OF c refl] False "2.prems" c show ?thesis by simp
  next
    case True
    with c have new: "new_request st (bi_Request item)" "request_fk_ok st (bi_Request item)"
      and st1: "st1 = add_request (bi_Request item) st" by (auto simp: insertRequestOnConflict_Inr)
    obtain st2 where ins: "insert_delivery_and_outbox now (bi_Delivery item) (bi_Outbox item) st1 = Inr st2"
      using "2.prems"(1) c True by (auto split: sum.splits)
    have ok: "item_ok (bi_Request item) (bi_Delivery item)" using "2.prems"(4) by simp
    note step = add_item [OF "2.prems"(2,3) new ok ins [unfolded st1]]
    have ds: "deliveries st2 = deliveries st @ [stored_delivery (bi_Delivery item)]"
      using ins by (simp add: st1 insert_delivery_and_outbox_Inr)
    have single: "single_delivery st \<Longrightarrow> single_delivery st2"
      using single_delivery_new [OF "2.prems"(2) new(1) _ _ ds] ok by (simp add: item_ok_def)
    obtain more where "deliveries st' = deliveries st2 @ more" "list_all initial more" "single_delivery st2 \<longrightarrow> single_delivery st'"
      using "2.IH"(2) [OF c refl _ ins] True "2.prems"(1,4) c ins step by auto
    then show ?thesis
      using ds single "2.prems"(4) by (intro exI [of _ "stored_delivery (bi_Delivery item) # more"]) auto
  qed
qed auto

lemma CreateBatch_evolves:
  assumes "store_inv st" "\<forall>it\<in>set items. item_ok (bi_Request it) (bi_Delivery it) \<and> initial (bi_Delivery it)"
  shows "evolves st (snd (CreateBatch flt now b items st))"
  unfolding CreateBatch_def
proof (rule evolves_tx)
  fix x st'
  assume "(case insertBatch b st of Inl err \<Rightarrow> Inl err
    | Inr st1 \<Rightarrow> (case insert_items now items 0 st1 of Inl err \<Rightarrow> Inl err
      | Inr (created, st2) \<Rightarrow>
          Inr (\<lparr>br_Batch = b\<lparr>b_TotalCount := created, b_PendingCount := created\<rparr>,
                br_CreatedCount = created, br_DuplicateCount = int (length items) - created\<rparr>,
               st2\<lparr>batches := upd_where (\<lambda>x. b_ID x = b_ID b)
                 (\<lambda>x. x\<lparr>b_TotalCount := created, b_PendingCount := created\<rparr>) (batches st2)\<rparr>))) = Inr (x, st')"
  then obtain st1 n st2 where ib: "insertBatch b st = Inr st1" and it: "insert_items now items 0 st1 = Inr (n, st2)"
    and st': "deliveries st' = deliveries st2" by (auto split: sum.splits)
  have loop: "wf_store st1" "status_ok st1"
    using insertBatch_inv(1) [OF assms(1) ib] by (simp_all add: batch_loop_inv_def)
  have st1: "deliveries st1 = deliveries st" using ib by (auto simp: insertBatch_eq split: if_splits)
  obtain new where "deliveries st2 = deliveries st1 @ new" "list_all initial new" "single_delivery st1 \<longrightarrow> single_delivery st2"
    using insert_items_evolves [OF it loop assms(2)] by blast
  then show "evolves st st'" by (intro evolves_add [of _ _ new]) (simp_all add: st' st1 single_delivery_def)
qed


lemma movedI: "life (d_Status d) s \<Longrightarrow> d_key d' = d_key d \<Longrightarrow> d_RequestID d' = d_RequestID d \<Longrightarrow> d_Status d' = s \<Longrightarrow> moved d d'"
  by (simp add: moved_def)

lemma mark_evolves:
  assumes "leased st i t rid" "life DeliveryProcessing s"
    and f: "\<And>d. d_key (f d) = d_key d \<and> d_RequestID (f d) = d_RequestID d \<and> d_Status (f d) = s"
  shows "evolves st (st\<lparr>deliveries := upd_where (at_key i t) f (deliveries st)\<rparr>)"
  by (rule evolves_upd [where p = "at_key i t" and f = f]) (use assms in \<open>auto simp: leased_def intro!: movedI\<close>)

lemma mark_tx_evolves:
  assumes "leased st i t rid" "life DeliveryProcessing s"
    and "\<And>d. d_key (f d) = d_key d \<and> d_RequestID (f d) = d_RequestID d \<and> d_Status (f d) = s"
  shows "evolves st (snd (withTx flt (\<lambda>st.
    let st1 = st\<lparr>deliveries := upd_where (at_key i t) f (deliveries st)\<rparr>
    in map_sum id (Pair ()) (recomputeRequestStatusTx rid st1)) st))"
proof (rule evolves_tx)
  fix x st'
  assume "(let st1 = st\<lparr>deliveries := upd_where (at_key i t) f (deliveries st)\<rparr>
    in map_sum id (Pair ()) (recomputeRequestStatusTx rid st1)) = Inr (x, st')"
  then have "deliveries st' = upd_where (at_key i t) f (deliveries st)"
    by (auto simp: map_sum_def Let_def recompute_frame split: sum.splits)
  then show "evolves st st'" using mark_evolves [OF assms] by (simp add: evolves_def single_delivery_def)
qed

lemma Mark_evolves:
  assumes "leased st i t rid"
  shows "evolves st (snd (MarkSent flt now i t rid pm st))" "evolves st (snd (MarkFailed flt now i t rid n msg st))"
    "evolves st (snd (MarkRetrying flt now i t n at' msg st))"
proof -
  show "evolves st (snd (MarkSent flt now i t rid pm st))"
    unfolding MarkSent_def by (rule mark_tx_evolves [OF assms life.sent]) (simp add: d_key_def)
  show "evolves st (snd (MarkFailed flt now i t rid n msg st))"
    unfolding MarkFailed_def by (rule mark_tx_evolves [OF assms life.failed]) (simp add: d_key_def)
  show "evolves st (snd (MarkRetrying flt now i t n at' msg st))"
    using mark_evolves [OF assms life.retry, of "\<lambda>d. d\<lparr>d_Status := DeliveryRetrying, d_AttemptCount := n,
        d_NextRetryAt := Some (timestamptz at'), d_LastError := Some msg, d_LockedUntil := None, d_UpdatedAt := now\<rparr>"]
    by (auto simp: MarkRetrying_def d_key_def evolves_same split: option.split)
qed

lemma CancelRequest_evolves: "evolves st (snd (CancelRequest flt now i st))"
  unfolding CancelRequest_def
proof (rule evolves_tx, goal_cases)
  case (1 x st')
  let ?p = "\<lambda>d. d_RequestID d = i \<and> cancellable (d_Status d)"
  let ?f = "\<lambda>d::Delivery. d\<lparr>d_Status := DeliveryCancelled, d_UpdatedAt := now\<rparr>"
  have "deliveries st' = upd_where ?p ?f (deliveries st)"
    using 1 by (auto simp: Let_def dest!: recompute_frame(1) split: sum.splits if_splits)
  then show ?case
    by (rule evolves_upd) (auto simp: cancellable_def d_key_def intro!: movedI life.cancel)
qed

lemma ClaimDelivery_evolves: "evolves st (snd (ClaimDelivery flt now i t lease st))"
proof (cases "snd (ClaimDelivery flt now i t lease st) = st")
  case False
  then have "deliveries (snd (ClaimDelivery flt now i t lease st))
      = upd_where (\<lambda>d. at_key i t d \<and> claimable (d_Status d)) (claimed_row now lease) (deliveries st)"
    by (auto simp: ClaimDelivery_eq Let_def split: option.splits)
  then show ?thesis
    by (rule evolves_upd)
      (auto simp: claimable_def claimed_row_def d_key_def moved_def intro: life.claim life.claim_retry)
qed (simp add: evolves_same)

lemma ReapStuck_evolves: "evolves st (snd (ReapStuck flt now st))"
proof (cases flt)
  case None
  then have "deliveries (snd (ReapStuck flt now st)) = upd_where (stuck now)
      (\<lambda>d. d\<lparr>d_Status := DeliveryRetrying, d_NextRetryAt := Some now, d_LockedUntil := None, d_UpdatedAt := now\<rparr>) (deliveries st)"
    by (simp add: ReapStuck_def)
  then show ?thesis by (rule evolves_upd) (auto simp: stuck_def d_key_def moved_def intro: life.retry)
qed (simp add: ReapStuck_def evolves_same)

lemma transition_evolves:
  assumes inv: "store_inv st" and edge: "life s DeliveryPending"
  shows "evolves st (snd (transitionAndEnqueue flt now ids (due_query s due_at now locked) limit st))"
  unfolding transitionAndEnqueue_def
proof (rule evolves_tx, goal_cases)
  case (1 x st')
  let ?due = "due_selection s due_at now locked limit st"
  obtain rows st1 where q: "due_query s due_at now locked limit st = Inr (rows, st1)"
    and enq: "enqueue_all now ids 0 (scanDueRows rows) st1 = Inr st'"
    using 1 by (auto simp: Let_def split: sum.splits)
  have "deliveries st1 = upd_where (\<lambda>d. d \<in> set ?due) (to_pending now) (deliveries st)"
    using q due_query_eq [OF store_invD(1) [OF inv]] by (auto simp: Let_def split: if_splits)
  then have "deliveries st' = upd_where (\<lambda>d. d \<in> set ?due) (to_pending now) (deliveries st)"
    using enqueue_all_Inr [OF enq] by simp
  then show ?case
    by (rule evolves_upd)
      (use edge in \<open>auto simp: to_pending_def d_key_def moved_def is_due_def dest!: due_selection_sub\<close>)
qed

lemma ReconcilePending_evolves: "evolves st (snd (ReconcilePending flt now wall locked ids older limit st))"
  unfolding ReconcilePending_def Let_def
  by (rule evolves_tx) (auto dest!: enqueue_all_Inr intro: evolves_same split: sum.splits)

lemma outbox_evolves:
  "evolves st (snd (MarkOutboxPublished flt now oids st))" "evolves st (snd (PurgePublishedOutbox flt before st))"
  "evolves st (snd (CreateDeliveryPartition flt day st))"
  by (auto simp: MarkOutboxPublished_def PurgePublishedOutbox_def CreateDeliveryPartition_def intro: evolves_same split: option.split)

section \<open>Refinement\<close>

lemma db_step_evolves: "db_step st st' \<Longrightarrow> store_inv st \<Longrightarrow> evolves st st'"
proof (induction rule: db_step.induct)
  case (promote_due st flt now locked ids limit)
  then show ?case unfolding PromoteDue_def by (rule transition_evolves) (rule life.promote)
next
  case (sweep_retries st flt now locked ids limit)
  then show ?case unfolding SweepRetries_def by (rule transition_evolves) (rule life.sweep)
qed (auto intro: CreateNotification_evolves CreateBatch_evolves CancelRequest_evolves ClaimDelivery_evolves Mark_evolves
    ReapStuck_evolves ReconcilePending_evolves outbox_evolves)

lemma leased_owns: "leased st i t rid \<Longrightarrow> owns st i t rid"
  by (simp add: leased_def owns_def)

lemma db_step_inv: "db_step st st' \<Longrightarrow> store_inv st \<Longrightarrow> store_inv st'"
proof (induction rule: db_step.induct)
  case (mark_retrying st i t rid flt now n at' msg)
  then show ?case by (intro MarkRetrying_inv) (auto simp: leased_def)
next
  case (promote_due st flt now locked ids limit)
  then show ?case unfolding PromoteDue_def by (intro transitionAndEnqueue_inv) (auto intro: due_query_inv [of st DeliveryScheduled])
next
  case (sweep_retries st flt now locked ids limit)
  then show ?case unfolding SweepRetries_def by (intro transitionAndEnqueue_inv) (auto intro: due_query_inv [of st DeliveryRetrying])
qed (auto intro: CreateNotification_inv CreateBatch_inv CancelRequest_inv ClaimDelivery_inv MarkSent_inv MarkFailed_inv leased_owns
    ReapStuck_inv ReconcilePending_inv MarkOutboxPublished_inv PurgePublishedOutbox_inv CreateDeliveryPartition_inv)

text \<open>Retention: the nightly drop of a day's partition.\<close>

definition retention_step :: "store \<Rightarrow> store \<Rightarrow> bool" where
  "retention_step st st' \<longleftrightarrow> (\<exists>flt day. st' = snd (ArchiveAndDropPartition flt day st))"

lemma map_of_filter_key: "map_of (map (\<lambda>d. (k d, s d)) (filter (\<lambda>d. P (k d)) ds)) = map_of (map (\<lambda>d. (k d, s d)) ds) |` {x. P x}"
  by (induction ds) (auto simp: fun_eq_iff restrict_map_def)

lemma retention_refines:
  assumes "retention_step st st'"
  shows "status_at st' = status_at st \<or> spec_retention (status_at st) (status_at st')"
proof -
  obtain flt day where st': "st' = snd (ArchiveAndDropPartition flt day st)" using assms by (auto simp: retention_step_def)
  show ?thesis
  proof (cases "st' = st")
    case False
    then have "deliveries st' = filter (\<lambda>d. day_of (snd (d_key d)) \<noteq> day_of day) (deliveries st)"
      by (auto simp: st' ArchiveAndDropPartition_def in_day_def d_key_def Let_def split: option.splits if_splits)
    then have "status_at st' = status_at st |` {k. day_of (snd k) \<noteq> day_of day}"
      by (simp only: status_at_def map_of_filter_key [of d_key d_Status "\<lambda>k. day_of (snd k) \<noteq> day_of day"])
    then show ?thesis by (auto simp: spec_retention_def)
  qed simp
qed

lemma retention_inv:
  assumes "retention_step st st'" "store_inv st" "single_delivery st"
  shows "store_inv st' \<and> single_delivery st'"
proof
  obtain flt day where st': "st' = snd (ArchiveAndDropPartition flt day st)" using assms(1) by (auto simp: retention_step_def)
  show "store_inv st'" unfolding st' by (rule ArchiveAndDropPartition_inv) (fact assms)+
  show "single_delivery st'"
    using assms(3) by (auto simp: st' ArchiveAndDropPartition_def single_delivery_def Let_def distinct_map_filter split: option.split)
qed

lemma system_inv:
  assumes "(sup db_step retention_step)\<^sup>*\<^sup>* empty_store st"
  shows "store_inv st \<and> single_delivery st"
  using assms
proof (induction rule: rtranclp_induct)
  case base
  show ?case using store_inv_empty by (simp add: single_delivery_def) (simp add: empty_store_def)
next
  case (step st st')
  then show ?case
    using db_step_inv [of st st'] db_step_evolves [of st st'] retention_inv [of st st'] by (auto simp: evolves_def)
qed

end
