(* ===== verification/Lifecycle_Props.thy ===== *)
theory Lifecycle_Props
  imports Lifecycle Store_Props
begin

text \<open>
  The repository refines the life cycle: every interleaving of repository calls, seen through the
  statuses of the deliveries, is a run of the specification, and finished deliveries stay finished.
\<close>

lemma system_refines:
  assumes reach: "(sup db_step retention_step)\<^sup>*\<^sup>* empty_store st" and run: "(sup db_step retention_step)\<^sup>*\<^sup>* st st'"
  shows "(sup spec_step spec_retention)\<^sup>*\<^sup>* (status_at st) (status_at st')"
  using run
proof (induction rule: rtranclp_induct)
  case (step st1 st2)
  have inv: "store_inv st1" using system_inv reach step(1) by (meson rtranclp_trans)
  from step(2) consider "db_step st1 st2" | "retention_step st1 st2" by auto
  then have "status_at st2 = status_at st1 \<or> sup spec_step spec_retention (status_at st1) (status_at st2)"
  proof cases
    case 1
    then show ?thesis using evolves_spec [OF db_step_evolves [OF _ inv]] by blast
  next
    case 2
    then show ?thesis using retention_refines by blast
  qed
  then show ?case using step(3) by (auto intro: rtranclp.rtrancl_into_rtrancl)
qed simp

text \<open>
  Refinement: whatever calls the processes make on the database, in any order and with any
  fault, the tables satisfy the store invariant, and what happened to the deliveries is a run of the
  life cycle: each starts as scheduled or pending, moves only along the edges of \<open>life\<close>, and leaves
  only with its day's partition.
\<close>

theorem repository_refines_life_cycle:
  assumes "(sup db_step retention_step)\<^sup>*\<^sup>* empty_store st"
  shows "store_inv st \<and> (sup spec_step spec_retention)\<^sup>*\<^sup>* Map.empty (status_at st)"
proof
  show "store_inv st" using system_inv [OF assms] by blast
  have "status_at empty_store = Map.empty" by (simp add: status_at_def empty_store_def)
  then show "(sup spec_step spec_retention)\<^sup>*\<^sup>* Map.empty (status_at st)"
    using system_refines [OF rtranclp.rtrancl_refl assms] by simp
qed

text \<open>
  C20. A finished delivery stays finished: once a delivery is sent, failed or cancelled, no sequence of
  repository calls short of the retention drop changes its status again, as long as workers finish
  only deliveries whose claim they still hold.
\<close>

theorem terminal_stays_terminal:
  assumes "(sup db_step retention_step)\<^sup>*\<^sup>* empty_store st" "db_step\<^sup>*\<^sup>* st st'"
    and s: "status_at st k = Some s" "IsTerminal s"
  shows "status_at st' k = Some s"
proof -
  have "status_at st' k = Some s \<and> store_inv st'"
    using assms(2)
  proof (induction rule: rtranclp_induct)
    case base
    then show ?case using s system_inv [OF assms(1)] by simp
  next
    case (step y z)
    have "spec_step (status_at y) (status_at z)" using step by (auto intro: evolves_spec db_step_evolves)
    then have "status_at z k = status_at y k \<or> (\<exists>s'. life s s')"
      using step(3) unfolding spec_step_def by (metis option.distinct(1) option.inject)
    then have "status_at z k = Some s" using step(3) s(2) life_not_terminal by auto
    then show ?case using db_step_inv [OF step(2)] step(3) by simp
  qed
  then show ?thesis ..
qed

section \<open>A concrete life\<close>

definition sample_sent :: store where
  "sample_sent = snd (MarkSent None 6000 2 5000 1 ''m1'' (snd (ClaimDelivery None 6000 2 5000 9000 (store_with [sample_delivery]))))"

lemma sample_claimed: "snd (ClaimDelivery None 6000 2 5000 9000 (store_with [sample_delivery])) = store_with [claimed_row 6000 9000 sample_delivery]"
  by (simp add: ClaimDelivery_eq find_row_def at_key_def claimable_def claimed_row_def sample_simps)

lemma sample_life: "(sup db_step retention_step)\<^sup>*\<^sup>* empty_store sample_sent" "status_at sample_sent (2, 5000) = Some DeliverySent"
proof -
  have "db_step empty_store (snd (CreateNotification None 0 sample_request sample_delivery None empty_store))"
    by (rule db_step.create) (simp_all add: item_ok_def initial_def sample_request_def sample_delivery_def)
  then have 1: "db_step empty_store (store_with [sample_delivery])" by (simp add: create_sample)
  have 2: "db_step (store_with [sample_delivery]) (store_with [claimed_row 6000 9000 sample_delivery])"
    using db_step.claim_delivery [of "store_with [sample_delivery]" None 6000 2 5000 9000] by (simp only: sample_claimed)
  have "leased (store_with [claimed_row 6000 9000 sample_delivery]) 2 5000 1"
    by (simp add: leased_def store_with_def claimed_row_def sample_delivery_def)
  then have 3: "db_step (store_with [claimed_row 6000 9000 sample_delivery]) sample_sent"
    unfolding sample_sent_def sample_claimed by (rule db_step.mark_sent)
  show "(sup db_step retention_step)\<^sup>*\<^sup>* empty_store sample_sent"
    using 1 2 3 by (meson converse_rtranclp_into_rtranclp rtranclp.rtrancl_refl sup2I1)
  show "status_at sample_sent (2, 5000) = Some DeliverySent"
    unfolding sample_sent_def sample_claimed
    by (simp add: MarkSent_def withTx_def recomputeRequestStatusTx_def find_row_def
        delivery_statuses_def AggregateRequestStatus_def at_key_def claimed_row_def status_at_def d_key_def sample_simps Let_def)
qed

theorem repository_refines_life_cycle_witness:
  "store_inv sample_sent \<and> (sup spec_step spec_retention)\<^sup>*\<^sup>* Map.empty (status_at sample_sent)"
  by (rule repository_refines_life_cycle) (rule sample_life)

theorem terminal_stays_terminal_witness:
  "status_at (snd (ReapStuck None 99000 (snd (CancelRequest None 9000 1 sample_sent)))) (2, 5000) = Some DeliverySent"
proof (rule terminal_stays_terminal [OF sample_life(1) _ sample_life(2)])
  show "db_step\<^sup>*\<^sup>* sample_sent (snd (ReapStuck None 99000 (snd (CancelRequest None 9000 1 sample_sent))))"
    by (meson converse_rtranclp_into_rtranclp rtranclp.rtrancl_refl db_step.cancel_request db_step.reap_stuck)
qed simp

end
