(* ===== verification/Processes.thy ===== *)
theory Processes
  imports Scheduler_Run Lifecycle_Props Worker_Props
begin

text \<open>
  The three processes on one database.  The system of repository calls of Lifecycle allows any call
  at any time; here the code of the processes is shown to make only calls of that system: the
  service creates what \<open>build\<close> returns, a worker finishes only what it has claimed, the scheduler
  calls what it calls.  The other processes, whose work is interleaved between two calls, are assumed to
  do the same and to leave a claimed delivery to its worker.
\<close>

abbreviation system_step :: "store \<Rightarrow> store \<Rightarrow> bool" where
  "system_step \<equiv> sup db_step retention_step"

definition lawful :: "env \<Rightarrow> bool" where
  "lawful E \<longleftrightarrow> (\<forall>k st. system_step\<^sup>*\<^sup>* st (e_others E k st)
     \<and> (\<forall>del. held_row st del \<longrightarrow> held_row (e_others E k st) del))"

text \<open>A world in the middle of a run that began with the tables \<open>st0\<close>.\<close>

definition running :: "store \<Rightarrow> world \<Rightarrow> bool" where
  "running st0 w \<longleftrightarrow> system_step\<^sup>*\<^sup>* empty_store st0 \<and> system_step\<^sup>*\<^sup>* st0 (w_db w) \<and> lawful (w_env w)"

definition running_held :: "store \<Rightarrow> Delivery \<Rightarrow> world \<Rightarrow> bool" where
  "running_held st0 del w \<longleftrightarrow> running st0 w \<and> held_row (w_db w) del \<and> timestamptz (d_CreatedAt del) = d_CreatedAt del"

lemma running_inv: "running st0 w \<Longrightarrow> store_inv (w_db w)"
  using system_inv by (meson running_def rtranclp_trans)

lemma running_before:
  assumes "running st0 w"
  shows "system_step\<^sup>*\<^sup>* st0 (before w)" "store_inv (before w)" "held_row (w_db w) del \<Longrightarrow> held_row (before w) del"
proof -
  show s: "system_step\<^sup>*\<^sup>* st0 (before w)"
    using assms by (auto simp: running_def lawful_def before_def intro: rtranclp_trans)
  show "store_inv (before w)" using s assms system_inv by (meson running_def rtranclp_trans)
  show "held_row (w_db w) del \<Longrightarrow> held_row (before w) del" using assms by (simp add: running_def lawful_def before_def)
qed

lemma running_call:
  assumes "running st0 w" "system_step (before w) (snd (f (fault_of w) (now_of w) (before w)))"
  shows "running st0 (snd (db_call f w))"
  using assms running_before(1) [OF assms(1)] by (auto simp: running_def intro: rtranclp.rtrancl_into_rtrancl)

lemma running_db_call: "running st0 w \<Longrightarrow> (\<And>st flt now. db_step st (snd (f flt now st))) \<Longrightarrow> running st0 (snd (db_call f w))"
  by (rule running_call) simp_all

lemma running_query: "running st0 w \<Longrightarrow> running st0 (snd (db_query q w))"
  using running_before(1) [of st0 w] by (simp add: running_def)

lemma running_local:
  "running st0 (next_tick w) = running st0 w" "running st0 (emit e w) = running st0 w"
  "running st0 (snd (clock_Now w)) = running st0 w" "running st0 (snd (uuid_New w)) = running st0 w"
  "running st0 (snd (redis_call evs w)) = running st0 w"
  "running_held st0 del (next_tick w) = running_held st0 del w" "running_held st0 del (snd (clock_Now w)) = running_held st0 del w"
  "running_held st0 del (snd (sleep_for d w)) = running_held st0 del w"
  "running_held st0 del (snd (provider_call p w)) = running_held st0 del w"
  by (simp_all add: running_def running_held_def sleep_for_def provider_call_def)

lemma running_held_query: "running_held st0 del w \<Longrightarrow> running_held st0 del (snd (db_query q w))"
  using running_before(3) [of st0 w del] running_query [of st0 w q] by (simp add: running_held_def)

section \<open>The service\<close>

interpretation api: service_keeps pg_service "running st0" for st0
proof (unfold_locales, goal_cases)
  case (7 req del ob)
  have "running st0 (snd (db_call (\<lambda>flt now. CreateNotification flt now req del ob) w))" if "running st0 w" for w
    by (rule running_db_call [OF that]) (use 7 in \<open>auto intro!: db_step.create simp: item_ok_def initial_def\<close>)
  then show ?case by (simp add: kept_def pg_simps)
next
  case (8 items b)
  have "running st0 (snd (db_call (\<lambda>flt now. CreateBatch flt now b items) w))" if "running st0 w" for w
    by (rule running_db_call [OF that]) (use 8 in \<open>auto intro!: db_step.create_batch simp: item_ok_def initial_def\<close>)
  then show ?case by (simp add: kept_def pg_simps)
qed (simp_all add: kept_def pg_simps running_local running_query)

lemma Cancel_running:
  assumes "running st0 w"
  shows "running st0 (snd (Cancel pg_service u i w))"
proof -
  obtain r w1 where one: "db_query (\<lambda>flt. GetRequestByID flt i) w = (r, w1)" by force
  have w1: "running st0 w1" using running_query [OF assms, of "\<lambda>flt. GetRequestByID flt i"] one by simp
  have "running st0 (snd (db_call (\<lambda>flt now. CancelRequest flt now i) w1))"
    by (rule running_db_call [OF w1]) (rule db_step.cancel_request)
  then show ?thesis using w1 by (auto simp: Cancel_def pg_simps one split: sum.split)
qed

section \<open>The worker\<close>

lemma running_claimed:
  assumes run: "running st0 w" and claim: "db_call (\<lambda>flt now. ClaimDelivery flt now i t lease) w = (Inr (Some del), w')"
  shows "running_held st0 del w'"
proof -
  have "running st0 w'"
    using running_db_call [OF run, of "\<lambda>flt now. ClaimDelivery flt now i t lease"] claim by (auto intro: db_step.claim_delivery)
  moreover have "held_row (w_db w') del \<and> timestamptz (d_CreatedAt del) = d_CreatedAt del"
    by (rule claimed_held [OF claim])
  ultimately show ?thesis by (simp add: running_held_def)
qed

lemma running_marks:
  assumes "running_held st0 del w"
  shows "running st0 (snd (db_call (\<lambda>flt now. MarkSent flt now (d_ID del) (d_CreatedAt del) (d_RequestID del) m) w))"
    "running st0 (snd (db_call (\<lambda>flt now. MarkFailed flt now (d_ID del) (d_CreatedAt del) (d_RequestID del) n m) w))"
    "running st0 (snd (db_call (\<lambda>flt now. MarkRetrying flt now (d_ID del) (d_CreatedAt del) n t m) w))"
proof -
  have run: "running st0 w" and row: "held_row (w_db w) del" and ts: "timestamptz (d_CreatedAt del) = d_CreatedAt del"
    using assms by (simp_all add: running_held_def)
  have "held_row (before w) del" "wf_store (before w)"
    using running_before [OF run] row store_invD(1) by blast+
  then have leased: "leased (before w) (d_ID del) (d_CreatedAt del) (d_RequestID del)"
    using held_row_owns [OF _ _ ts] by (auto simp: leased_def)
  show "running st0 (snd (db_call (\<lambda>flt now. MarkSent flt now (d_ID del) (d_CreatedAt del) (d_RequestID del) m) w))"
    "running st0 (snd (db_call (\<lambda>flt now. MarkFailed flt now (d_ID del) (d_CreatedAt del) (d_RequestID del) n m) w))"
    "running st0 (snd (db_call (\<lambda>flt now. MarkRetrying flt now (d_ID del) (d_CreatedAt del) n t m) w))"
    by (rule running_call [OF run]; use leased in \<open>simp add: db_step.mark_sent db_step.mark_failed db_step.mark_retrying\<close>)+
qed

interpretation delivering: worker_keeps "pg_worker cfg pol us" "running st0" "running_held st0" for cfg pol us st0
proof (unfold_locales, goal_cases)
  case (1 del w)
  then show ?case by (simp add: running_held_def)
next
  case (2 w i t lease del w')
  then show ?case using running_claimed by simp
next
  case (3 w i t lease res w')
  then show ?case
    using running_db_call [of st0 w "\<lambda>flt now. ClaimDelivery flt now i t lease"] by (auto intro: db_step.claim_delivery)
next
  case (16 publish dm)
  then have "publish = (\<lambda>m. redis_call [DeadLettered m])" by simp
  then show ?case by (simp add: kept_def running_local)
qed (simp_all add: kept_def running_local running_held_query running_marks)

section \<open>The scheduler\<close>

lemma pg_scheduler_more:
  "sd_CountUnpublishedOutbox (pg_scheduler cfg) = db_query CountUnpublishedOutbox"
  "sd_OldestDueLagSeconds (pg_scheduler cfg) = db_call (\<lambda>flt now st. (OldestDueLagSeconds flt now st, st))"
  "sq_Depth (pg_scheduler cfg) = (\<lambda>s w. (Inr 0, next_tick w))" "sq_Pending (pg_scheduler cfg) = (\<lambda>s w. (Inr 0, next_tick w))"
  "sx_SetQueueDepth (pg_scheduler cfg) = (\<lambda>s n w. w)" "sx_SetQueuePending (pg_scheduler cfg) = (\<lambda>s n w. w)"
  "sx_SetOutboxUnpublished (pg_scheduler cfg) = (\<lambda>n w. w)" "sx_SetSchedulerLag (pg_scheduler cfg) = (\<lambda>l w. w)"
  "sk_tick (pg_scheduler cfg) = (\<lambda>d w. (e_stop (w_env w) (w_tick w), next_tick w))"
  by (simp_all add: pg_scheduler_def Scheduler_New_def)

lemma running_lag: "running st0 w \<Longrightarrow> running st0 (snd (db_call (\<lambda>flt now st. (f flt now st, st)) w))"
  using running_before(1) [of st0 w] by (simp add: running_def)

interpretation scheduling: scheduler_keeps "pg_scheduler cfg" "running st0" for cfg st0
proof (unfold_locales, goal_cases)
  case (8 t)
  have "running st0 (snd (db_call (\<lambda>flt now. ArchiveAndDropPartition flt t) w))" if "running st0 w" for w
    by (rule running_call [OF that]) (auto simp: retention_step_def)
  then show ?case by (simp add: kept_def)
qed (auto simp: kept_def pg_scheduler_more running_local running_query running_lag simp del: db_call_simps db_query_simps
    intro!: running_db_call db_step.intros)

section \<open>All processes together\<close>

text \<open>What the processes do: serve a request of the API, run the scheduler for a while, process a message.\<close>

inductive activity :: "world \<Rightarrow> world \<Rightarrow> bool" where
  create: "activity w (snd (Create pg_service corr inp w))"
| create_batch: "activity w (snd (Service_CreateBatch pg_service corr binp w))"
| cancel: "activity w (snd (Cancel pg_service u i w))"
| schedule: "scheduler_run (pg_scheduler scfg) w w' \<Longrightarrow> activity w w'"
| process: "process (pg_worker cfg pol us) msg w = Some w' \<Longrightarrow> activity w w'"

lemma activity_running: "activity w w' \<Longrightarrow> running st0 w \<Longrightarrow> running st0 w'"
proof (induction rule: activity.induct)
  case (create w corr inp)
  then show ?case by (rule api.Create_kept)
next
  case (create_batch w corr binp)
  then show ?case by (rule api.CreateBatch_kept)
next
  case (cancel w u i)
  then show ?case by (rule Cancel_running)
next
  case (schedule scfg w w')
  then show ?case by (rule scheduling.scheduler_run_P)
next
  case (process cfg pol us msg w w')
  then show ?case using delivering.process_P by blast
qed


text \<open>A notification that is created and processed in a quiet environment.\<close>

lemma lawful_quiet: "lawful quiet_env"
  by (simp add: lawful_def quiet_env_def)


end
