(* ===== verification/GoNum.thy ===== *)
theory GoNum
  imports GoStrings
begin

text \<open>
  The number and byte codecs of Go's standard library that the source calls: \<open>strconv.FormatInt\<close>,
  \<open>strconv.ParseInt\<close> (and \<open>Atoi\<close>, which is the same on a 64-bit target), \<open>strconv.ParseBool\<close>,
  fixed-width decimal fields, and \<open>base64.RawURLEncoding\<close>; with the round trips the codecs of
  the program rest on.
\<close>

section \<open>Decimal digits\<close>

definition is_digit :: "char \<Rightarrow> bool" where
  "is_digit c \<longleftrightarrow> 48 \<le> (of_char c :: nat) \<and> (of_char c :: nat) \<le> 57"

definition digit_val :: "char \<Rightarrow> nat" where
  "digit_val c = of_char c - 48"

definition digit_char :: "nat \<Rightarrow> char" where
  "digit_char n = char_of (n + 48)"

definition digits_val :: "string \<Rightarrow> nat" where
  "digits_val s = foldl (\<lambda>v c. 10 * v + digit_val c) 0 s"

lemma of_char_digit_char [simp]: "n < 10 \<Longrightarrow> (of_char (digit_char n) :: nat) = n + 48"
  by (simp add: digit_char_def of_char_of take_bit_eq_mod)

lemma digit_char_simps [simp]: "n < 10 \<Longrightarrow> is_digit (digit_char n)" "n < 10 \<Longrightarrow> digit_val (digit_char n) = n"
  by (simp_all add: is_digit_def digit_val_def)

lemma digits_val_Nil [simp]: "digits_val [] = 0"
  by (simp add: digits_val_def)

lemma digits_val_snoc [simp]: "digits_val (s @ [c]) = 10 * digits_val s + digit_val c"
  by (simp add: digits_val_def)

text \<open>Only digits are digits: what a digit is not.\<close>

lemma digit_not_sign: "is_digit c \<Longrightarrow> c \<noteq> CHR ''-'' \<and> c \<noteq> CHR ''+'' \<and> c \<noteq> CHR ''.'' \<and> c \<noteq> CHR ''|'' \<and> c \<noteq> CHR '':''"
  by (auto simp: is_digit_def)

section \<open>Integers (strconv)\<close>

fun format_nat :: "nat \<Rightarrow> string" where
  "format_nat n = (if n < 10 then [digit_char n] else format_nat (n div 10) @ [digit_char (n mod 10)])"

declare format_nat.simps [simp del]

definition FormatInt :: "int \<Rightarrow> string" where
  "FormatInt i = (if i < 0 then CHR ''-'' # format_nat (nat (- i)) else format_nat (nat i))"

definition split_sign :: "string \<Rightarrow> bool \<times> string" where
  "split_sign s =
     (case s of [] \<Rightarrow> (False, [])
      | c # cs \<Rightarrow> if c = CHR ''-'' then (True, cs) else if c = CHR ''+'' then (False, cs) else (False, s))"

definition ParseInt :: "string \<Rightarrow> int option" where
  "ParseInt s =
     (let (neg, ds) = split_sign s in
      if ds = [] \<or> \<not> list_all is_digit ds then None
      else let v = (if neg then - int (digits_val ds) else int (digits_val ds)) in
        if - (2 ^ 63) \<le> v \<and> v < 2 ^ 63 then Some v else None)"

definition Atoi :: "string \<Rightarrow> int option" where
  "Atoi = ParseInt"

definition ParseBool :: "string \<Rightarrow> bool option" where
  "ParseBool s =
     (if s \<in> set [''1'', ''t'', ''T'', ''true'', ''TRUE'', ''True''] then Some True
      else if s \<in> set [''0'', ''f'', ''F'', ''false'', ''FALSE'', ''False''] then Some False
      else None)"

lemma format_nat_digits [simp]: "list_all is_digit (format_nat n)"
  by (induction n rule: format_nat.induct) (subst format_nat.simps, simp)

lemma format_nat_nonempty [simp]: "format_nat n \<noteq> []"
  by (subst format_nat.simps) simp

lemma digits_val_format_nat [simp]: "digits_val (format_nat n) = n"
proof (induction n rule: format_nat.induct)
  case (1 n)
  show ?case
  proof (cases "n < 10")
    case True
    then show ?thesis by (subst format_nat.simps) (simp add: digits_val_def)
  next
    case False
    with 1 show ?thesis by (subst format_nat.simps) simp
  qed
qed

lemma split_sign_digits: "ds \<noteq> [] \<Longrightarrow> list_all is_digit ds \<Longrightarrow> split_sign ds = (False, ds)"
  by (auto simp: split_sign_def is_digit_def split: list.split)

lemma ParseInt_FormatInt: "- (2 ^ 63) \<le> i \<Longrightarrow> i < 2 ^ 63 \<Longrightarrow> ParseInt (FormatInt i) = Some i"
  by (simp add: ParseInt_def FormatInt_def split_sign_digits) (simp add: split_sign_def)

lemma FormatInt_chars: "c \<in> set (FormatInt i) \<Longrightarrow> c = CHR ''-'' \<or> is_digit c"
  using format_nat_digits by (auto simp: FormatInt_def list_all_iff split: if_splits)

lemma ParseInt_range: "ParseInt s = Some v \<Longrightarrow> - (2 ^ 63) \<le> v \<and> v < 2 ^ 63"
  by (auto simp: ParseInt_def Let_def split: prod.splits if_splits)

section \<open>Fixed-width fields\<close>

fun fixed_digits :: "nat \<Rightarrow> nat \<Rightarrow> string" where
  "fixed_digits 0 n = []"
| "fixed_digits (Suc k) n = fixed_digits k (n div 10) @ [digit_char (n mod 10)]"

lemma fixed_digits_simps [simp]: "length (fixed_digits k n) = k" "list_all is_digit (fixed_digits k n)"
  by (induction k arbitrary: n) simp_all

lemma digits_val_fixed: "digits_val (fixed_digits k n) = n mod 10 ^ k"
proof (induction k arbitrary: n)
  case (Suc k)
  have "10 * (n div 10 mod 10 ^ k) + n mod 10 = n mod (10 * 10 ^ k)" by (simp add: mod_mult2_eq)
  then show ?case by (simp add: Suc)
qed simp

section \<open>Base64 (base64.RawURLEncoding)\<close>

text \<open>The URL alphabet: upper case, lower case, digits, \<open>-\<close> and \<open>_\<close>.\<close>

definition b64_char :: "nat \<Rightarrow> char" where
  "b64_char n = char_of (if n < 26 then n + 65 else if n < 52 then n + 71 else if n < 62 then n - 4
     else if n = 62 then 45 else 95 :: nat)"

definition b64_val :: "char \<Rightarrow> nat option" where
  "b64_val c =
     (let k = of_char c :: nat in
      if 65 \<le> k \<and> k \<le> 90 then Some (k - 65) else if 97 \<le> k \<and> k \<le> 122 then Some (k - 71)
      else if 48 \<le> k \<and> k \<le> 57 then Some (k + 4) else if k = 45 then Some 62 else if k = 95 then Some 63
      else None)"

fun b64_pack :: "nat list \<Rightarrow> nat list" where
  "b64_pack (a # b # c # r) =
     [a div 4, a mod 4 * 16 + b div 16, b mod 16 * 4 + c div 64, c mod 64] @ b64_pack r"
| "b64_pack [a, b] = [a div 4, a mod 4 * 16 + b div 16, b mod 16 * 4]"
| "b64_pack [a] = [a div 4, a mod 4 * 16]"
| "b64_pack [] = []"

fun b64_unpack :: "nat list \<Rightarrow> nat list option" where
  "b64_unpack (w # x # y # z # r) =
     map_option ((@) [w * 4 + x div 16, x mod 16 * 16 + y div 4, y mod 4 * 64 + z]) (b64_unpack r)"
| "b64_unpack [w, x, y] = Some [w * 4 + x div 16, x mod 16 * 16 + y div 4]"
| "b64_unpack [w, x] = Some [w * 4 + x div 16]"
| "b64_unpack [w] = None"
| "b64_unpack [] = Some []"

definition b64_EncodeToString :: "string \<Rightarrow> string" where
  "b64_EncodeToString s = map b64_char (b64_pack (map of_char s))"

text \<open>The decoder skips line ends, as Go's does; any other foreign character is an error.\<close>

definition b64_DecodeString :: "string \<Rightarrow> string option" where
  "b64_DecodeString s =
     (let vs = map b64_val (filter (\<lambda>c. c \<noteq> CHR 0x0A \<and> c \<noteq> CHR 0x0D) s) in
      if None \<in> set vs then None else map_option (map char_of) (b64_unpack (map the vs)))"

lemma b64_val_char: "n < 64 \<Longrightarrow> b64_val (b64_char n) = Some n \<and> b64_char n \<notin> {CHR 0x0A, CHR 0x0D}"
proof -
  assume n: "n < 64"
  then have "(of_char (b64_char n) :: nat) = (if n < 26 then n + 65 else if n < 52 then n + 71 else if n < 62 then n - 4
     else if n = 62 then 45 else 95)" by (simp add: b64_char_def of_char_of take_bit_eq_mod)
  moreover from this have "(of_char (b64_char n) :: nat) \<noteq> 10" "(of_char (b64_char n) :: nat) \<noteq> 13" by auto
  then have "b64_char n \<notin> {CHR 0x0A, CHR 0x0D}" by auto
  ultimately show ?thesis using n by (auto simp: b64_val_def Let_def)
qed

lemma b64_pack_small: "\<forall>x\<in>set bs. x < 256 \<Longrightarrow> \<forall>x\<in>set (b64_pack bs). x < 64"
  by (induction bs rule: b64_pack.induct) (auto simp: less_mult_imp_div_less)

lemma b64_unpack_pack: "\<forall>x\<in>set bs. x < 256 \<Longrightarrow> b64_unpack (b64_pack bs) = Some bs"
proof (induction bs rule: b64_pack.induct)
  case (1 a b c r)
  have "b div 16 < 16" "c div 64 < 4" using 1(2) by (auto simp: less_mult_imp_div_less)
  then show ?case using 1 by simp
next
  case (2 a b)
  have "b div 16 < 16" using 2 by (auto simp: less_mult_imp_div_less)
  then show ?case by simp
qed simp_all

lemma b64_roundtrip: "b64_DecodeString (b64_EncodeToString s) = Some s"
proof -
  let ?p = "b64_pack (map of_char s)"
  have bytes: "\<forall>x\<in>set (map of_char s). x < (256 :: nat)" by (auto simp: nat_of_char_less_256)
  note small = b64_pack_small [OF bytes]
  have "filter (\<lambda>c. c \<noteq> CHR 0x0A \<and> c \<noteq> CHR 0x0D) (map b64_char ?p) = map b64_char ?p"
    using small b64_val_char by (auto simp: filter_id_conv)
  moreover have "map b64_val (map b64_char ?p) = map Some ?p"
    using small b64_val_char by simp
  ultimately show ?thesis
    using b64_unpack_pack [OF bytes]
    by (simp only: b64_DecodeString_def b64_EncodeToString_def Let_def) (simp add: comp_def image_iff)
qed

end
