(* ===== verification/GoTime.thy ===== *)
theory GoTime
  imports GoNum Float64 "HOL-Library.Monad_Syntax"
begin

text \<open>
  Go's \<open>time\<close> package as the source uses it: civil dates in the proleptic Gregorian calendar,
  the RFC 3339 text of an instant (\<open>Time.MarshalJSON\<close>), \<open>time.Parse\<close> with the layout
  \<open>time.RFC3339\<close>, the stricter reading of \<open>Time.UnmarshalJSON\<close>, and \<open>time.ParseDuration\<close>.
  An instant is its distance from the Unix epoch; the zone it is shown in is an offset in minutes.
\<close>

section \<open>Civil dates\<close>

definition leap_year :: "nat \<Rightarrow> bool" where
  "leap_year y \<longleftrightarrow> 4 dvd y \<and> (\<not> 100 dvd y \<or> 400 dvd y)"

text \<open>Days from 1 January of year 0 to 1 January of a year.\<close>

definition days_before_year :: "nat \<Rightarrow> nat" where
  "days_before_year y = 365 * y + (y + 3) div 4 + (y + 399) div 400 - (y + 99) div 100"

definition month_lengths :: "bool \<Rightarrow> nat list" where
  "month_lengths leap = [31, if leap then 29 else 28, 31, 30, 31, 30, 31, 31, 30, 31, 30, 31]"

definition days_in_month :: "nat \<Rightarrow> nat \<Rightarrow> nat" where
  "days_in_month y m = month_lengths (leap_year y) ! (m - 1)"

definition days_before_month :: "nat \<Rightarrow> nat \<Rightarrow> nat" where
  "days_before_month y m = sum_list (take (m - 1) (month_lengths (leap_year y)))"

definition day_number :: "nat \<Rightarrow> nat \<Rightarrow> nat \<Rightarrow> nat" where
  "day_number y m d = days_before_year y + days_before_month y m + (d - 1)"

lemma ceil_div_Suc:
  assumes "Suc m = k"
  shows "(Suc y + m) div k = (y + m) div k + (if k dvd y then 1 else 0)"
proof -
  have "Suc (y + m) mod k = y mod k" using assms by (metis add_Suc_right mod_add_self2)
  then show ?thesis using div_Suc [of "y + m" k] by (simp add: dvd_eq_mod_eq_0)
qed

lemma days_before_year_Suc: "days_before_year (Suc y) = days_before_year y + (if leap_year y then 366 else 365)"
proof -
  define a b c where "a = (y + 3) div 4" and "b = (y + 399) div 400" and "c = (y + 99) div 100"
  have "(Suc y + 3) div 4 = a + (if 4 dvd y then 1 else 0)" "(Suc y + 399) div 400 = b + (if 400 dvd y then 1 else 0)"
    "(Suc y + 99) div 100 = c + (if 100 dvd y then 1 else 0)"
    unfolding a_def b_def c_def by (rule ceil_div_Suc, simp)+
  then have "days_before_year (Suc y) = 365 * Suc y + (a + (if 4 dvd y then 1 else 0))
      + (b + (if 400 dvd y then 1 else 0)) - (c + (if 100 dvd y then 1 else 0))"
    by (simp only: days_before_year_def)
  moreover have "days_before_year y = 365 * y + a + b - c"
    by (simp only: days_before_year_def a_def b_def c_def)
  moreover have "c \<le> y"
  proof (cases y)
    case (Suc z)
    then have "c = Suc (z div 100)" by (simp add: c_def)
    then show ?thesis using Suc by simp
  qed (simp add: c_def)
  moreover have "400 dvd y \<longrightarrow> 100 dvd y" by (intro impI dvd_trans [of 100 400 y]) simp_all
  moreover have "100 dvd y \<longrightarrow> 4 dvd y" by (intro impI dvd_trans [of 4 100 y]) simp_all
  moreover have "365 * Suc y + (a + (if p then 1 else 0)) + (b + (if r then 1 else 0)) - (c + (if q then 1 else 0))
      = 365 * y + a + b - c + (if p \<and> (\<not> q \<or> r) then 366 else 365)"
    if "c \<le> y" "r \<longrightarrow> q" "q \<longrightarrow> p" for p q r
    using that by (cases p; cases q; cases r) simp_all
  ultimately show ?thesis unfolding leap_year_def by presburger
qed

lemma days_before_year_bounds: "y \<le> days_before_year y \<and> days_before_year y \<le> 366 * y"
proof (induction y)
  case 0
  show ?case by (simp add: days_before_year_def)
next
  case (Suc y)
  then show ?case unfolding days_before_year_Suc by (auto split: if_splits)
qed

function year_from :: "nat \<Rightarrow> nat \<Rightarrow> nat" where
  "year_from y n = (if days_before_year (Suc y) \<le> n then year_from (Suc y) n else y)"
  by pat_completeness auto
termination
proof (relation "measure (\<lambda>(y, n). n - y)")
  fix y n
  assume "days_before_year (Suc y) \<le> n"
  then have "Suc y \<le> n" using days_before_year_bounds [of "Suc y"] by (meson le_trans)
  then show "((Suc y, n), y, n) \<in> measure (\<lambda>(y, n). n - y)" by simp
qed simp

declare year_from.simps [simp del]

definition year_of_day :: "nat \<Rightarrow> nat" where
  "year_of_day n = year_from (n div 366) n"

text \<open>The month that holds the day with a given position in its year, and the day of that month.\<close>

fun month_from :: "nat list \<Rightarrow> nat \<Rightarrow> nat \<Rightarrow> nat \<times> nat" where
  "month_from [] m k = (m, Suc k)"
| "month_from [l] m k = (m, Suc k)"
| "month_from (l # ls) m k = (if k < l then (m, Suc k) else month_from ls (Suc m) (k - l))"

definition civil_of_day :: "nat \<Rightarrow> nat \<times> nat \<times> nat" where
  "civil_of_day n =
     (let y = year_of_day n in (y, month_from (month_lengths (leap_year y)) 1 (n - days_before_year y)))"

lemma year_from_bounds:
  "days_before_year y \<le> n \<Longrightarrow> days_before_year (year_from y n) \<le> n \<and> n < days_before_year (Suc (year_from y n))"
  by (induction y n rule: year_from.induct) (subst (1 2) year_from.simps, simp)

lemma year_of_day_bounds: "days_before_year (year_of_day n) \<le> n" "n < days_before_year (Suc (year_of_day n))"
proof -
  have "days_before_year (n div 366) \<le> n" using days_before_year_bounds [of "n div 366"] times_div_less_eq_dividend [of 366 n] by (meson le_trans)
  from year_from_bounds [OF this] show "days_before_year (year_of_day n) \<le> n" "n < days_before_year (Suc (year_of_day n))"
    by (simp_all add: year_of_day_def)
qed

lemma month_from_spec:
  assumes "month_from ls m0 k = (m, d)" "k < sum_list ls"
  shows "m0 \<le> m \<and> m < m0 + length ls \<and> 1 \<le> d \<and> d \<le> ls ! (m - m0) \<and> sum_list (take (m - m0) ls) + (d - 1) = k"
  using assms
proof (induction ls m0 k arbitrary: m d rule: month_from.induct)
  case (3 l l' ls m0 k)
  show ?case
  proof (cases "k < l")
    case True
    then show ?thesis using 3 by auto
  next
    case False
    with 3 have "month_from (l' # ls) (Suc m0) (k - l) = (m, d)" "k - l < sum_list (l' # ls)" by auto
    from 3(1) [OF False this] have ih: "Suc m0 \<le> m" "m < Suc m0 + length (l' # ls)" "1 \<le> d"
      "d \<le> (l' # ls) ! (m - Suc m0)" "sum_list (take (m - Suc m0) (l' # ls)) + (d - 1) = k - l" by auto
    then have "m - m0 = Suc (m - Suc m0)" by simp
    with ih False show ?thesis by simp
  qed
qed auto

lemma sum_month_lengths: "sum_list (month_lengths b) = (if b then 366 else 365)"
  by (simp add: month_lengths_def)

text \<open>Every day has a date, and the date has that day number.\<close>

lemma civil_of_day_spec:
  assumes "civil_of_day n = (y, m, d)"
  shows "1 \<le> m \<and> m \<le> 12 \<and> 1 \<le> d \<and> d \<le> days_in_month y m \<and> day_number y m d = n"
proof -
  have y: "y = year_of_day n" using assms by (simp add: civil_of_day_def Let_def)
  let ?ls = "month_lengths (leap_year y)" and ?k = "n - days_before_year y"
  have mf: "month_from ?ls 1 ?k = (m, d)" using assms by (simp add: civil_of_day_def y Let_def)
  have le: "days_before_year y \<le> n" and "n < days_before_year (Suc y)" using year_of_day_bounds [of n] by (simp_all add: y)
  then have "?k < sum_list ?ls" by (auto simp: days_before_year_Suc sum_month_lengths split: if_splits)
  from month_from_spec [OF mf this] le show ?thesis
    by (auto simp: month_lengths_def days_in_month_def day_number_def days_before_month_def)
qed

section \<open>The text of an instant (RFC 3339 with nanoseconds)\<close>

definition epoch_day :: int where
  "epoch_day = 719528"

definition nanos_per_day :: int where
  "nanos_per_day = 86400 * 1000000000"

text \<open>The fraction of a second, without trailing zeros; nothing when it is zero.\<close>

definition format_fraction :: "nat \<Rightarrow> string" where
  "format_fraction ns =
     (if ns = 0 then [] else CHR ''.'' # rev (dropWhile (\<lambda>c. c = CHR ''0'') (rev (fixed_digits 9 ns))))"

definition format_zone :: "int \<Rightarrow> string" where
  "format_zone off =
     (if off = 0 then ''Z''
      else (if off < 0 then CHR ''-'' else CHR ''+'') # fixed_digits 2 (nat \<bar>off\<bar> div 60) @ CHR '':'' # fixed_digits 2 (nat \<bar>off\<bar> mod 60))"

text \<open>
  \<open>Time.MarshalJSON\<close>, without the quotes: an error for a year outside 0 to 9999 and for a zone of
  24 hours or more.
\<close>

definition MarshalTime :: "int \<Rightarrow> gotime \<Rightarrow> string option" where
  "MarshalTime off t =
     (let local = t + off * (60 * 1000000000);
          day = local div nanos_per_day + epoch_day;
          tod = local mod nanos_per_day;
          (y, m, d) = civil_of_day (nat day);
          sec = tod div 1000000000
      in if day < 0 \<or> y > 9999 \<or> \<bar>off\<bar> \<ge> 24 * 60 then None
         else Some (fixed_digits 4 y @ CHR ''-'' # fixed_digits 2 m @ CHR ''-'' # fixed_digits 2 d @ CHR ''T''
           # fixed_digits 2 (nat (sec div 3600)) @ CHR '':'' # fixed_digits 2 (nat (sec div 60 mod 60)) @ CHR '':''
           # fixed_digits 2 (nat (sec mod 60)) @ format_fraction (nat (tod mod 1000000000)) @ format_zone off))"

section \<open>Reading an instant (time.Parse, Time.UnmarshalJSON)\<close>

definition num_field :: "nat \<Rightarrow> string \<Rightarrow> (nat \<times> string) option" where
  "num_field k s =
     (if length (take k s) = k \<and> list_all is_digit (take k s) then Some (digits_val (take k s), drop k s) else None)"

definition expect :: "char \<Rightarrow> string \<Rightarrow> string option" where
  "expect c s = (case s of [] \<Rightarrow> None | x # xs \<Rightarrow> if x = c then Some xs else None)"

definition ensure :: "bool \<Rightarrow> unit option" where
  "ensure b = (if b then Some () else None)"

text \<open>
  \<open>time.Parse\<close> also accepts a single digit for the hour, a comma before the fraction, and zones of
  exactly 24 hours or 60 minutes; \<open>strict\<close> is the reading of \<open>UnmarshalJSON\<close>, which does not.
\<close>

definition hour_field :: "bool \<Rightarrow> string \<Rightarrow> (nat \<times> string) option" where
  "hour_field strict s =
     (case num_field 2 s of Some r \<Rightarrow> Some r | None \<Rightarrow> if strict then None else num_field 1 s)"

definition fraction_field :: "bool \<Rightarrow> string \<Rightarrow> nat \<times> string" where
  "fraction_field strict s =
     (case s of
        c # cs \<Rightarrow>
          (let ds = takeWhile is_digit cs; used = take 9 ds in
           if (c = CHR ''.'' \<or> (\<not> strict \<and> c = CHR '','')) \<and> ds \<noteq> []
           then (digits_val used * 10 ^ (9 - length used), dropWhile is_digit cs)
           else (0, s))
      | [] \<Rightarrow> (0, s))"

definition zone_field :: "bool \<Rightarrow> string \<Rightarrow> (int \<times> string) option" where
  "zone_field strict s =
     (case s of [] \<Rightarrow> None
      | c # cs \<Rightarrow>
          if c = CHR ''Z'' then Some (0, cs)
          else do {
            _ \<leftarrow> ensure (c = CHR ''+'' \<or> c = CHR ''-'');
            (h, s1) \<leftarrow> num_field 2 cs;
            s2 \<leftarrow> expect CHR '':'' s1;
            (m, s3) \<leftarrow> num_field 2 s2;
            _ \<leftarrow> ensure (if strict then h < 24 \<and> m < 60 else h \<le> 24 \<and> m \<le> 60);
            Some ((if c = CHR ''-'' then -1 else 1) * int (h * 60 + m), s3)
          })"

definition time_of_fields :: "nat \<Rightarrow> nat \<Rightarrow> nat \<Rightarrow> nat \<Rightarrow> nat \<Rightarrow> nat \<Rightarrow> nat \<Rightarrow> int \<Rightarrow> gotime" where
  "time_of_fields y mo d h mi sec ns off =
     (int (day_number y mo d) - epoch_day) * nanos_per_day
       + int (h * 3600 + mi * 60 + sec) * 1000000000 + int ns - off * (60 * 1000000000)"

definition parse_rfc3339 :: "bool \<Rightarrow> string \<Rightarrow> gotime option" where
  "parse_rfc3339 strict s = do {
     (y, s) \<leftarrow> num_field 4 s;
     s \<leftarrow> expect CHR ''-'' s;
     (mo, s) \<leftarrow> num_field 2 s;
     s \<leftarrow> expect CHR ''-'' s;
     (d, s) \<leftarrow> num_field 2 s;
     s \<leftarrow> expect CHR ''T'' s;
     (h, s) \<leftarrow> hour_field strict s;
     s \<leftarrow> expect CHR '':'' s;
     (mi, s) \<leftarrow> num_field 2 s;
     s \<leftarrow> expect CHR '':'' s;
     (sec, s) \<leftarrow> num_field 2 s;
     (let (ns, s) = fraction_field strict s in do {
       (off, s) \<leftarrow> zone_field strict s;
       _ \<leftarrow> ensure (s = [] \<and> 1 \<le> mo \<and> mo \<le> 12 \<and> 1 \<le> d \<and> d \<le> days_in_month y mo \<and> h < 24 \<and> mi < 60 \<and> sec < 60);
       Some (time_of_fields y mo d h mi sec ns off)
     })
   }"

definition ParseRFC3339 :: "string \<Rightarrow> gotime option" where
  "ParseRFC3339 = parse_rfc3339 False"

definition UnmarshalTime :: "string \<Rightarrow> gotime option" where
  "UnmarshalTime = parse_rfc3339 True"


section \<open>An instant survives its text\<close>

lemma num_field_fixed [simp]: "n < 10 ^ k \<Longrightarrow> num_field k (fixed_digits k n @ r) = Some (n, r)"
  by (simp add: num_field_def digits_val_fixed)

lemma expect_same [simp]: "expect c (c # r) = Some r"
  by (simp add: expect_def)

lemma hour_field_fixed [simp]: "n < 100 \<Longrightarrow> hour_field b (fixed_digits 2 n @ r) = Some (n, r)"
  by (simp add: hour_field_def)

lemma ensure_True [simp]: "ensure True = Some ()"
  by (simp add: ensure_def)

lemma digits_val_zeros: "digits_val (ds @ replicate k CHR ''0'') = digits_val ds * 10 ^ k"
proof (induction k)
  case (Suc k)
  have "ds @ replicate (Suc k) CHR ''0'' = (ds @ replicate k CHR ''0'') @ [CHR ''0'']"
    by (simp add: replicate_append_same)
  then show ?case using Suc by (simp del: append_assoc replicate.simps add: digit_val_def)
qed simp

lemma strip_zeros:
  defines "strip0 \<equiv> \<lambda>s. rev (dropWhile (\<lambda>c. c = CHR ''0'') (rev s))"
  shows "s = strip0 s @ replicate (length s - length (strip0 s)) CHR ''0''"
proof -
  let ?t = "takeWhile (\<lambda>c. c = CHR ''0'') (rev s)"
  have "rev s = ?t @ dropWhile (\<lambda>c. c = CHR ''0'') (rev s)" by simp
  then have s: "s = strip0 s @ rev ?t" unfolding strip0_def by (metis rev_append rev_rev_ident)
  have "\<forall>c\<in>set ?t. c = CHR ''0''" by (auto dest: set_takeWhileD)
  then have "rev ?t = replicate (length ?t) CHR ''0''" using replicate_length_same [of "rev ?t"] by simp
  moreover have "length s = length (strip0 s) + length ?t" using arg_cong [OF s, of length] by simp
  ultimately show ?thesis using s by simp
qed

lemma fraction_field_format:
  assumes "ns < 10 ^ 9" "r = [] \<or> \<not> is_digit (hd r) \<and> hd r \<noteq> CHR ''.'' \<and> hd r \<noteq> CHR '',''"
  shows "fraction_field b (format_fraction ns @ r) = (ns, r)"
proof (cases "ns = 0")
  case True
  then show ?thesis using assms(2) by (cases r) (auto simp: fraction_field_def format_fraction_def)
next
  case False
  define ds where "ds = rev (dropWhile (\<lambda>c. c = CHR ''0'') (rev (fixed_digits 9 ns)))"
  have split: "fixed_digits 9 ns = ds @ replicate (9 - length ds) CHR ''0''"
    using strip_zeros [of "fixed_digits 9 ns"] by (simp add: ds_def)
  have val: "digits_val ds * 10 ^ (9 - length ds) = ns"
    using digits_val_zeros [of ds "9 - length ds"] digits_val_fixed [of 9 ns] assms(1) by (simp flip: split)
  have dig: "list_all is_digit ds" using fixed_digits_simps(2) [of 9 ns] unfolding split by simp
  have len: "length ds \<le> 9" using arg_cong [OF split, of length] by simp
  have ne: "ds \<noteq> []" using val False by auto
  have "takeWhile is_digit (ds @ r) = ds" "dropWhile is_digit (ds @ r) = r"
    using dig assms(2) by (auto simp: takeWhile_append2 dropWhile_append2 list_all_iff takeWhile_eq_Nil_iff dropWhile_eq_self_iff)
  then show ?thesis
    using False val len ne by (simp add: fraction_field_def format_fraction_def ds_def [symmetric])
qed

lemma zone_field_format:
  assumes "\<bar>off\<bar> < 24 * 60"
  shows "zone_field b (format_zone off) = Some (off, [])"
proof (cases "off = 0")
  case True
  then show ?thesis by (simp add: zone_field_def format_zone_def)
next
  case False
  let ?h = "nat \<bar>off\<bar> div 60" and ?m = "nat \<bar>off\<bar> mod 60"
  have small: "?h < 24" "?m < 60" using assms by (simp_all add: less_mult_imp_div_less)
  then have h: "?h < 10 ^ 2" and m: "?m < 10 ^ 2" by simp_all
  have tail: "num_field 2 (fixed_digits 2 ?h @ CHR '':'' # fixed_digits 2 ?m) = Some (?h, CHR '':'' # fixed_digits 2 ?m)"
    "num_field 2 (fixed_digits 2 ?m) = Some (?m, [])"
    using num_field_fixed [OF h] num_field_fixed [OF m, of "[]"] by simp_all
  have val: "int (?h * 60 + ?m) = \<bar>off\<bar>" by (simp add: div_mult_mod_eq)
  show ?thesis
    using False small tail val
    by (simp add: zone_field_def format_zone_def ensure_def del: of_nat_add of_nat_mult)
qed

lemma format_zone_hd: "format_zone off \<noteq> []" "\<not> is_digit (hd (format_zone off))"
  "hd (format_zone off) \<noteq> CHR ''.''" "hd (format_zone off) \<noteq> CHR '',''"
  by (auto simp: format_zone_def is_digit_def)

lemma int_div_less:
  fixes x a b :: int
  assumes "x < a * b" "0 < b"
  shows "x div b < a"
proof (rule ccontr)
  assume "\<not> x div b < a"
  then have "a * b \<le> x div b * b" using assms(2) by (intro mult_right_mono) auto
  moreover have "x div b * b \<le> x" using div_mult_mod_eq [of x b] pos_mod_sign [OF assms(2), of x] by linarith
  ultimately show False using assms(1) by linarith
qed

text \<open>Putting the fields of an instant together again gives the instant.\<close>

lemma time_of_fields_split:
  fixes t off :: int
  defines "tod \<equiv> (t + off * (60 * 1000000000)) mod nanos_per_day"
  defines "sec \<equiv> tod div 1000000000"
  assumes "int (day_number y m d) = (t + off * (60 * 1000000000)) div nanos_per_day + epoch_day"
  shows "time_of_fields y m d (nat (sec div 3600)) (nat (sec div 60 mod 60)) (nat (sec mod 60)) (nat (tod mod 1000000000)) off = t"
    and "sec div 3600 < 24" and "0 \<le> sec"
proof -
  let ?l = "t + off * (60 * 1000000000)"
  have tod: "0 \<le> tod" "tod < 86400 * 1000000000" by (simp_all add: tod_def nanos_per_day_def)
  then show sec: "0 \<le> sec" by (simp add: sec_def pos_imp_zdiv_nonneg_iff)
  have "sec < 24 * 3600" using int_div_less [OF tod(2)] by (simp add: sec_def)
  then show "sec div 3600 < 24" by (rule int_div_less) simp
  have "sec div 3600 * 3600 + sec div 60 mod 60 * 60 + sec mod 60 = sec"
  proof -
    have "sec div 3600 = sec div 60 div 60" by (simp add: zdiv_zmult2_eq [symmetric])
    moreover have "sec div 60 div 60 * 60 + sec div 60 mod 60 = sec div 60" "sec div 60 * 60 + sec mod 60 = sec"
      by (rule div_mult_mod_eq)+
    ultimately show ?thesis by (simp only:)
  qed
  then have hms: "int (nat (sec div 3600) * 3600 + nat (sec div 60 mod 60) * 60 + nat (sec mod 60)) = sec"
    using sec by (simp add: pos_imp_zdiv_nonneg_iff)
  have "sec * 1000000000 + tod mod 1000000000 = tod" unfolding sec_def by (rule div_mult_mod_eq)
  moreover have "?l div nanos_per_day * nanos_per_day + tod = ?l" unfolding tod_def by (rule div_mult_mod_eq)
  ultimately show "time_of_fields y m d (nat (sec div 3600)) (nat (sec div 60 mod 60)) (nat (sec mod 60)) (nat (tod mod 1000000000)) off = t"
    unfolding time_of_fields_def hms assms(3) by simp
qed

lemma time_roundtrip:
  assumes "MarshalTime off t = Some s"
  shows "UnmarshalTime s = Some t"
proof -
  let ?l = "t + off * (60 * 1000000000)"
  define day where "day = ?l div nanos_per_day + epoch_day"
  define tod where "tod = ?l mod nanos_per_day"
  define sec where "sec = tod div 1000000000"
  obtain y m d where ymd: "civil_of_day (nat day) = (y, m, d)" by (metis prod_cases3)
  have ok: "0 \<le> day" "y \<le> 9999" "\<bar>off\<bar> < 24 * 60"
    and s: "s = fixed_digits 4 y @ CHR ''-'' # fixed_digits 2 m @ CHR ''-'' # fixed_digits 2 d @ CHR ''T''
           # fixed_digits 2 (nat (sec div 3600)) @ CHR '':'' # fixed_digits 2 (nat (sec div 60 mod 60)) @ CHR '':''
           # fixed_digits 2 (nat (sec mod 60)) @ format_fraction (nat (tod mod 1000000000)) @ format_zone off"
    using assms ymd by (auto simp: MarshalTime_def Let_def day_def tod_def sec_def split: if_splits)
  note c = civil_of_day_spec [OF ymd]
  have dn: "int (day_number y m d) = ?l div nanos_per_day + epoch_day" using c ok(1) by (simp add: day_def)
  note parts = time_of_fields_split [OF dn, folded tod_def, folded sec_def]
  have d31: "d \<le> 31" using c
    by (auto simp: days_in_month_def month_lengths_def nth_Cons' split: if_splits)
  have md: "1 \<le> m" "m \<le> 12" "1 \<le> d" "d \<le> days_in_month y m" using c by blast+
  have small: "y < 10 ^ 4" "m < 10 ^ 2" "d < 10 ^ 2" using ok(2) md(2) d31 by simp_all
  have clock: "nat (sec div 3600) < 24" using parts(2) by simp
  have clock': "nat (sec div 60 mod 60) < 60" "nat (sec mod 60) < 60" by (simp_all only: nat_less_iff pos_mod_sign pos_mod_bound)
  have ns: "nat (tod mod 1000000000) < 10 ^ 9" by (simp only: nat_less_iff pos_mod_sign pos_mod_bound) simp
  have small2: "nat (sec div 3600) < 100" "nat (sec div 60 mod 60) < 10 ^ 2" "nat (sec mod 60) < 10 ^ 2"
    by (rule less_trans [OF clock] less_trans [OF clock'(1)] less_trans [OF clock'(2)], simp)+
  have fr: "fraction_field True (format_fraction (nat (tod mod 1000000000)) @ format_zone off)
      = (nat (tod mod 1000000000), format_zone off)"
    using fraction_field_format [OF ns] format_zone_hd by blast
  note steps = num_field_fixed [OF small(1)] num_field_fixed [OF small(2)] num_field_fixed [OF small(3)]
    hour_field_fixed [OF small2(1)] num_field_fixed [OF small2(2)] num_field_fixed [OF small2(3)]
    fr zone_field_format [OF ok(3), of True]
  show ?thesis
    unfolding UnmarshalTime_def parse_rfc3339_def s
    by (simp only: steps expect_same bind.simps prod.case Let_def parts(1) md clock clock' ensure_True simp_thms)
qed


section \<open>Durations (time.ParseDuration)\<close>

text \<open>The unit names, with both spellings of the micro sign in UTF-8.\<close>

definition duration_unit :: "string \<Rightarrow> int option" where
  "duration_unit u = map_of
     [(''ns'', 1), (''us'', 1000), ([CHR 0xC2, CHR 0xB5] @ ''s'', 1000), ([CHR 0xCE, CHR 0xBC] @ ''s'', 1000),
      (''ms'', 1000000), (''s'', 1000000000), (''m'', 60 * 1000000000), (''h'', 3600 * 1000000000)] u"

text \<open>The digits in front, as a \<open>uint64\<close> of at most \<open>2 ^ 63\<close>; \<open>None\<close> is its overflow.\<close>

fun leading_int :: "int \<Rightarrow> string \<Rightarrow> (int \<times> string) option" where
  "leading_int x [] = Some (x, [])"
| "leading_int x (c # cs) =
     (if \<not> is_digit c then Some (x, c # cs)
      else if x > 2 ^ 63 div 10 then None
      else let x' = x * 10 + int (digit_val c) in
        if x' > 2 ^ 63 then None else leading_int x' cs)"

text \<open>The digits of a fraction: those beyond the range are read and dropped.\<close>

fun leading_fraction :: "int \<Rightarrow> int \<Rightarrow> bool \<Rightarrow> string \<Rightarrow> int \<times> int \<times> string" where
  "leading_fraction x scale overflow [] = (x, scale, [])"
| "leading_fraction x scale overflow (c # cs) =
     (if \<not> is_digit c then (x, scale, c # cs)
      else if overflow \<or> x > (2 ^ 63 - 1) div 10 then leading_fraction x scale True cs
      else let y = x * 10 + int (digit_val c) in
        if y > 2 ^ 63 then leading_fraction x scale True cs else leading_fraction y (scale * 10) False cs)"

text \<open>One number with its unit: its nanoseconds and the rest of the text.\<close>

definition duration_part :: "string \<Rightarrow> (int \<times> string) option" where
  "duration_part s =
     (case s of [] \<Rightarrow> None | c # cs \<Rightarrow>
      if c \<noteq> CHR ''.'' \<and> \<not> is_digit c then None
      else case leading_int 0 s of None \<Rightarrow> None | Some (v, s1) \<Rightarrow>
        let (f, scale, s2) = (case s1 of [] \<Rightarrow> (0, 1, s1)
              | p # t \<Rightarrow> if p = CHR ''.'' then leading_fraction 0 1 False t else (0, 1, s1));
            pre = length s1 \<noteq> length s;
            post = (s1 \<noteq> [] \<and> hd s1 = CHR ''.'' \<and> length s2 \<noteq> length (tl s1));
            u = takeWhile (\<lambda>c. c \<noteq> CHR ''.'' \<and> \<not> is_digit c) s2;
            s3 = dropWhile (\<lambda>c. c \<noteq> CHR ''.'' \<and> \<not> is_digit c) s2
        in if \<not> pre \<and> \<not> post then None
           else if u = [] then None
           else case duration_unit u of None \<Rightarrow> None | Some unit \<Rightarrow>
             if v > 2 ^ 63 div unit then None
             else let n = v * unit + (if f > 0 then \<lfloor>f64 (f64 (of_int f) * f64 (of_int unit / of_int scale))\<rfloor> else 0)
               in if f > 0 \<and> n > 2 ^ 63 then None else Some (n, s3))"

lemma leading_int_length: "leading_int x s = Some (v, s1) \<Longrightarrow> length s1 \<le> length s"
  by (induction x s arbitrary: v s1 rule: leading_int.induct) (auto simp: Let_def le_SucI split: if_splits)

lemma leading_fraction_length: "leading_fraction x sc b s = (f, sc', s2) \<Longrightarrow> length s2 \<le> length s"
  by (induction x sc b s arbitrary: f sc' s2 rule: leading_fraction.induct) (auto simp: Let_def le_SucI split: if_splits)

lemma dropWhile_shorter: "takeWhile p s \<noteq> [] \<Longrightarrow> length (dropWhile p s) < length s"
  by (cases s) (auto simp: length_dropWhile_le less_Suc_eq_le split: if_splits)

lemma duration_part_shorter:
  assumes "duration_part s = Some (n, s3)"
  shows "length s3 < length s"
proof -
  obtain v s1 where s1: "leading_int 0 s = Some (v, s1)"
    using assms by (auto simp: duration_part_def Let_def split: list.splits if_splits option.splits)
  let ?fr = "case s1 of [] \<Rightarrow> (0, 1, s1) | p # t \<Rightarrow> if p = CHR ''.'' then leading_fraction 0 1 False t else (0, 1, s1)"
  obtain f sc s2 where fr: "?fr = (f, sc, s2)" by (metis prod_cases3)
  have "length s2 \<le> length s1"
    using fr by (auto dest: leading_fraction_length split: list.splits if_splits)
  moreover have "length s1 \<le> length s" using s1 by (rule leading_int_length)
  moreover have "length s3 < length s2"
    using assms s1 fr dropWhile_shorter [of "\<lambda>c. c \<noteq> CHR ''.'' \<and> \<not> is_digit c" s2]
    by (auto simp: duration_part_def Let_def split: list.splits if_splits option.splits prod.splits)
  ultimately show ?thesis by linarith
qed

function duration_loop :: "int \<Rightarrow> string \<Rightarrow> int option" where
  "duration_loop d s =
     (if s = [] then Some d
      else case duration_part s of None \<Rightarrow> None | Some (n, rest) \<Rightarrow>
        let d' = (d + n) mod 2 ^ 64 in if d' > 2 ^ 63 then None else duration_loop d' rest)"
  by pat_completeness auto
termination
  by (relation "measure (length \<circ> snd)") (auto dest: duration_part_shorter)

declare duration_loop.simps [simp del]

definition ParseDuration :: "string \<Rightarrow> duration option" where
  "ParseDuration orig =
     (let (neg, s) = split_sign orig in
      if s = ''0'' then Some 0
      else if s = [] then None
      else case duration_loop 0 s of None \<Rightarrow> None | Some d \<Rightarrow>
        if neg then Some (- d) else if d > 2 ^ 63 - 1 then None else Some d)"


end
