(* ===== verification/Json.thy ===== *)
theory Json
  imports GoNum "HOL-Library.Monad_Syntax"
begin

text \<open>
  The package \<open>encoding/json\<close> as the source uses it.  A document is scanned into a tree whose
  strings and numbers keep the text between their delimiters, as the decoder's literals do; a string
  is unquoted when it reaches a Go value.  \<open>render\<close> is the compact text that \<open>json.Marshal\<close>
  writes for a tree, \<open>quote_body\<close> the escaping of a Go string.  The nesting limit of the scanner
  is the depth argument of \<open>parse_value\<close>; the counter of \<open>parse_list\<close> bounds the number of
  elements by the length of the text, and every element takes at least one character of it.
\<close>

section \<open>UTF-8\<close>

definition byte_in :: "nat \<Rightarrow> nat \<Rightarrow> char \<Rightarrow> bool" where
  "byte_in lo hi c \<longleftrightarrow> lo \<le> of_char c \<and> of_char c \<le> hi"

text \<open>The byte sequences that encode one rune.\<close>

fun rune_ok :: "string \<Rightarrow> bool" where
  "rune_ok [a] = byte_in 0 0x7F a"
| "rune_ok [a, b] = (byte_in 0xC2 0xDF a \<and> byte_in 0x80 0xBF b)"
| "rune_ok [a, b, c] =
     (byte_in 0xE0 0xEF a \<and> byte_in (if of_char a = (0xE0 :: nat) then 0xA0 else 0x80) (if of_char a = (0xED :: nat) then 0x9F else 0xBF) b
      \<and> byte_in 0x80 0xBF c)"
| "rune_ok [a, b, c, d] =
     (byte_in 0xF0 0xF4 a \<and> byte_in (if of_char a = (0xF0 :: nat) then 0x90 else 0x80) (if of_char a = (0xF4 :: nat) then 0x8F else 0xBF) b
      \<and> byte_in 0x80 0xBF c \<and> byte_in 0x80 0xBF d)"
| "rune_ok s = False"

text \<open>The length of the well-formed rune a string starts with; 0 when there is none.\<close>

definition rune_len :: "string \<Rightarrow> nat" where
  "rune_len s =
     (if rune_ok (take 1 s) then 1 else if rune_ok (take 2 s) then 2 else if rune_ok (take 3 s) then 3
      else if rune_ok (take 4 s) then 4 else 0)"

lemma rune_ok_unique:
  assumes "rune_ok s" "rune_ok t" "hd s = hd t"
  shows "length s = length t"
  using assms by (elim rune_ok.elims) (auto simp: byte_in_def)

lemma rune_ok_nonempty: "rune_ok s \<Longrightarrow> s \<noteq> []"
  by auto

lemma rune_len_pos:
  assumes "0 < rune_len s"
  shows "rune_ok (take (rune_len s) s)"
  using assms by (auto simp: rune_len_def split: if_splits)

lemma rune_len_eq:
  assumes "rune_ok r"
  shows "rune_len (r @ t) = length r"
proof -
  have ne: "r \<noteq> []" using assms by (rule rune_ok_nonempty)
  have other: "length (take k (r @ t)) = length r" if "rune_ok (take k (r @ t))" for k
  proof (rule rune_ok_unique [OF that assms])
    have "take k (r @ t) \<noteq> []" using that by (rule rune_ok_nonempty)
    then show "hd (take k (r @ t)) = hd r" using ne by (cases k; cases r) auto
  qed
  have "length r \<in> {1, 2, 3, 4}" using assms by (elim rune_ok.elims) auto
  moreover have "rune_ok (take (length r) (r @ t))" using assms by simp
  moreover have "k = length r" if "rune_ok (take k (r @ t))" "k \<le> length r" for k
    using other [OF that(1)] that(2) by simp
  ultimately show ?thesis unfolding rune_len_def by (fastforce split: if_splits)
qed

lemma rune_len_le: "rune_len s \<le> length s"
proof (cases "0 < rune_len s")
  case True
  have "rune_len (take (rune_len s) s @ drop (rune_len s) s) = length (take (rune_len s) s)"
    by (rule rune_len_eq [OF rune_len_pos [OF True]])
  then show ?thesis by simp
qed simp

lemma rune_len_take: "0 < rune_len s \<Longrightarrow> rune_len (take (rune_len s) s @ t) = rune_len s"
  using rune_len_eq [OF rune_len_pos] rune_len_le [of s] by simp

lemma rune_len_ascii [simp]: "(of_char c :: nat) < 0x80 \<Longrightarrow> rune_len (c # s) = 1"
  by (simp add: rune_len_def byte_in_def)

fun utf8_valid :: "string \<Rightarrow> bool" where
  "utf8_valid [] = True"
| "utf8_valid (c # cs) = (0 < rune_len (c # cs) \<and> utf8_valid (drop (rune_len (c # cs) - 1) cs))"

text \<open>The encoding of a code point (\<open>utf8.EncodeRune\<close>).\<close>

definition encode_rune :: "nat \<Rightarrow> string" where
  "encode_rune n = map char_of
     (if n < 0x80 then [n]
      else if n < 0x800 then [0xC0 + n div 64, 0x80 + n mod 64]
      else if n < 0x10000 then [0xE0 + n div 4096, 0x80 + n div 64 mod 64, 0x80 + n mod 64]
      else [0xF0 + n div 262144, 0x80 + n div 4096 mod 64, 0x80 + n div 64 mod 64, 0x80 + n mod 64] :: nat list)"

definition replacement :: string where
  "replacement = encode_rune 0xFFFD"

section \<open>Strings\<close>

definition hex_char :: "nat \<Rightarrow> char" where
  "hex_char n = char_of (if n < 10 then n + 48 else n + 87 :: nat)"

definition hex_val :: "char \<Rightarrow> nat option" where
  "hex_val c =
     (let k = of_char c :: nat in
      if 48 \<le> k \<and> k \<le> 57 then Some (k - 48) else if 97 \<le> k \<and> k \<le> 102 then Some (k - 87)
      else if 65 \<le> k \<and> k \<le> 70 then Some (k - 55) else None)"

text \<open>The four hexadecimal digits of a \<open>\u\<close> escape and the text after them.\<close>

definition hex4 :: "string \<Rightarrow> (nat \<times> string) option" where
  "hex4 s =
     (let ds = map hex_val (take 4 s) in
      if length ds = 4 \<and> None \<notin> set ds then Some (foldl (\<lambda>v d. 16 * v + the d) 0 ds, drop 4 s) else None)"

abbreviation backslash :: char where "backslash \<equiv> CHR 0x5C"
abbreviation dquote :: char where "dquote \<equiv> CHR 0x22"

definition unicode_escape :: "nat \<Rightarrow> string" where
  "unicode_escape n = [backslash, CHR ''u'', hex_char (n div 4096 mod 16), hex_char (n div 256 mod 16),
     hex_char (n div 16 mod 16), hex_char (n mod 16)]"

definition escape_ascii :: "char \<Rightarrow> string" where
  "escape_ascii c =
     (if c = dquote \<or> c = backslash then [backslash, c]
      else if c = CHR 0x08 then [backslash, CHR ''b''] else if c = CHR 0x0C then [backslash, CHR ''f'']
      else if c = CHR 0x0A then [backslash, CHR ''n''] else if c = CHR 0x0D then [backslash, CHR ''r'']
      else if c = CHR 0x09 then [backslash, CHR ''t'']
      else if (of_char c :: nat) < 0x20 \<or> c \<in> {CHR ''<'', CHR ''>'', CHR ''&''} then unicode_escape (of_char c)
      else [c])"

fun quote_body :: "string \<Rightarrow> string" where
  "quote_body [] = []"
| "quote_body (c # cs) =
     (if (of_char c :: nat) < 0x80 then escape_ascii c @ quote_body cs
      else let n = rune_len (c # cs) in
        if n = 0 then unicode_escape 0xFFFD @ quote_body cs
        else (if take n (c # cs) = encode_rune 0x2028 then unicode_escape 0x2028
              else if take n (c # cs) = encode_rune 0x2029 then unicode_escape 0x2029
              else take n (c # cs)) @ quote_body (drop (n - 1) cs))"

text \<open>What follows a backslash, other than \<open>u\<close>.\<close>

definition unescape :: "char \<Rightarrow> char option" where
  "unescape e = map_of [(dquote, dquote), (backslash, backslash), (CHR ''/'', CHR ''/''), (CHR 0x27, CHR 0x27),
     (CHR ''b'', CHR 0x08), (CHR ''f'', CHR 0x0C), (CHR ''n'', CHR 0x0A), (CHR ''r'', CHR 0x0D), (CHR ''t'', CHR 0x09)] e"

definition high_surrogate :: "nat \<Rightarrow> bool" where
  "high_surrogate n \<longleftrightarrow> 0xD800 \<le> n \<and> n < 0xDC00"

definition low_surrogate :: "nat \<Rightarrow> bool" where
  "low_surrogate n \<longleftrightarrow> 0xDC00 \<le> n \<and> n < 0xE000"

text \<open>The code points of a \<open>\u\<close> escape, joining a surrogate pair, and the text after it.\<close>

definition unicode_unescape :: "string \<Rightarrow> (string \<times> string) option" where
  "unicode_unescape r =
     (case hex4 r of None \<Rightarrow> None
      | Some (n, r1) \<Rightarrow>
          if high_surrogate n \<or> low_surrogate n
          then (if take 2 r1 = [backslash, CHR ''u'']
                then (case hex4 (drop 2 r1) of
                        Some (n1, r2) \<Rightarrow>
                          if high_surrogate n \<and> low_surrogate n1
                          then Some (encode_rune ((n - 0xD800) * 1024 + (n1 - 0xDC00) + 0x10000), r2)
                          else Some (replacement, r1)
                      | None \<Rightarrow> Some (replacement, r1))
                else Some (replacement, r1))
          else Some (encode_rune n, r1))"

lemma hex4_length: "hex4 s = Some (n, r) \<Longrightarrow> length r < length s"
  by (auto simp: hex4_def Let_def split: if_splits)

lemma unicode_unescape_length: "unicode_unescape s = Some (u, r) \<Longrightarrow> length r < length s"
  by (auto simp: unicode_unescape_def dest!: hex4_length split: option.splits if_splits prod.splits)

function unquote_body :: "string \<Rightarrow> string option" where
  "unquote_body [] = Some []"
| "unquote_body (c # cs) =
     (if c = backslash
      then (case cs of [] \<Rightarrow> None
            | e # r \<Rightarrow>
                if e = CHR ''u''
                then (case unicode_unescape r of None \<Rightarrow> None | Some (u, r1) \<Rightarrow> map_option ((@) u) (unquote_body r1))
                else (case unescape e of None \<Rightarrow> None | Some x \<Rightarrow> map_option ((#) x) (unquote_body r)))
      else if c = dquote \<or> (of_char c :: nat) < 0x20 then None
      else let n = rune_len (c # cs) in
        if n = 0 then map_option ((@) replacement) (unquote_body cs)
        else map_option ((@) (take n (c # cs))) (unquote_body (drop (n - 1) cs)))"
  by pat_completeness auto
termination
  by (relation "measure length") (auto dest: unicode_unescape_length)

declare unquote_body.simps(2) [simp del]

subsection \<open>Unquoting a quoted string\<close>

lemma hex_val_char [simp]: "n < 16 \<Longrightarrow> hex_val (hex_char n) = Some n"
  by (auto simp: hex_val_def hex_char_def of_char_of take_bit_eq_mod)

lemma hex4_escape: "n < 0x10000 \<Longrightarrow> hex4 (drop 2 (unicode_escape n) @ r) = Some (n, r)"
proof -
  assume "n < 0x10000"
  then have "n div 4096 < 16" by (simp add: less_mult_imp_div_less)
  then have "16 * (16 * (16 * (n div 4096 mod 16) + n div 256 mod 16) + n div 16 mod 16) + n mod 16 = n"
  proof -
    have "n div 4096 mod 16 = n div 16 div 16 div 16" using \<open>n div 4096 < 16\<close> by (simp add: div_mult2_eq [symmetric])
    moreover have "n div 256 mod 16 = n div 16 div 16 mod 16" by (simp add: div_mult2_eq [symmetric])
    ultimately show ?thesis by (simp add: mult_div_mod_eq)
  qed
  with \<open>n div 4096 < 16\<close> show ?thesis by (simp add: hex4_def unicode_escape_def)
qed

lemma append_single [simp]: "(@) [c] = (#) c"
  by (rule ext) simp

lemma unicode_escape_split: "unicode_escape n @ r = backslash # CHR ''u'' # drop 2 (unicode_escape n) @ r"
  by (simp add: unicode_escape_def)

lemma unquote_unicode_escape:
  assumes "n < 0x10000" "\<not> high_surrogate n" "\<not> low_surrogate n"
  shows "unquote_body (unicode_escape n @ r) = map_option ((@) (encode_rune n)) (unquote_body r)"
  using hex4_escape [OF assms(1), of r] assms(2,3)
  by (subst unicode_escape_split) (simp add: unquote_body.simps(2) unicode_unescape_def)

lemma char_of_of_char [simp]: "char_of (of_char c :: nat) = (c :: char)"
  by simp

lemma unquote_escape_ascii:
  assumes "(of_char c :: nat) < 0x80"
  shows "unquote_body (escape_ascii c @ r) = map_option ((#) c) (unquote_body r)"
proof (cases "escape_ascii c = unicode_escape (of_char c)")
  case True
  have "(of_char c :: nat) < 0x10000" "\<not> high_surrogate (of_char c)" "\<not> low_surrogate (of_char c)"
    using assms by (simp_all add: high_surrogate_def low_surrogate_def)
  from unquote_unicode_escape [OF this] True assms show ?thesis by (simp add: encode_rune_def option.map_comp comp_def)
next
  case False
  then consider (esc) x where "escape_ascii c = [backslash, x]" "x \<noteq> CHR ''u''" "unescape x = Some c"
    | (plain) "escape_ascii c = [c]" "c \<noteq> backslash" "c \<noteq> dquote" "\<not> (of_char c :: nat) < 0x20"
    by (auto simp: escape_ascii_def unescape_def split: if_splits)
  then show ?thesis
  proof cases
    case esc
    then show ?thesis by (simp add: unquote_body.simps(2))
  next
    case plain
    then show ?thesis using assms by (simp add: unquote_body.simps(2) option.map_comp comp_def)
  qed
qed

lemma rune_ok_high:
  assumes "rune_ok r" "\<not> (of_char (hd r) :: nat) < 0x80" "c \<in> set r"
  shows "0x80 \<le> (of_char c :: nat)"
  using assms by (elim rune_ok.elims) (auto simp: byte_in_def split: if_splits)

lemma unquote_rune:
  assumes "rune_ok r" "\<not> (of_char (hd r) :: nat) < 0x80"
  shows "unquote_body (r @ t) = map_option ((@) r) (unquote_body t)"
proof -
  obtain c cs where r: "r = c # cs" using rune_ok_nonempty [OF assms(1)] by (cases r) auto
  have "c \<noteq> backslash" "c \<noteq> dquote" using assms(2) by (auto simp: r)
  then show ?thesis
    using assms rune_len_eq [OF assms(1), of t] by (simp add: r unquote_body.simps(2) Let_def)
qed

text \<open>Quoting and unquoting a well-formed string gives it back.\<close>

lemma unquote_quote: "utf8_valid s \<Longrightarrow> unquote_body (quote_body s) = Some s"
proof (induction s rule: quote_body.induct)
  case (2 c cs)
  show ?case
  proof (cases "(of_char c :: nat) < 0x80")
    case True
    then show ?thesis using 2 by (simp add: unquote_escape_ascii)
  next
    case False
    let ?n = "rune_len (c # cs)"
    have pos: "0 < ?n" and rest: "utf8_valid (drop (?n - 1) cs)" using "2.prems" by simp_all
    have ih: "unquote_body (quote_body (drop (?n - 1) cs)) = Some (drop (?n - 1) cs)"
      using "2.IH"(3) [OF False refl _ rest] pos by simp
    let ?r = "take ?n (c # cs)"
    have ok: "rune_ok ?r" by (rule rune_len_pos [OF pos])
    have hd: "\<not> (of_char (hd ?r) :: nat) < 0x80" using False pos by simp
    have join: "?r @ drop (?n - 1) cs = c # cs" using pos by (cases ?n) auto
    have sep: "unquote_body (unicode_escape k @ t) = map_option ((@) (encode_rune k)) (unquote_body t)"
      if "k \<in> {0x2028, 0x2029}" for k t
      using that by (intro unquote_unicode_escape) (auto simp: high_surrogate_def low_surrogate_def)
    have "unquote_body (quote_body (c # cs)) = map_option ((@) ?r) (unquote_body (quote_body (drop (?n - 1) cs)))"
      using False pos sep unquote_rune [OF ok hd] by (simp del: take_Suc_Cons take_Cons' add: Let_def)
    then show ?thesis using ih join by simp
  qed
qed simp

section \<open>Scanning strings and numbers\<close>

text \<open>The text of a string up to its closing quote, and what follows.\<close>

function scan_string :: "string \<Rightarrow> (string \<times> string) option" where
  "scan_string [] = None"
| "scan_string (c # cs) =
     (if c = dquote then Some ([], cs)
      else if c = backslash
      then (case cs of [] \<Rightarrow> None
            | e # r \<Rightarrow>
                if e = CHR ''u''
                then (case hex4 r of None \<Rightarrow> None
                      | Some (_, r1) \<Rightarrow> map_option (apfst ((@) ([c, e] @ take 4 r))) (scan_string r1))
                else if e \<in> set [CHR ''b'', CHR ''f'', CHR ''n'', CHR ''r'', CHR ''t'', backslash, CHR ''/'', dquote]
                then map_option (apfst ((@) [c, e])) (scan_string r)
                else None)
      else if (of_char c :: nat) < 0x20 then None
      else map_option (apfst ((#) c)) (scan_string cs))"
  by pat_completeness auto
termination
  by (relation "measure length") (auto dest: hex4_length)

declare scan_string.simps(2) [simp del]

definition scannable :: "string \<Rightarrow> bool" where
  "scannable b \<longleftrightarrow> (\<forall>r. scan_string (b @ r) = map_option (apfst ((@) b)) (scan_string r))"

lemma scannable_Nil [simp]: "scannable []"
  by (simp add: scannable_def apfst_def map_prod_def case_prod_beta' option.map_ident)

lemma scannable_append: "scannable a \<Longrightarrow> scannable b \<Longrightarrow> scannable (a @ b)"
  by (simp add: scannable_def option.map_comp comp_def apfst_def map_prod_def case_prod_beta')

lemma scannable_unicode: "n < 0x10000 \<Longrightarrow> scannable (unicode_escape n)"
proof -
  assume n: "n < 0x10000"
  have "scan_string (unicode_escape n @ r) = map_option (apfst ((@) (unicode_escape n))) (scan_string r)" for r
  proof -
    have e: "[backslash, CHR ''u''] @ take 4 (drop 2 (unicode_escape n) @ r) = unicode_escape n"
      by (simp add: unicode_escape_def)
    show ?thesis using hex4_escape [OF n, of r]
      by (subst unicode_escape_split) (simp add: scan_string.simps(2) e [simplified])
  qed
  then show ?thesis by (simp add: scannable_def)
qed

lemma scannable_plain: "c \<noteq> dquote \<Longrightarrow> c \<noteq> backslash \<Longrightarrow> \<not> (of_char c :: nat) < 0x20 \<Longrightarrow> scannable [c]"
  by (simp add: scannable_def scan_string.simps(2))

lemma scannable_escape: "scannable (escape_ascii c)"
proof (cases "escape_ascii c = unicode_escape (of_char c)")
  case True
  have "(of_char c :: nat) < 0x10000" using nat_of_char_less_256 [of c] by linarith
  then show ?thesis unfolding True by (rule scannable_unicode)
next
  case False
  then consider (esc) x where "escape_ascii c = [backslash, x]" "x \<in> set [CHR ''b'', CHR ''f'', CHR ''n'', CHR ''r'', CHR ''t'', backslash, CHR ''/'', dquote]"
    | (plain) "escape_ascii c = [c]" "c \<noteq> backslash" "c \<noteq> dquote" "\<not> (of_char c :: nat) < 0x20"
    by (auto simp: escape_ascii_def split: if_splits)
  then show ?thesis
  proof cases
    case esc
    then show ?thesis by (auto simp: scannable_def scan_string.simps(2))
  next
    case plain
    then show ?thesis by (simp add: scannable_plain)
  qed
qed

lemma scannable_high: "\<forall>c\<in>set r. 0x80 \<le> (of_char c :: nat) \<Longrightarrow> scannable r"
proof (induction r)
  case (Cons c r)
  then have "scannable [c]" by (intro scannable_plain) auto
  from scannable_append [OF this] Cons show ?case by simp
qed simp

lemma scannable_quote: "scannable (quote_body s)"
proof (induction s rule: quote_body.induct)
  case (2 c cs)
  show ?case
  proof (cases "(of_char c :: nat) < 0x80")
    case True
    then show ?thesis using 2(1) by (simp add: scannable_append scannable_escape)
  next
    case False
    let ?n = "rune_len (c # cs)" and ?r = "take (rune_len (c # cs)) (c # cs)"
    have "scannable ?r" if "?n \<noteq> 0"
      using rune_ok_high [OF rune_len_pos] that False by (intro scannable_high ballI) simp
    then show ?thesis
      using "2.IH"(2,3) False by (auto simp: Let_def intro!: scannable_append scannable_unicode simp del: take_Suc_Cons)
  qed
qed simp

lemma scan_quote: "scan_string (quote_body s @ dquote # r) = Some (quote_body s, r)"
  using scannable_quote [of s] by (simp add: scannable_def scan_string.simps(2))


text \<open>The text of a number, and what follows: sign, whole part, fraction, exponent.\<close>

definition scan_sign :: "char set \<Rightarrow> string \<Rightarrow> string \<times> string" where
  "scan_sign signs s = (if s \<noteq> [] \<and> hd s \<in> signs then ([hd s], tl s) else ([], s))"

definition scan_whole :: "string \<Rightarrow> (string \<times> string) option" where
  "scan_whole s =
     (if s = [] \<or> \<not> is_digit (hd s) then None
      else if hd s = CHR ''0'' then Some ([hd s], tl s)
      else Some (takeWhile is_digit s, dropWhile is_digit s))"

definition scan_digits :: "string \<Rightarrow> (string \<times> string) option" where
  "scan_digits s = (if takeWhile is_digit s = [] then None else Some (takeWhile is_digit s, dropWhile is_digit s))"

definition scan_frac :: "string \<Rightarrow> (string \<times> string) option" where
  "scan_frac s =
     (if s = [] \<or> hd s \<noteq> CHR ''.'' then Some ([], s) else map_option (apfst ((#) (hd s))) (scan_digits (tl s)))"

definition scan_exp :: "string \<Rightarrow> (string \<times> string) option" where
  "scan_exp s =
     (if s = [] \<or> hd s \<notin> {CHR ''e'', CHR ''E''} then Some ([], s)
      else let (sg, t) = scan_sign {CHR ''+'', CHR ''-''} (tl s)
        in map_option (apfst (\<lambda>ds. hd s # sg @ ds)) (scan_digits t))"

definition scan_number :: "string \<Rightarrow> (string \<times> string) option" where
  "scan_number s =
     (let (sign, s1) = scan_sign {CHR ''-''} s in do {
        (whole, s2) \<leftarrow> scan_whole s1;
        (frac, s3) \<leftarrow> scan_frac s2;
        (expo, s4) \<leftarrow> scan_exp s3;
        Some (sign @ whole @ frac @ expo, s4)
      })"

definition delimited :: "string \<Rightarrow> bool" where
  "delimited r \<longleftrightarrow> r = [] \<or> \<not> is_digit (hd r) \<and> hd r \<notin> {CHR ''.'', CHR ''e'', CHR ''E''}"

lemma takeWhile_digits:
  assumes "list_all is_digit ds" "delimited r"
  shows "takeWhile is_digit (ds @ r) = ds" "dropWhile is_digit (ds @ r) = r"
  using assms
  by (auto simp: list_all_iff delimited_def takeWhile_append2 dropWhile_append2 takeWhile_eq_Nil_iff dropWhile_eq_self_iff)

lemma format_nat_hd: "hd (format_nat n) = CHR ''0'' \<Longrightarrow> format_nat n = [CHR ''0'']"
proof (induction n rule: format_nat.induct)
  case (1 n)
  show ?case
  proof (cases "n < 10")
    case True
    then show ?thesis using 1(2) by (subst (asm) format_nat.simps, subst format_nat.simps) simp
  next
    case False
    then have f: "format_nat n = format_nat (n div 10) @ [digit_char (n mod 10)]" by (subst format_nat.simps) simp
    then have "hd (format_nat (n div 10)) = CHR ''0''" using 1(2) by simp
    from 1(1) [OF False this] have "digits_val (format_nat (n div 10)) = 0" by (simp add: digits_val_def digit_val_def)
    then show ?thesis using False by simp
  qed
qed

lemma scan_whole_nat:
  assumes "delimited r"
  shows "scan_whole (format_nat n @ r) = Some (format_nat n, r)"
proof -
  obtain c cs where f: "format_nat n = c # cs" using format_nat_nonempty [of n] by (cases "format_nat n") auto
  have "is_digit c" using format_nat_digits [of n] by (simp add: f)
  moreover have "cs = []" if "c = CHR ''0''" using format_nat_hd [of n] that by (simp add: f)
  moreover note takeWhile_digits [OF format_nat_digits assms, of n]
  ultimately show ?thesis by (simp add: f scan_whole_def)
qed

lemma scan_tail: "delimited r \<Longrightarrow> scan_frac r = Some ([], r)" "delimited r \<Longrightarrow> scan_exp r = Some ([], r)"
  by (simp_all add: delimited_def scan_frac_def scan_exp_def) blast+

lemma format_nat_no_sign: "scan_sign {CHR ''-''} (format_nat n @ r) = ([], format_nat n @ r)"
proof -
  have "hd (format_nat n) \<in> set (format_nat n)" by simp
  then have "is_digit (hd (format_nat n))" using format_nat_digits [of n] by (simp only: list_all_iff)
  then have "hd (format_nat n) \<noteq> CHR ''-''" using digit_not_sign by blast
  then show ?thesis by (simp add: scan_sign_def)
qed

lemma scan_FormatInt: "delimited r \<Longrightarrow> scan_number (FormatInt i @ r) = Some (FormatInt i, r)"
  by (simp add: FormatInt_def scan_number_def format_nat_no_sign scan_whole_nat scan_tail)
    (simp add: scan_sign_def scan_whole_nat scan_tail)

section \<open>Documents\<close>

datatype json =
    JNull
  | JBool bool
  | JNumber string
  | JString string
  | JArray "json list"
  | JObject "(string \<times> json) list"

definition is_ws :: "char \<Rightarrow> bool" where
  "is_ws c \<longleftrightarrow> c = CHR '' '' \<or> c = CHR 0x09 \<or> c = CHR 0x0A \<or> c = CHR 0x0D"

definition skip_ws :: "string \<Rightarrow> string" where
  "skip_ws = dropWhile is_ws"

fun parse_list :: "(string \<Rightarrow> ('a \<times> string) option) \<Rightarrow> char \<Rightarrow> nat \<Rightarrow> string \<Rightarrow> ('a list \<times> string) option" where
  "parse_list p close 0 s = None"
| "parse_list p close (Suc k) s =
     (case p s of None \<Rightarrow> None
      | Some (x, s1) \<Rightarrow>
          (case skip_ws s1 of [] \<Rightarrow> None
           | c # r \<Rightarrow>
               if c = CHR '','' then map_option (apfst ((#) x)) (parse_list p close k r)
               else if c = close then Some ([x], r) else None))"

definition parse_member :: "(string \<Rightarrow> ('a \<times> string) option) \<Rightarrow> string \<Rightarrow> ((string \<times> 'a) \<times> string) option" where
  "parse_member p s =
     (case skip_ws s of [] \<Rightarrow> None
      | c # r \<Rightarrow>
          if c \<noteq> dquote then None
          else case scan_string r of None \<Rightarrow> None
            | Some (k, s1) \<Rightarrow>
                (case skip_ws s1 of [] \<Rightarrow> None
                 | c # r \<Rightarrow> if c = CHR '':'' then map_option (apfst (Pair k)) (p r) else None))"

function parse_value :: "nat \<Rightarrow> string \<Rightarrow> (json \<times> string) option" where
  "parse_value n s =
     (case skip_ws s of [] \<Rightarrow> None
      | c # r \<Rightarrow>
          if c = dquote then map_option (apfst JString) (scan_string r)
          else if c = CHR 0x7B
          then (if n = 0 then None
                else if skip_ws r \<noteq> [] \<and> hd (skip_ws r) = CHR 0x7D then Some (JObject [], tl (skip_ws r))
                else map_option (apfst JObject) (parse_list (parse_member (parse_value (n - 1))) CHR 0x7D (length r) r))
          else if c = CHR 0x5B
          then (if n = 0 then None
                else if skip_ws r \<noteq> [] \<and> hd (skip_ws r) = CHR 0x5D then Some (JArray [], tl (skip_ws r))
                else map_option (apfst JArray) (parse_list (parse_value (n - 1)) CHR 0x5D (length r) r))
          else if take 4 (c # r) = ''true'' then Some (JBool True, drop 4 (c # r))
          else if take 5 (c # r) = ''false'' then Some (JBool False, drop 5 (c # r))
          else if take 4 (c # r) = ''null'' then Some (JNull, drop 4 (c # r))
          else map_option (apfst JNumber) (scan_number (c # r)))"
  by pat_completeness auto
termination
  by (relation "measure fst") auto

declare parse_value.simps [simp del]

definition max_depth :: nat where
  "max_depth = 10000"

text \<open>A whole document, as \<open>json.Unmarshal\<close> demands.\<close>

definition parse_json :: "string \<Rightarrow> json option" where
  "parse_json s =
     (case parse_value max_depth s of
        Some (v, r) \<Rightarrow> if skip_ws r = [] then Some v else None
      | None \<Rightarrow> None)"

fun render :: "json \<Rightarrow> string" where
  "render JNull = ''null''"
| "render (JBool b) = (if b then ''true'' else ''false'')"
| "render (JNumber t) = t"
| "render (JString b) = dquote # b @ [dquote]"
| "render (JArray vs) = CHR 0x5B # Join (map render vs) '','' @ [CHR 0x5D]"
| "render (JObject ms) = CHR 0x7B # Join (map (\<lambda>(k, v). dquote # k @ [dquote, CHR '':''] @ render v) ms) '','' @ [CHR 0x7D]"


subsection \<open>Parsing a rendered document\<close>

definition number_text :: "string \<Rightarrow> bool" where
  "number_text t \<longleftrightarrow> (\<exists>i. t = FormatInt i)"

text \<open>The trees the program renders: integers, scannable strings, nesting within the limit.\<close>

fun wf_json :: "nat \<Rightarrow> json \<Rightarrow> bool" where
  "wf_json n JNull = True"
| "wf_json n (JBool b) = True"
| "wf_json n (JNumber t) = number_text t"
| "wf_json n (JString b) = scannable b"
| "wf_json n (JArray vs) = (0 < n \<and> (\<forall>v\<in>set vs. wf_json (n - 1) v))"
| "wf_json n (JObject ms) = (0 < n \<and> (\<forall>(k, v)\<in>set ms. scannable k \<and> wf_json (n - 1) v))"

lemma skip_ws_Cons [simp]: "\<not> is_ws c \<Longrightarrow> skip_ws (c # s) = c # s"
  by (simp add: skip_ws_def)

lemma scan_scannable: "scannable b \<Longrightarrow> scan_string (b @ dquote # r) = Some (b, r)"
  by (simp add: scannable_def scan_string.simps(2))

lemma parse_list_Join:
  assumes "xs \<noteq> []" "length xs \<le> k" "\<And>x r. x \<in> set xs \<Longrightarrow> delimited r \<Longrightarrow> p (pr x @ r) = Some (x, r)"
    and "close \<noteq> CHR '',''" "\<not> is_ws close" "delimited (close # r)"
  shows "parse_list p close k (Join (map pr xs) '','' @ close # r) = Some (xs, r)"
  using assms(1-3)
proof (induction xs arbitrary: k)
  case (Cons x xs)
  obtain k' where k: "k = Suc k'" using Cons.prems(2) by (cases k) auto
  have comma: "delimited (CHR '','' # t)" "\<not> is_ws CHR '',''" for t by (simp_all add: delimited_def is_digit_def is_ws_def)
  show ?case
  proof (cases xs)
    case Nil
    then show ?thesis using Cons.prems(3) [of x "close # r"] assms(4-6) by (simp add: k)
  next
    case (Cons y ys)
    let ?rest = "Join (map pr xs) '','' @ close # r"
    have "Join (map pr (x # xs)) '','' @ close # r = pr x @ CHR '','' # ?rest" by (simp add: Cons)
    moreover have "parse_list p close k' ?rest = Some (xs, r)"
      using Cons.IH [of k'] Cons.prems Cons k by simp
    ultimately show ?thesis using Cons.prems(3) [of x "CHR '','' # ?rest"] comma by (simp add: k)
  qed
qed simp

lemma Join_length: "length xs \<le> length (Join (map f xs) '','') + 1"
  by (induction xs rule: induct_list012) auto

lemma Join_hd: "xs \<noteq> [] \<Longrightarrow> f (hd xs) \<noteq> [] \<Longrightarrow> Join (map f xs) sep \<noteq> [] \<and> hd (Join (map f xs) sep) = hd (f (hd xs))"
  by (cases xs; cases "tl xs") auto

lemma FormatInt_nonempty [simp]: "FormatInt i \<noteq> []"
  by (simp add: FormatInt_def)

lemma render_hd:
  assumes "wf_json n v"
  shows "render v \<noteq> []" "\<not> is_ws (hd (render v))" "hd (render v) \<noteq> CHR 0x5D" "hd (render v) \<noteq> CHR 0x7D"
proof -
  have d: "is_digit c \<Longrightarrow> \<not> is_ws c \<and> c \<noteq> CHR 0x5D \<and> c \<noteq> CHR 0x7D" for c by (auto simp: is_digit_def is_ws_def)
  have num: "FormatInt i \<noteq> []" "hd (FormatInt i) = CHR ''-'' \<or> is_digit (hd (FormatInt i))" for i
    using FormatInt_chars [of "hd (FormatInt i)" i] by (auto simp: FormatInt_def)
  have "hd (FormatInt i) \<noteq> CHR 0x5D \<and> hd (FormatInt i) \<noteq> CHR 0x7D \<and> \<not> is_ws (hd (FormatInt i))" for i
    using num(2) [of i] d by (auto simp: is_ws_def)
  then show "render v \<noteq> []" "\<not> is_ws (hd (render v))" "hd (render v) \<noteq> CHR 0x5D" "hd (render v) \<noteq> CHR 0x7D"
    using assms num(1) by (cases v; auto simp: number_text_def is_ws_def split: if_splits)+
qed

lemma parse_number:
  assumes "delimited r"
  shows "parse_value n (FormatInt i @ r) = Some (JNumber (FormatInt i), r)"
proof -
  obtain c cs where f: "FormatInt i = c # cs" using FormatInt_nonempty [of i] by (cases "FormatInt i") auto
  have "c = CHR ''-'' \<or> is_digit c" using FormatInt_chars [of c i] by (simp add: f)
  then have "\<not> is_ws c" "c \<notin> {dquote, CHR 0x7B, CHR 0x5B, CHR ''t'', CHR ''f'', CHR ''n''}"
    by (auto simp: is_digit_def is_ws_def)
  then show ?thesis using scan_FormatInt [OF assms, of i] by (simp add: f parse_value.simps [of n])
qed

lemma parse_render: "wf_json n v \<Longrightarrow> delimited r \<Longrightarrow> parse_value n (render v @ r) = Some (v, r)"
proof (induction v arbitrary: n r)
  case JNull
  then show ?case by (subst parse_value.simps) (simp add: is_ws_def)
next
  case (JBool b)
  then show ?case by (subst parse_value.simps) (simp add: is_ws_def)
next
  case (JNumber t)
  then show ?case by (auto simp: number_text_def parse_number)
next
  case (JString b)
  then show ?case by (subst parse_value.simps) (simp add: is_ws_def scan_scannable)
next
  case (JArray vs)
  show ?case
  proof (cases "vs = []")
    case True
    then show ?thesis using JArray by (subst parse_value.simps) (simp add: is_ws_def)
  next
    case False
    let ?body = "Join (map render vs) '','' @ CHR 0x5D # r"
    have wf: "wf_json (n - 1) v" if "v \<in> set vs" for v using JArray.prems(1) that by simp
    have "parse_list (parse_value (n - 1)) CHR 0x5D (length ?body) ?body = Some (vs, r)"
      using JArray.IH wf Join_length [of vs render]
      by (intro parse_list_Join False) (auto simp: is_ws_def delimited_def is_digit_def)
    moreover have "skip_ws ?body = ?body" "hd ?body \<noteq> CHR 0x5D"
      using render_hd [OF wf [of "hd vs"]] Join_hd [OF False, of render "'',''"] False
      by (auto simp: skip_ws_def dropWhile_eq_self_iff)
    ultimately show ?thesis
      using JArray.prems(1) by (subst parse_value.simps) (simp add: is_ws_def)
  qed
next
  case (JObject ms)
  show ?case
  proof (cases "ms = []")
    case True
    then show ?thesis using JObject by (subst parse_value.simps) (simp add: is_ws_def)
  next
    case False
    let ?pr = "\<lambda>(k, v). dquote # k @ [dquote, CHR '':''] @ render v"
    let ?body = "Join (map ?pr ms) '','' @ CHR 0x7D # r"
    have wf: "scannable k \<and> wf_json (n - 1) v" if "(k, v) \<in> set ms" for k v using JObject.prems(1) that by auto
    have member: "parse_member (parse_value (n - 1)) (?pr m @ t) = Some (m, t)" if "m \<in> set ms" "delimited t" for m t
    proof -
      obtain k v where m: "m = (k, v)" by (cases m)
      have "parse_value (n - 1) (render v @ t) = Some (v, t)"
        using JObject.IH [of m v "n - 1" t] wf that by (auto simp: m)
      then show ?thesis using wf that by (simp add: m parse_member_def is_ws_def scan_scannable)
    qed
    have "parse_list (parse_member (parse_value (n - 1))) CHR 0x7D (length ?body) ?body = Some (ms, r)"
      using member Join_length [of ms ?pr]
      by (intro parse_list_Join False) (auto simp: is_ws_def delimited_def is_digit_def)
    moreover have "skip_ws ?body = ?body" "hd ?body \<noteq> CHR 0x7D"
      using Join_hd [OF False, of ?pr "'',''"] by (auto simp: skip_ws_def dropWhile_eq_self_iff is_ws_def split: prod.splits)
    ultimately show ?thesis
      using JObject.prems(1) by (subst parse_value.simps) (simp add: is_ws_def)
  qed
qed

lemma parse_json_render: "wf_json max_depth v \<Longrightarrow> parse_json (render v) = Some v"
  using parse_render [of max_depth v "[]"] by (simp add: parse_json_def delimited_def skip_ws_def)


section \<open>Go values\<close>

definition json_string :: "string \<Rightarrow> json" where
  "json_string s = JString (quote_body s)"

text \<open>
  A field name matches exactly or up to case folding: ASCII letters, the long s and the Kelvin sign
  are what folds to a letter of the names in use.
\<close>

fun fold_name :: "string \<Rightarrow> string" where
  "fold_name [] = []"
| "fold_name (c # cs) =
     (if CHR ''a'' \<le> c \<and> c \<le> CHR ''z'' then char_of (of_char c - 32 :: nat) # fold_name cs
      else if c = CHR 0xC5 \<and> take 1 cs = [CHR 0xBF] then CHR ''S'' # fold_name (drop 1 cs)
      else if c = CHR 0xE2 \<and> take 2 cs = [CHR 0x84, CHR 0xAA] then CHR ''K'' # fold_name (drop 2 cs)
      else c # fold_name cs)"

definition match_field :: "string list \<Rightarrow> string \<Rightarrow> string option" where
  "match_field names key =
     (if key \<in> set names then Some key else find (\<lambda>n. fold_name n = fold_name key) names)"

text \<open>
  Decoding an object into a struct: each member in turn, unknown ones skipped or, for a strict
  decoder, refused.  \<open>upd f v r\<close> stores the value \<open>v\<close> in field \<open>f\<close>.  \<open>null\<close> leaves the struct
  alone, and no other kind of value fits one.
\<close>

fun decode_members :: "string list \<Rightarrow> bool \<Rightarrow> (string \<Rightarrow> json \<Rightarrow> 'r \<Rightarrow> 'r option) \<Rightarrow> (string \<times> json) list \<Rightarrow> 'r \<Rightarrow> 'r option" where
  "decode_members names strict upd [] r = Some r"
| "decode_members names strict upd ((k, v) # ms) r =
     (case unquote_body k of None \<Rightarrow> None
      | Some key \<Rightarrow>
          (case match_field names key of
             None \<Rightarrow> if strict then None else decode_members names strict upd ms r
           | Some f \<Rightarrow> (case upd f v r of None \<Rightarrow> None | Some r1 \<Rightarrow> decode_members names strict upd ms r1)))"

definition decode_struct :: "string list \<Rightarrow> bool \<Rightarrow> (string \<Rightarrow> json \<Rightarrow> 'r \<Rightarrow> 'r option) \<Rightarrow> json \<Rightarrow> 'r \<Rightarrow> 'r option" where
  "decode_struct names strict upd v r =
     (case v of JObject ms \<Rightarrow> decode_members names strict upd ms r | JNull \<Rightarrow> Some r | _ \<Rightarrow> None)"

text \<open>Decoding into a string, an integer, a pointer to a value and a slice.\<close>

definition decode_string :: "json \<Rightarrow> string \<Rightarrow> string option" where
  "decode_string v old = (case v of JString b \<Rightarrow> unquote_body b | JNull \<Rightarrow> Some old | _ \<Rightarrow> None)"

definition decode_int :: "json \<Rightarrow> int \<Rightarrow> int option" where
  "decode_int v old = (case v of JNumber t \<Rightarrow> ParseInt t | JNull \<Rightarrow> Some old | _ \<Rightarrow> None)"

definition decode_pointer :: "(json \<Rightarrow> 'a option) \<Rightarrow> json \<Rightarrow> 'a option option" where
  "decode_pointer d v = (if v = JNull then Some None else map_option Some (d v))"

fun decode_list :: "(json \<Rightarrow> 'a option) \<Rightarrow> json list \<Rightarrow> 'a list option" where
  "decode_list d [] = Some []"
| "decode_list d (v # vs) =
     (case d v of None \<Rightarrow> None | Some x \<Rightarrow> map_option ((#) x) (decode_list d vs))"

lemma decode_json_string [simp]: "utf8_valid s \<Longrightarrow> decode_string (json_string s) old = Some s"
  by (simp add: decode_string_def json_string_def unquote_quote)

lemma wf_json_string [simp]: "wf_json n (json_string s)"
  by (simp add: json_string_def scannable_quote)

text \<open>Plain ASCII text needs no escape.\<close>

definition plain :: "string \<Rightarrow> bool" where
  "plain s \<longleftrightarrow> list_all (\<lambda>c. 0x20 \<le> (of_char c :: nat) \<and> (of_char c :: nat) < 0x80
     \<and> c \<notin> {dquote, backslash, CHR ''<'', CHR ''>'', CHR ''&''}) s"

lemma plain_Cons: "plain (c # s) \<longleftrightarrow> 0x20 \<le> (of_char c :: nat) \<and> (of_char c :: nat) < 0x80
     \<and> c \<notin> {dquote, backslash, CHR ''<'', CHR ''>'', CHR ''&''} \<and> plain s"
  by (simp add: plain_def)

lemma plain_quote: "plain s \<Longrightarrow> quote_body s = s \<and> utf8_valid s"
proof (induction s)
  case (Cons c s)
  then have c: "0x20 \<le> (of_char c :: nat)" "(of_char c :: nat) < 0x80" "c \<notin> {dquote, backslash, CHR ''<'', CHR ''>'', CHR ''&''}"
    and s: "quote_body s = s" "utf8_valid s" by (simp_all only: plain_Cons) simp_all
  have "c \<noteq> CHR 0x08" "c \<noteq> CHR 0x0C" "c \<noteq> CHR 0x0A" "c \<noteq> CHR 0x0D" "c \<noteq> CHR 0x09"
    using c(1) by auto
  then have "escape_ascii c = [c]" using c(1,3) by (simp add: escape_ascii_def)
  then show ?case using c(2) s by simp
qed simp

lemma plain_text: "plain s \<Longrightarrow> unquote_body s = Some s" "plain s \<Longrightarrow> scannable s"
  using plain_quote [of s] unquote_quote [of s] scannable_quote [of s] by simp_all


end
