(* ===== verification/Messages.thy ===== *)
theory Messages
  imports Json GoTime Domain
begin

text \<open>
  The JSON form of the messages that cross the outbox and the streams (\<open>internal/domain/message.go\<close>):
  what \<open>json.Marshal\<close> writes for them by their struct tags and what \<open>json.Unmarshal\<close> reads back.
  \<open>uuid_String\<close> and \<open>uuid_Parse\<close> stand for the text codec of \<open>github.com/google/uuid\<close>;
  \<open>off\<close> is the zone, in minutes, in which the process holds its instants.
\<close>

section \<open>Text codec of UUIDs\<close>

definition uuid_codec :: "(uuid \<Rightarrow> string) \<Rightarrow> (string \<Rightarrow> uuid option) \<Rightarrow> bool" where
  "uuid_codec uuid_String uuid_Parse \<longleftrightarrow> (\<forall>u. uuid_Parse (uuid_String u) = Some u \<and> plain (uuid_String u))"

section \<open>DeliveryMessage\<close>

definition message_json :: "(uuid \<Rightarrow> string) \<Rightarrow> int \<Rightarrow> DeliveryMessage \<Rightarrow> json option" where
  "message_json uuid_String off m =
     (case MarshalTime off (m_DeliveryCreatedAt m) of None \<Rightarrow> None
      | Some at' \<Rightarrow> Some (JObject
          ([(''delivery_id'', json_string (uuid_String (m_DeliveryID m))),
            (''delivery_created_at'', JString at'),
            (''request_id'', json_string (uuid_String (m_RequestID m))),
            (''channel'', json_string (m_Channel m)),
            (''priority'', json_string (m_Priority m))]
           @ (if m_CorrelationID m = [] then [] else [(''correlation_id'', json_string (m_CorrelationID m))]))))"

definition marshalMessage :: "(uuid \<Rightarrow> string) \<Rightarrow> int \<Rightarrow> DeliveryMessage \<Rightarrow> string option" where
  "marshalMessage uuid_String off m = map_option render (message_json uuid_String off m)"

definition message_fields :: "string list" where
  "message_fields = [''delivery_id'', ''delivery_created_at'', ''request_id'', ''channel'', ''priority'', ''correlation_id'']"

definition decode_uuid :: "(string \<Rightarrow> uuid option) \<Rightarrow> json \<Rightarrow> uuid \<Rightarrow> uuid option" where
  "decode_uuid uuid_Parse v old =
     (case v of JString b \<Rightarrow> Option.bind (unquote_body b) uuid_Parse | JNull \<Rightarrow> Some old | _ \<Rightarrow> None)"

definition decode_time :: "json \<Rightarrow> gotime \<Rightarrow> gotime option" where
  "decode_time v old = (case v of JString b \<Rightarrow> UnmarshalTime b | JNull \<Rightarrow> Some old | _ \<Rightarrow> None)"

definition set_message_field :: "(string \<Rightarrow> uuid option) \<Rightarrow> string \<Rightarrow> json \<Rightarrow> DeliveryMessage \<Rightarrow> DeliveryMessage option" where
  "set_message_field uuid_Parse f v m =
     (if f = ''delivery_id'' then map_option (\<lambda>x. m\<lparr>m_DeliveryID := x\<rparr>) (decode_uuid uuid_Parse v (m_DeliveryID m))
      else if f = ''delivery_created_at'' then map_option (\<lambda>x. m\<lparr>m_DeliveryCreatedAt := x\<rparr>) (decode_time v (m_DeliveryCreatedAt m))
      else if f = ''request_id'' then map_option (\<lambda>x. m\<lparr>m_RequestID := x\<rparr>) (decode_uuid uuid_Parse v (m_RequestID m))
      else if f = ''channel'' then map_option (\<lambda>x. m\<lparr>m_Channel := x\<rparr>) (decode_string v (m_Channel m))
      else if f = ''priority'' then map_option (\<lambda>x. m\<lparr>m_Priority := x\<rparr>) (decode_string v (m_Priority m))
      else map_option (\<lambda>x. m\<lparr>m_CorrelationID := x\<rparr>) (decode_string v (m_CorrelationID m)))"

text \<open>
  The zero message that decoding starts from.  The zero \<open>time.Time\<close> is midnight of 1 January of
  year 1.
\<close>

definition zero_time :: gotime where
  "zero_time = (366 - 719528) * 86400 * 1000000000"

definition zero_message :: DeliveryMessage where
  "zero_message = \<lparr>m_DeliveryID = 0, m_DeliveryCreatedAt = zero_time, m_RequestID = 0, m_Channel = [], m_Priority = [],
     m_CorrelationID = []\<rparr>"

definition unmarshalMessage :: "(string \<Rightarrow> uuid option) \<Rightarrow> string \<Rightarrow> DeliveryMessage option" where
  "unmarshalMessage uuid_Parse s =
     (case parse_json s of None \<Rightarrow> None
      | Some v \<Rightarrow> decode_struct message_fields False (set_message_field uuid_Parse) v zero_message)"

section \<open>DLQMessage\<close>

definition dlq_json :: "(uuid \<Rightarrow> string) \<Rightarrow> int \<Rightarrow> DLQMessage \<Rightarrow> json option" where
  "dlq_json uuid_String off m =
     (case (message_json uuid_String off (dlq_Original m), MarshalTime off (dlq_Timestamp m)) of
        (Some orig, Some at') \<Rightarrow> Some (JObject
          ([(''original'', orig), (''reason'', json_string (dlq_Reason m))]
           @ (if dlq_Error m = [] then [] else [(''error'', json_string (dlq_Error m))])
           @ (if dlq_AttemptCount m = 0 then [] else [(''attempt_count'', JNumber (FormatInt (dlq_AttemptCount m)))])
           @ (if dlq_Stream m = [] then [] else [(''stream'', json_string (dlq_Stream m))])
           @ (if dlq_EntryID m = [] then [] else [(''entry_id'', json_string (dlq_EntryID m))])
           @ [(''timestamp'', JString at')]))
      | _ \<Rightarrow> None)"

section \<open>A message survives its JSON\<close>

lemma fixed_digits_plain [simp]: "plain (fixed_digits k n)"
proof -
  have "is_digit c \<Longrightarrow> 0x20 \<le> (of_char c :: nat) \<and> (of_char c :: nat) < 0x80
     \<and> c \<notin> {dquote, backslash, CHR ''<'', CHR ''>'', CHR ''&''}" for c by (auto simp: is_digit_def)
  then show ?thesis using fixed_digits_simps(2) [of k n] unfolding plain_def list_all_iff by blast
qed

lemma plain_append [simp]: "plain (a @ b) \<longleftrightarrow> plain a \<and> plain b"
  by (simp add: plain_def)

lemma plain_sub: "plain s \<Longrightarrow> set t \<subseteq> set s \<Longrightarrow> plain t"
  by (auto simp: plain_def list_all_iff)

lemma MarshalTime_plain:
  assumes "MarshalTime off t = Some s"
  shows "plain s"
proof -
  have frac: "plain (format_fraction ns)" for ns
  proof -
    have "plain (rev (dropWhile (\<lambda>c. c = CHR ''0'') (rev (fixed_digits 9 ns))))"
      by (rule plain_sub [of "fixed_digits 9 ns"]) (auto dest: set_dropWhileD)
    then show ?thesis by (simp add: format_fraction_def plain_Cons) (simp add: plain_def)
  qed
  have zone: "plain (format_zone o')" for o' by (simp add: format_zone_def plain_Cons) (simp add: plain_def)
  have sep: "plain (c # x) \<longleftrightarrow> plain x" if "c \<in> {CHR ''-'', CHR ''T'', CHR '':''}" for c x
    using that by (auto simp: plain_def)
  show ?thesis
    using assms by (auto simp: MarshalTime_def Let_def frac zone sep split: if_splits prod.splits)
qed

lemma key_plain:
  "plain ''delivery_id''" "plain ''delivery_created_at''" "plain ''request_id''"
  "plain ''channel''" "plain ''priority''" "plain ''correlation_id''"
  by (simp_all add: plain_def)

lemmas key_text = key_plain [THEN plain_text(1)] key_plain [THEN plain_text(2)]

lemma message_json_wf:
  assumes "message_json str off m = Some v" "0 < n"
  shows "wf_json n v"
proof -
  obtain at' where at': "MarshalTime off (m_DeliveryCreatedAt m) = Some at'"
    using assms(1) by (auto simp: message_json_def split: option.splits)
  have "scannable at'" using at' by (intro plain_text MarshalTime_plain)
  then show ?thesis
    using assms by (auto simp: message_json_def at' key_text split: if_splits)
qed

definition message_text_ok :: "DeliveryMessage \<Rightarrow> bool" where
  "message_text_ok m \<longleftrightarrow> utf8_valid (m_Channel m) \<and> utf8_valid (m_Priority m) \<and> utf8_valid (m_CorrelationID m)"

lemma decode_message_json:
  assumes codec: "uuid_codec str prs" and ok: "message_text_ok m" and js: "message_json str off m = Some v"
  shows "decode_struct message_fields False (set_message_field prs) v zero_message = Some m"
proof -
  obtain at' where at': "MarshalTime off (m_DeliveryCreatedAt m) = Some at'"
    using js by (auto simp: message_json_def split: option.splits)
  have time: "UnmarshalTime at' = Some (m_DeliveryCreatedAt m)" using at' by (rule time_roundtrip)
  have uid: "decode_uuid prs (json_string (str u)) old = Some u" for u old
    using codec plain_quote [of "str u"] by (simp add: uuid_codec_def decode_uuid_def json_string_def plain_text)
  have v: "v = JObject
          ([(''delivery_id'', json_string (str (m_DeliveryID m))), (''delivery_created_at'', JString at'),
            (''request_id'', json_string (str (m_RequestID m))), (''channel'', json_string (m_Channel m)),
            (''priority'', json_string (m_Priority m))]
           @ (if m_CorrelationID m = [] then [] else [(''correlation_id'', json_string (m_CorrelationID m))]))"
    using js by (simp add: message_json_def at')
  show ?thesis
    using ok unfolding v
    by (simp add: time decode_struct_def key_text match_field_def message_fields_def uid set_message_field_def
        decode_time_def message_text_ok_def zero_message_def)
qed

theorem message_roundtrip:
  assumes "uuid_codec str prs" "message_text_ok m" "marshalMessage str off m = Some s"
  shows "unmarshalMessage prs s = Some m"
proof -
  obtain v where v: "message_json str off m = Some v" "s = render v"
    using assms(3) by (auto simp: marshalMessage_def)
  have "parse_json s = Some v"
    unfolding v(2) by (rule parse_json_render [OF message_json_wf [OF v(1)]]) (simp add: max_depth_def)
  then show ?thesis using decode_message_json [OF assms(1,2) v(1)] by (simp add: unmarshalMessage_def)
qed

end
