(* ===== verification/Redis.thy ===== *)
theory Redis
  imports Messages
begin

text \<open>
  The package \<open>internal/adapters/redis\<close>: the stream queue (queue.go), the dead-letter stream (dlq.go)
  and the rate limiters (ratelimit.go).  A Redis command is a value and \<open>rq_do\<close> hands it to the
  client and returns the reply, so that what the code sends is visible and what the server answers
  is arbitrary.  The limiters of \<open>redis_rate\<close> and \<open>golang.org/x/time/rate\<close> are arguments, as are
  the texts of the errors \<open>encoding/json\<close> reports.
\<close>

section \<open>Commands and replies\<close>

datatype redis_cmd =
    XGROUP_CREATE_MKSTREAM string string string
  | XADD string "(string \<times> string) list"
  | XREADGROUP string string "string list" int duration
  | XACK string string string
  | XLEN string
  | XPENDING string string

type_synonym stream_entry = "string \<times> (string \<rightharpoonup> string)"

datatype redis_reply =
    RNil
  | RErr string
  | ROk
  | RInt int
  | RStreams "(string \<times> stream_entry list) list"

text \<open>The error the client reports for a reply; a missing value is the error \<open>redis.Nil\<close>.\<close>

definition reply_err :: "redis_reply \<Rightarrow> string option" where
  "reply_err rep = (case rep of RErr e \<Rightarrow> Some e | RNil \<Rightarrow> Some ''redis: nil'' | _ \<Rightarrow> None)"

record codec =
  cd_String :: "uuid \<Rightarrow> string"
  cd_Parse :: "string \<Rightarrow> uuid option"
  cd_zone :: int
  cd_marshal_err :: string
  cd_unmarshal_err :: "string \<Rightarrow> string"

record 'w PoisonReporter =
  pr_IncPoison :: "'w \<Rightarrow> 'w"
  pr_IncDLQ :: "string \<Rightarrow> 'w \<Rightarrow> 'w"

record 'w Queue =
  rq_do :: "redis_cmd \<Rightarrow> 'w \<Rightarrow> redis_reply \<times> 'w"
  rq_group :: string
  rq_dlq :: "(DLQMessage \<Rightarrow> 'w \<Rightarrow> unit result \<times> 'w) option"
  rq_metrics :: "'w PoisonReporter option"
  rq_Now :: "'w \<Rightarrow> gotime \<times> 'w"
  rq_codec :: codec

section \<open>The queue (queue.go)\<close>

definition messageField :: string where
  "messageField = ''data''"

definition NewQueue :: "(redis_cmd \<Rightarrow> 'w \<Rightarrow> redis_reply \<times> 'w) \<Rightarrow> ('w \<Rightarrow> gotime \<times> 'w) \<Rightarrow> codec \<Rightarrow> string \<Rightarrow> 'w Queue" where
  "NewQueue client now cd grp =
     \<lparr>rq_do = client, rq_group = grp, rq_dlq = None, rq_metrics = None, rq_Now = now, rq_codec = cd\<rparr>"

definition WithDLQ :: "(DLQMessage \<Rightarrow> 'w \<Rightarrow> unit result \<times> 'w) \<Rightarrow> 'w PoisonReporter \<Rightarrow> 'w Queue \<Rightarrow> 'w Queue" where
  "WithDLQ dlq metrics Q = Q\<lparr>rq_dlq := Some dlq, rq_metrics := Some metrics\<rparr>"

definition isBusyGroup :: "string \<Rightarrow> bool" where
  "isBusyGroup e \<longleftrightarrow> e = ''BUSYGROUP Consumer Group name already exists''"

definition EnsureGroup :: "'w Queue \<Rightarrow> string \<Rightarrow> 'w \<Rightarrow> unit result \<times> 'w" where
  "EnsureGroup Q stream w =
     (let (rep, w1) = rq_do Q (XGROUP_CREATE_MKSTREAM stream (rq_group Q) ''0'') w in
      case reply_err rep of
        Some e \<Rightarrow> if isBusyGroup e then (Inr (), w1)
                  else (Inl (ErrInfra (''ensure group '' @ stream @ '': '' @ e)), w1)
      | None \<Rightarrow> (Inr (), w1))"

definition Queue_Publish :: "'w Queue \<Rightarrow> string \<Rightarrow> DeliveryMessage \<Rightarrow> 'w \<Rightarrow> unit result \<times> 'w" where
  "Queue_Publish Q stream msg w =
     (case marshalMessage (cd_String (rq_codec Q)) (cd_zone (rq_codec Q)) msg of
        None \<Rightarrow> (Inl (ErrInfra (''marshal message: '' @ cd_marshal_err (rq_codec Q))), w)
      | Some payload \<Rightarrow>
          (let (rep, w1) = rq_do Q (XADD stream [(messageField, payload)]) w in
           case reply_err rep of
             Some e \<Rightarrow> (Inl (ErrInfra (''xadd '' @ stream @ '': '' @ e)), w1)
           | None \<Rightarrow> (Inr (), w1)))"

definition Queue_Ack :: "'w Queue \<Rightarrow> string \<Rightarrow> string \<Rightarrow> 'w \<Rightarrow> unit result \<times> 'w" where
  "Queue_Ack Q stream i w =
     (let (rep, w1) = rq_do Q (XACK stream (rq_group Q) i) w in
      case reply_err rep of Some e \<Rightarrow> (Inl (ErrInfra e), w1) | None \<Rightarrow> (Inr (), w1))"

definition int_reply :: "redis_reply \<Rightarrow> int result" where
  "int_reply rep = (case rep of RInt n \<Rightarrow> Inr n | RErr e \<Rightarrow> Inl (ErrInfra e) | _ \<Rightarrow> Inl (ErrInfra ''redis: nil''))"

definition Queue_Depth :: "'w Queue \<Rightarrow> string \<Rightarrow> 'w \<Rightarrow> int result \<times> 'w" where
  "Queue_Depth Q stream w = apfst int_reply (rq_do Q (XLEN stream) w)"

definition Queue_Pending :: "'w Queue \<Rightarrow> string \<Rightarrow> 'w \<Rightarrow> int result \<times> 'w" where
  "Queue_Pending Q stream w = apfst int_reply (rq_do Q (XPENDING stream (rq_group Q)) w)"

definition poison_message :: "string \<Rightarrow> string \<Rightarrow> string \<Rightarrow> string \<Rightarrow> gotime \<Rightarrow> DLQMessage" where
  "poison_message stream entryID reason errMsg now =
     \<lparr>dlq_Original = zero_message, dlq_Reason = reason, dlq_Error = errMsg, dlq_AttemptCount = 0,
      dlq_Stream = stream, dlq_EntryID = entryID, dlq_Timestamp = now\<rparr>"

definition dropPoison :: "'w Queue \<Rightarrow> string \<Rightarrow> string \<Rightarrow> string \<Rightarrow> string \<Rightarrow> 'w \<Rightarrow> 'w" where
  "dropPoison Q stream entryID reason errMsg w =
     (let w1 = (case rq_dlq Q of None \<Rightarrow> w
                | Some publish \<Rightarrow>
                    let (now, w') = rq_Now Q w in snd (publish (poison_message stream entryID reason errMsg now) w'));
          w2 = (case rq_metrics Q of None \<Rightarrow> w1
                | Some m \<Rightarrow> pr_IncDLQ m ''poison_pill'' (pr_IncPoison m w1))
      in snd (Queue_Ack Q stream entryID w2))"

fun read_entries :: "'w Queue \<Rightarrow> string \<Rightarrow> stream_entry list \<Rightarrow> 'w \<Rightarrow> StreamMessage list \<times> 'w" where
  "read_entries Q stream [] w = ([], w)"
| "read_entries Q stream ((i, values) # es) w =
     (case values messageField of
        None \<Rightarrow> read_entries Q stream es (dropPoison Q stream i ''missing_data_field'' ''stream entry missing data field'' w)
      | Some raw \<Rightarrow>
          (case unmarshalMessage (cd_Parse (rq_codec Q)) raw of
             None \<Rightarrow> read_entries Q stream es (dropPoison Q stream i ''invalid_json'' (cd_unmarshal_err (rq_codec Q) raw) w)
           | Some dm \<Rightarrow> apfst ((#) \<lparr>sm_Stream = stream, sm_ID = i, sm_Delivery = dm\<rparr>) (read_entries Q stream es w)))"

fun read_streams :: "'w Queue \<Rightarrow> (string \<times> stream_entry list) list \<Rightarrow> 'w \<Rightarrow> StreamMessage list \<times> 'w" where
  "read_streams Q [] w = ([], w)"
| "read_streams Q ((stream, es) # rest) w =
     (let (out, w1) = read_entries Q stream es w in apfst ((@) out) (read_streams Q rest w1))"

definition read_args :: "string list \<Rightarrow> string list" where
  "read_args streams = streams @ map (\<lambda>_. ''>'') streams"

definition Queue_Read ::
  "'w Queue \<Rightarrow> string \<Rightarrow> string list \<Rightarrow> int \<Rightarrow> duration \<Rightarrow> 'w \<Rightarrow> StreamMessage list result \<times> 'w" where
  "Queue_Read Q consumer streams cnt block w =
     (if streams = [] then (Inr [], w)
      else let (rep, w1) = rq_do Q (XREADGROUP (rq_group Q) consumer (read_args streams) cnt block) w in
        case rep of
          RStreams res \<Rightarrow> apfst Inr (read_streams Q res w1)
        | RNil \<Rightarrow> (Inr [], w1)
        | RErr e \<Rightarrow> (Inl (ErrInfra (''xreadgroup: '' @ e)), w1)
        | _ \<Rightarrow> (Inl (ErrInfra ''xreadgroup: unexpected reply''), w1))"

section \<open>The dead-letter stream (dlq.go)\<close>

record 'w DLQ =
  dq_do :: "redis_cmd \<Rightarrow> 'w \<Rightarrow> redis_reply \<times> 'w"
  dq_Now :: "'w \<Rightarrow> gotime \<times> 'w"
  dq_codec :: codec

definition NewDLQ :: "(redis_cmd \<Rightarrow> 'w \<Rightarrow> redis_reply \<times> 'w) \<Rightarrow> ('w \<Rightarrow> gotime \<times> 'w) \<Rightarrow> codec \<Rightarrow> 'w DLQ" where
  "NewDLQ client now cd = \<lparr>dq_do = client, dq_Now = now, dq_codec = cd\<rparr>"

definition dlq_stamp :: "'w DLQ \<Rightarrow> DLQMessage \<Rightarrow> 'w \<Rightarrow> DLQMessage \<times> 'w" where
  "dlq_stamp D msg w =
     (if dlq_Timestamp msg = zero_time then let (now, w1) = dq_Now D w in (msg\<lparr>dlq_Timestamp := now\<rparr>, w1)
      else (msg, w))"

definition DLQ_Publish :: "'w DLQ \<Rightarrow> DLQMessage \<Rightarrow> 'w \<Rightarrow> unit result \<times> 'w" where
  "DLQ_Publish D msg0 w0 =
     (let (msg, w) = dlq_stamp D msg0 w0 in
      case map_option render (dlq_json (cd_String (dq_codec D)) (cd_zone (dq_codec D)) msg) of
        None \<Rightarrow> (Inl (ErrInfra (''marshal dlq message: '' @ cd_marshal_err (dq_codec D))), w)
      | Some payload \<Rightarrow>
          (let (rep, w1) = dq_do D (XADD DLQStream [(''data'', payload)]) w in
           case reply_err rep of
             Some e \<Rightarrow> (Inl (ErrInfra (''xadd dlq: '' @ e)), w1)
           | None \<Rightarrow> (Inr (), w1)))"

section \<open>Rate limiters (ratelimit.go)\<close>

text \<open>The limit that \<open>redis_rate\<close> enforces, and its answer: how many tokens it granted and when to ask again.\<close>

record Limit =
  lm_Rate :: int
  lm_Burst :: int
  lm_Period :: duration

record 'w RedisRateLimiter =
  rrl_Allow :: "string \<Rightarrow> Limit \<Rightarrow> 'w \<Rightarrow> (string + int \<times> duration) \<times> 'w"
  rrl_limit :: Limit
  rrl_failOpen :: bool

definition NewRedisRateLimiter ::
  "(string \<Rightarrow> Limit \<Rightarrow> 'w \<Rightarrow> (string + int \<times> duration) \<times> 'w) \<Rightarrow> int \<Rightarrow> int \<Rightarrow> bool \<Rightarrow> 'w RedisRateLimiter" where
  "NewRedisRateLimiter limiter perSecond burst failOpen =
     \<lparr>rrl_Allow = limiter, rrl_limit = \<lparr>lm_Rate = perSecond, lm_Burst = burst, lm_Period = Second\<rparr>, rrl_failOpen = failOpen\<rparr>"

definition rate_key :: "Channel \<Rightarrow> string" where
  "rate_key channel = ''ratelimit:'' @ channel"

text \<open>The answer of a limiter: allowed, when to ask again, and the error it reports beside them.\<close>

type_synonym allowance = "bool \<times> duration \<times> string option"

definition RedisRateLimiter_Allow :: "'w RedisRateLimiter \<Rightarrow> Channel \<Rightarrow> 'w \<Rightarrow> allowance \<times> 'w" where
  "RedisRateLimiter_Allow R channel w =
     (case rrl_Allow R (rate_key channel) (rrl_limit R) w of
        (Inl e, w1) \<Rightarrow>
          if rrl_failOpen R then ((True, 0, Some (''rate limiter (fail-open): '' @ e)), w1)
          else ((False, 0, Some (''rate limiter (fail-closed): '' @ e)), w1)
      | (Inr (allowed, retryAfter), w1) \<Rightarrow>
          if allowed > 0 then ((True, 0, None), w1) else ((False, retryAfter, None), w1))"

text \<open>A token bucket of \<open>golang.org/x/time/rate\<close>: reserving a token at an instant, and giving it back.\<close>

record 'l Buckets =
  xr_NewLimiter :: "int \<Rightarrow> int \<Rightarrow> 'l"
  xr_Reserve :: "gotime \<Rightarrow> 'l \<Rightarrow> bool \<times> duration \<times> 'l"
  xr_Cancel :: "gotime \<Rightarrow> 'l \<Rightarrow> 'l"

record 'l InProcessRateLimiter =
  ip_perSecond :: int
  ip_burst :: int
  ip_limiters :: "Channel \<rightharpoonup> 'l"

definition NewInProcessRateLimiter :: "int \<Rightarrow> int \<Rightarrow> 'l InProcessRateLimiter" where
  "NewInProcessRateLimiter perSecond burst = \<lparr>ip_perSecond = perSecond, ip_burst = burst, ip_limiters = (\<lambda>c. None)\<rparr>"

definition limiterFor :: "'l Buckets \<Rightarrow> Channel \<Rightarrow> 'l InProcessRateLimiter \<Rightarrow> 'l \<times> 'l InProcessRateLimiter" where
  "limiterFor X channel R =
     (case ip_limiters R channel of
        Some l \<Rightarrow> (l, R)
      | None \<Rightarrow> (let l = xr_NewLimiter X (ip_perSecond R) (ip_burst R)
                 in (l, R\<lparr>ip_limiters := (ip_limiters R)(channel \<mapsto> l)\<rparr>)))"

definition InProcessRateLimiter_Allow ::
  "'l Buckets \<Rightarrow> gotime \<Rightarrow> Channel \<Rightarrow> 'l InProcessRateLimiter \<Rightarrow> allowance \<times> 'l InProcessRateLimiter" where
  "InProcessRateLimiter_Allow X now channel R0 =
     (let (l, R) = limiterFor X channel R0;
          put = (\<lambda>l. R\<lparr>ip_limiters := (ip_limiters R)(channel \<mapsto> l)\<rparr>);
          (ok, delay, l1) = xr_Reserve X now l
      in if \<not> ok then ((False, Second, None), put l1)
         else if delay > 0 then ((False, delay, None), put (xr_Cancel X now l1))
         else ((True, 0, None), put l1))"

end
