(* ===== verification/Codec_Sample.thy ===== *)
theory Codec_Sample
  imports Redis
begin

text \<open>
  A text codec of UUIDs that satisfies \<open>uuid_codec\<close>: 39 decimal digits.  It shows that what the
  development assumes of \<open>github.com/google/uuid\<close> can hold, and the witnesses run on it.
\<close>

definition decimal_text :: "uuid \<Rightarrow> string" where
  "decimal_text u = fixed_digits 39 (unat u)"

definition decimal_parse :: "string \<Rightarrow> uuid option" where
  "decimal_parse s = (if length s = 39 \<and> list_all is_digit s \<and> digits_val s < 2 ^ 128 then Some (of_nat (digits_val s)) else None)"

lemma decimal_codec: "uuid_codec decimal_text decimal_parse"
proof -
  have "decimal_parse (decimal_text u) = Some u" for u
  proof -
    have lt: "unat u < 2 ^ 128" using unsigned_less [of u] by simp
    also have "(2 :: nat) ^ 128 < 10 ^ 39" by simp
    finally have "digits_val (fixed_digits 39 (unat u)) = unat u" by (simp add: digits_val_fixed)
    then show ?thesis using lt by (simp add: decimal_parse_def decimal_text_def)
  qed
  then show ?thesis by (simp add: uuid_codec_def decimal_text_def)
qed

definition sample_codec :: codec where
  "sample_codec = \<lparr>cd_String = decimal_text, cd_Parse = decimal_parse, cd_zone = 0, cd_marshal_err = ''time'',
     cd_unmarshal_err = (\<lambda>s. ''json'')\<rparr>"

end
