(* ===== verification/Redis_Props.thy ===== *)
theory Redis_Props
  imports Codec_Sample Worker_Outcome
begin

text \<open>
  Correctness of the Redis adapters: a message read from a stream is the message that was
  published, reading accounts for every entry of a reply, and the limiters keep their contract
  under failures of Redis.
\<close>

section \<open>A published message is read back\<close>

text \<open>
  C9. Round trip through a stream: what \<open>Publish\<close> appends for a message, \<open>Read\<close> returns as
  that message with its stream and entry id, and it touches nothing else.
\<close>

theorem Queue_roundtrip:
  assumes codec: "uuid_codec (cd_String (rq_codec Q)) (cd_Parse (rq_codec Q))" and ok: "message_text_ok m"
    and pub: "Queue_Publish Q stream m w = (Inr (), w')"
  shows "\<exists>payload rep. rq_do Q (XADD stream [(messageField, payload)]) w = (rep, w') \<and> reply_err rep = None
    \<and> (\<forall>i consumer streams n block v v'. streams \<noteq> []
         \<and> rq_do Q (XREADGROUP (rq_group Q) consumer (read_args streams) n block) v
             = (RStreams [(stream, [(i, map_of [(messageField, payload)])])], v')
         \<longrightarrow> Queue_Read Q consumer streams n block v
             = (Inr [\<lparr>sm_Stream = stream, sm_ID = i, sm_Delivery = m\<rparr>], v'))"
proof -
  obtain payload where p: "marshalMessage (cd_String (rq_codec Q)) (cd_zone (rq_codec Q)) m = Some payload"
    using pub by (auto simp: Queue_Publish_def split: option.splits)
  obtain rep where rep: "rq_do Q (XADD stream [(messageField, payload)]) w = (rep, w')" "reply_err rep = None"
    using pub p by (auto simp: Queue_Publish_def split: option.splits prod.splits)
  have rb: "unmarshalMessage (cd_Parse (rq_codec Q)) payload = Some m" by (rule message_roundtrip [OF codec ok p])
  show ?thesis
    using rep rb by (intro exI [of _ payload] exI [of _ rep]) (auto simp: Queue_Read_def)
qed

section \<open>Reading accounts for every entry\<close>

text \<open>
  The wire: every command sent so far, and an arbitrary server that answers the \<open>k\<close>-th command.
\<close>

record wire =
  wi_sent :: "redis_cmd list"
  wi_reply :: "nat \<Rightarrow> redis_cmd \<Rightarrow> redis_reply"
  wi_clock :: gotime

definition wire_do :: "redis_cmd \<Rightarrow> wire \<Rightarrow> redis_reply \<times> wire" where
  "wire_do c w = (wi_reply w (length (wi_sent w)) c, w\<lparr>wi_sent := wi_sent w @ [c]\<rparr>)"

definition wire_Now :: "wire \<Rightarrow> gotime \<times> wire" where
  "wire_Now w = (wi_clock w, w)"

definition wire_queue :: "codec \<Rightarrow> string \<Rightarrow> wire Queue" where
  "wire_queue cd g = WithDLQ (DLQ_Publish \<lparr>dq_do = wire_do, dq_Now = wire_Now, dq_codec = cd\<rparr>)
     \<lparr>pr_IncPoison = id, pr_IncDLQ = (\<lambda>r. id)\<rparr> (NewQueue wire_do wire_Now cd g)"

definition decodes :: "codec \<Rightarrow> stream_entry \<Rightarrow> DeliveryMessage option" where
  "decodes cd e = Option.bind (snd e messageField) (unmarshalMessage (cd_Parse cd))"

fun is_ack :: "redis_cmd \<Rightarrow> bool" where
  "is_ack (XACK s g i) = True"
| "is_ack c = False"

definition acks :: "wire \<Rightarrow> redis_cmd list" where
  "acks w = filter is_ack (wi_sent w)"

definition good_entries :: "codec \<Rightarrow> string \<Rightarrow> stream_entry list \<Rightarrow> StreamMessage list" where
  "good_entries cd s es = [\<lparr>sm_Stream = s, sm_ID = fst e, sm_Delivery = the (decodes cd e)\<rparr>. e \<leftarrow> es, decodes cd e \<noteq> None]"

definition poison_acks :: "codec \<Rightarrow> string \<Rightarrow> string \<Rightarrow> stream_entry list \<Rightarrow> redis_cmd list" where
  "poison_acks cd g s es = [XACK s g (fst e). e \<leftarrow> es, decodes cd e = None]"

lemma wire_do_simps [simp]: "acks (snd (wire_do c w)) = acks w @ (if is_ack c then [c] else [])"
  "acks (w\<lparr>wi_sent := wi_sent w @ [c]\<rparr>) = acks w @ (if is_ack c then [c] else [])"
  by (simp_all add: wire_do_def acks_def)

lemma wire_queue_simps [simp]:
  "rq_do (wire_queue cd g) = wire_do" "rq_group (wire_queue cd g) = g" "rq_codec (wire_queue cd g) = cd"
  "rq_Now (wire_queue cd g) = wire_Now"
  "rq_metrics (wire_queue cd g) = Some \<lparr>pr_IncPoison = id, pr_IncDLQ = (\<lambda>r. id)\<rparr>"
  "rq_dlq (wire_queue cd g) = Some (DLQ_Publish \<lparr>dq_do = wire_do, dq_Now = wire_Now, dq_codec = cd\<rparr>)"
  by (simp_all add: wire_queue_def WithDLQ_def NewQueue_def)

lemma DLQ_Publish_acks:
  "acks (snd (DLQ_Publish \<lparr>dq_do = wire_do, dq_Now = wire_Now, dq_codec = cd\<rparr> msg w)) = acks w"
  by (auto simp: DLQ_Publish_def dlq_stamp_def wire_Now_def wire_do_def acks_def Let_def split: option.splits prod.splits)

lemma dropPoison_acks: "acks (dropPoison (wire_queue cd g) s i reason e w) = acks w @ [XACK s g i]"
  by (simp add: dropPoison_def Queue_Ack_def wire_Now_def DLQ_Publish_acks Let_def wire_do_def split: option.split)

lemma read_entries_wire:
  "fst (read_entries (wire_queue cd g) s es w) = good_entries cd s es
   \<and> acks (snd (read_entries (wire_queue cd g) s es w)) = acks w @ poison_acks cd g s es"
proof (induction es arbitrary: w)
  case (Cons e es)
  obtain i vals where e: "e = (i, vals)" by (cases e)
  show ?case
    by (simp add: e Cons.IH good_entries_def poison_acks_def decodes_def dropPoison_acks split: option.split bind_split)
qed (simp add: good_entries_def poison_acks_def)

lemma read_streams_wire:
  "fst (read_streams (wire_queue cd g) res w) = concat (map (\<lambda>(s, es). good_entries cd s es) res)
   \<and> acks (snd (read_streams (wire_queue cd g) res w)) = acks w @ concat (map (\<lambda>(s, es). poison_acks cd g s es) res)"
proof (induction res arbitrary: w)
  case (Cons x res)
  obtain s es where x: "x = (s, es)" by (cases x)
  show ?case
    using read_entries_wire [of cd g s es w]
    by (simp add: x split_beta Cons.IH)
qed simp

text \<open>
  C19. Every entry of a reply is accounted for, whatever the server answers to the other commands:
  \<open>Read\<close> returns the entries that decode, in the order of the reply, and acknowledges exactly the
  others, which it has sent to the dead-letter stream.
\<close>

theorem Queue_Read_accounts:
  assumes ne: "streams \<noteq> []"
    and reply: "wi_reply w (length (wi_sent w)) (XREADGROUP g consumer (read_args streams) n block) = RStreams res"
  shows "\<exists>w'. Queue_Read (wire_queue cd g) consumer streams n block w
       = (Inr (concat (map (\<lambda>(s, es). [\<lparr>sm_Stream = s, sm_ID = fst e, sm_Delivery = the (decodes cd e)\<rparr>. e \<leftarrow> es, decodes cd e \<noteq> None]) res)), w')
     \<and> filter is_ack (wi_sent w') = filter is_ack (wi_sent w)
         @ concat (map (\<lambda>(s, es). [XACK s g (fst e). e \<leftarrow> es, decodes cd e = None]) res)"
proof -
  let ?c = "XREADGROUP g consumer (read_args streams) n block"
  let ?w1 = "w\<lparr>wi_sent := wi_sent w @ [?c]\<rparr>"
  have "Queue_Read (wire_queue cd g) consumer streams n block w = apfst Inr (read_streams (wire_queue cd g) res ?w1)"
    using ne reply by (simp add: Queue_Read_def wire_do_def)
  moreover obtain out w' where "read_streams (wire_queue cd g) res ?w1 = (out, w')" by force
  ultimately show ?thesis
    using read_streams_wire [of cd g res ?w1]
    by (intro exI [of _ w']) (simp add: good_entries_def poison_acks_def acks_def)
qed

section \<open>Rate limiting under failures of Redis\<close>

definition limited_worker :: "'w Worker \<Rightarrow> 'w RedisRateLimiter \<Rightarrow> 'w Worker" where
  "limited_worker W R = W\<lparr>rl_Allow := (\<lambda>c w. case RedisRateLimiter_Allow R c w of ((ok, d, _), w1) \<Rightarrow> ((ok, d), w1))\<rparr>"

text \<open>
  Failing open: with \<open>failOpen\<close> set, a limiter that Redis fails lets the delivery through at
  its first question; without it, the limiter denies it, and so does a limiter that grants nothing.
\<close>

theorem RedisRateLimiter_failures:
  fixes W :: "'w Worker"
  defines "ask \<equiv> \<lambda>R c w. rrl_Allow R (rate_key c) (rrl_limit R) w"
  shows "fst (fst (RedisRateLimiter_Allow R c w)) =
      (case fst (ask R c w) of Inl e \<Rightarrow> rrl_failOpen R | Inr (n, d) \<Rightarrow> n > 0)
    \<and> (rrl_failOpen R \<and> isl (fst (ask R c (snd (wk_Now W w)))) \<longrightarrow>
         waitForRateLimit (limited_worker W R) c w = Some (True, snd (ask R c (snd (wk_Now W w)))))"
proof (intro conjI impI)
  show "fst (fst (RedisRateLimiter_Allow R c w)) = (case fst (ask R c w) of Inl e \<Rightarrow> rrl_failOpen R | Inr (n, d) \<Rightarrow> n > 0)"
    by (auto simp: RedisRateLimiter_Allow_def ask_def split: sum.splits prod.splits)
  assume open': "rrl_failOpen R \<and> isl (fst (ask R c (snd (wk_Now W w))))"
  obtain now w1 where now: "wk_Now W w = (now, w1)" by force
  obtain e w2 where "ask R c w1 = (Inl e, w2)" using open' now by (cases "ask R c w1") (auto elim: isl_def [THEN iffD1, elim_format])
  then show "waitForRateLimit (limited_worker W R) c w = Some (True, snd (ask R c (snd (wk_Now W w))))"
    using open' now by (simp add: waitForRateLimit_def limited_worker_def ask_def rate_loop.simps [of _ c] RedisRateLimiter_Allow_def)
qed


section \<open>Concrete runs\<close>

lemma year_1970: "year_of_day 719528 = 1970"
proof -
  have step: "days_before_year (Suc y) \<le> n \<Longrightarrow> year_from y n = year_from (Suc y) n"
    "n < days_before_year (Suc y) \<Longrightarrow> year_from y n = y" for y n by (subst year_from.simps, simp)+
  have "year_from 1965 719528 = 1970" by (simp add: step days_before_year_def)
  then show ?thesis by (simp add: year_of_day_def)
qed

lemma sample_time: "\<exists>s. MarshalTime 0 5000 = Some s"
  by (simp add: MarshalTime_def civil_of_day_def year_1970 epoch_day_def nanos_per_day_def Let_def split: prod.split)

text \<open>A server that grants every \<open>XADD\<close>.\<close>

definition sample_wire :: "redis_reply \<Rightarrow> wire" where
  "sample_wire rep = \<lparr>wi_sent = [], wi_reply = (\<lambda>k c. case c of XADD s v \<Rightarrow> ROk | _ \<Rightarrow> rep), wi_clock = 5000\<rparr>"

abbreviation sample_queue :: "wire Queue" where
  "sample_queue \<equiv> wire_queue sample_codec ''workers''"

theorem Queue_roundtrip_witness:
  "\<exists>w' payload. Queue_Publish sample_queue ''s'' (sm_Delivery sample_message) (sample_wire RNil) = (Inr (), w')
    \<and> Queue_Read sample_queue ''c'' [''s''] 1 0 (sample_wire (RStreams [(''s'', [(''1-0'', map_of [(messageField, payload)])])]))
      = (Inr [\<lparr>sm_Stream = ''s'', sm_ID = ''1-0'', sm_Delivery = sm_Delivery sample_message\<rparr>],
         snd (wire_do (XREADGROUP ''workers'' ''c'' (read_args [''s'']) 1 0)
            (sample_wire (RStreams [(''s'', [(''1-0'', map_of [(messageField, payload)])])]))))"
proof -
  obtain s where s: "MarshalTime 0 5000 = Some s" using sample_time by blast
  obtain w' where pub: "Queue_Publish sample_queue ''s'' (sm_Delivery sample_message) (sample_wire RNil) = (Inr (), w')"
    by (simp add: Queue_Publish_def marshalMessage_def message_json_def sample_codec_def sample_message_def s
        wire_do_def sample_wire_def reply_err_def)
  have codec: "uuid_codec (cd_String (rq_codec sample_queue)) (cd_Parse (rq_codec sample_queue))"
    by (simp add: sample_codec_def decimal_codec)
  have ok: "message_text_ok (sm_Delivery sample_message)"
    by (simp add: message_text_ok_def sample_message_def ChannelSMS_def PriorityHigh_def plain_quote plain_def)
  obtain payload where read: "\<And>i consumer streams n block v v'. streams \<noteq> [] \<Longrightarrow>
       wire_do (XREADGROUP ''workers'' consumer (read_args streams) n block) v
         = (RStreams [(''s'', [(i, map_of [(messageField, payload)])])], v') \<Longrightarrow>
       Queue_Read sample_queue consumer streams n block v
         = (Inr [\<lparr>sm_Stream = ''s'', sm_ID = i, sm_Delivery = sm_Delivery sample_message\<rparr>], v')"
    using Queue_roundtrip [OF codec ok pub] unfolding wire_queue_simps by blast
  show ?thesis
    by (rule exI [of _ w'], rule exI [of _ payload], rule conjI, rule pub, rule read)
      (simp_all add: wire_do_def sample_wire_def)
qed

theorem Queue_Read_accounts_witness:
  "\<exists>w'. Queue_Read sample_queue ''c'' [''s''] 2 0 (sample_wire (RStreams [(''s'', [(''1-0'', Map.empty), (''2-0'', [messageField \<mapsto> ''x'']) ])])) = (Inr [], w')
    \<and> filter is_ack (wi_sent w') = [XACK ''s'' ''workers'' ''1-0'', XACK ''s'' ''workers'' ''2-0'']"
proof -
  let ?rep = "RStreams [(''s'', [(''1-0'', Map.empty), (''2-0'', [messageField \<mapsto> ''x''])])]"
  have bad: "decodes sample_codec (''1-0'', Map.empty) = None" "decodes sample_codec (''2-0'', [messageField \<mapsto> ''x'']) = None"
    by (simp_all add: decodes_def unmarshalMessage_def parse_json_def parse_value.simps [of _ "''x''"] is_ws_def scan_number_def
        scan_sign_def scan_whole_def is_digit_def)
  have "wi_reply (sample_wire ?rep) (length (wi_sent (sample_wire ?rep))) (XREADGROUP ''workers'' ''c'' (read_args [''s'']) 2 0) = ?rep"
    by (simp add: sample_wire_def)
  from Queue_Read_accounts [OF _ this, of sample_codec] bad show ?thesis
    by (simp add: sample_wire_def)
qed

theorem RedisRateLimiter_failures_witness:
  "waitForRateLimit (limited_worker sample_worker (NewRedisRateLimiter (\<lambda>k l w. (Inl ''down'', w)) 10 5 True)) ChannelSMS sample_world
     = Some (True, snd (wk_Now sample_worker sample_world))"
  using RedisRateLimiter_failures [of "NewRedisRateLimiter (\<lambda>k l w. (Inl ''down'', w)) 10 5 True" ChannelSMS sample_world sample_worker]
  by (simp add: NewRedisRateLimiter_def)

end
