(* ===== verification/Auth.thy ===== *)
theory Auth
  imports GoStrings Domain
begin

text \<open>
  The package \<open>internal/platform/auth\<close>: the check of the signing secret, issuing and reading bearer
  tokens, and the user of a request context.  The library \<open>golang-jwt\<close> is two arguments: \<open>sign\<close>,
  which signs claims with an algorithm and a key, and \<open>parse\<close>, which asks a function for the key of
  the token's algorithm, checks the signature and, at an instant, the time claims.
\<close>

section \<open>Secrets\<close>

datatype auth_error = ErrEmptySecret | ErrSecretTooShort | ErrInvalidToken | ErrMissingUserID | ErrSigning string

definition minSecretLen :: nat where
  "minSecretLen = 32"

definition DemoTokenTTL :: duration where
  "DemoTokenTTL = 365 * 24 * Hour"

definition ValidateSecret :: "string \<Rightarrow> auth_error option" where
  "ValidateSecret secret =
     (if secret = [] then Some ErrEmptySecret
      else if length secret < minSecretLen then Some ErrSecretTooShort
      else None)"

section \<open>Tokens\<close>

record claims =
  cl_UserID :: string
  cl_Subject :: string
  cl_IssuedAt :: gotime
  cl_ExpiresAt :: gotime

text \<open>\<open>jwt.NewNumericDate\<close> keeps whole seconds.\<close>

definition NumericDate :: "gotime \<Rightarrow> gotime" where
  "NumericDate t = t div Second * Second"

type_synonym jwt_sign = "string \<Rightarrow> claims \<Rightarrow> string \<Rightarrow> string + string"
type_synonym jwt_parse = "(string \<Rightarrow> string option) \<Rightarrow> gotime \<Rightarrow> string \<Rightarrow> (claims \<times> bool) option"

definition SignToken :: "jwt_sign \<Rightarrow> gotime \<Rightarrow> string \<Rightarrow> string \<Rightarrow> duration \<Rightarrow> auth_error + string" where
  "SignToken sign now secret user0 ttl =
     (case ValidateSecret secret of
        Some e \<Rightarrow> Inl e
      | None \<Rightarrow>
          (let userID = TrimSpace user0 in
           if userID = [] then Inl ErrMissingUserID
           else case sign ''HS256'' \<lparr>cl_UserID = userID, cl_Subject = userID, cl_IssuedAt = NumericDate now,
                                     cl_ExpiresAt = NumericDate (now + ttl)\<rparr> secret of
                  Inl e \<Rightarrow> Inl (ErrSigning e)
                | Inr token \<Rightarrow> Inr token))"

definition hs256_key :: "string \<Rightarrow> string \<Rightarrow> string option" where
  "hs256_key secret alg = (if alg \<noteq> ''HS256'' then None else Some secret)"

definition ParseToken :: "jwt_parse \<Rightarrow> gotime \<Rightarrow> string \<Rightarrow> string \<Rightarrow> auth_error + string" where
  "ParseToken parse now secret token0 =
     (case ValidateSecret secret of
        Some e \<Rightarrow> Inl e
      | None \<Rightarrow>
          (let token = TrimSpace token0 in
           if token = [] then Inl ErrInvalidToken
           else case parse (hs256_key secret) now token of
                  None \<Rightarrow> Inl ErrInvalidToken
                | Some (c, valid) \<Rightarrow>
                    if \<not> valid then Inl ErrInvalidToken
                    else if TrimSpace (cl_UserID c) = [] then Inl ErrMissingUserID
                    else Inr (cl_UserID c)))"

section \<open>The user of a request\<close>

text \<open>A context as far as this package sees it: the user it carries, if any.\<close>

definition WithUserID :: "string option \<Rightarrow> string \<Rightarrow> string option" where
  "WithUserID ctx userID = Some userID"

definition UserID :: "string option \<Rightarrow> string" where
  "UserID ctx = (case ctx of Some u \<Rightarrow> u | None \<Rightarrow> [])"

section \<open>Trimming\<close>

lemma strip_done: "r \<in> set runes \<Longrightarrow> r \<noteq> [] \<Longrightarrow> \<not> prefix r (strip runes s)"
proof (induction runes s rule: strip.induct)
  case (1 runes s)
  show ?case
  proof (cases "find (\<lambda>r. r \<noteq> [] \<and> prefix r s) runes")
    case None
    then have "strip runes s = s" by (subst strip.simps) simp
    then show ?thesis using None 1 by (auto simp: find_None_iff)
  next
    case (Some x)
    then have "strip runes s = strip runes (drop (length x) s)" by (subst strip.simps) simp
    then show ?thesis using 1(1) [OF Some 1(2,3)] by simp
  qed
qed

lemma strip_stable: "(\<And>r. r \<in> set runes \<Longrightarrow> r \<noteq> [] \<Longrightarrow> \<not> prefix r s) \<Longrightarrow> strip runes s = s"
  by (subst strip.simps) (auto simp: find_Some_iff split: option.splits)

lemma strip_suffix: "suffix (strip runes s) s"
proof (induction runes s rule: strip.induct)
  case (1 runes s)
  show ?case
  proof (cases "find (\<lambda>r. r \<noteq> [] \<and> prefix r s) runes")
    case None
    then show ?thesis by (subst strip.simps) simp
  next
    case (Some x)
    then have "strip runes s = strip runes (drop (length x) s)" by (subst strip.simps) simp
    then show ?thesis using 1 [OF Some] suffix_drop [of "length x" s] by (metis suffix_order.trans)
  qed
qed

lemma TrimSpace_idem: "TrimSpace (TrimSpace s) = TrimSpace s"
proof -
  define l where "l = strip space_runes s"
  define t where "t = rev (strip (map rev space_runes) (rev l))"
  have t: "TrimSpace s = t" by (simp add: TrimSpace_def t_def l_def)
  have "prefix t l" using strip_suffix [of "map rev space_runes" "rev l"] by (simp add: t_def suffix_to_prefix)
  then have "strip space_runes t = t"
    using strip_done [of _ space_runes s] by (intro strip_stable) (auto simp: l_def dest: prefix_order.trans)
  moreover have "strip (map rev space_runes) (rev t) = rev t"
    using strip_done [of _ "map rev space_runes" "rev l"] by (intro strip_stable) (auto simp: t_def)
  ultimately have "TrimSpace t = t" unfolding TrimSpace_def by simp
  then show ?thesis by (simp only: t)
qed

section \<open>A signed token is accepted\<close>

text \<open>
  What the library documents: a token it has signed parses to its claims when the key function
  returns the signing key for its algorithm and the token has not expired; and the token text has no
  blanks at its ends.
\<close>

definition jwt_library :: "jwt_sign \<Rightarrow> jwt_parse \<Rightarrow> bool" where
  "jwt_library sign parse \<longleftrightarrow>
     (\<forall>alg c key token keys now. sign alg c key = Inr token \<longrightarrow>
        token \<noteq> [] \<and> TrimSpace token = token
        \<and> (keys alg = Some key \<and> cl_IssuedAt c \<le> now \<and> now < cl_ExpiresAt c \<longrightarrow> parse keys now token = Some (c, True)))"

text \<open>
  A token issued for a user is accepted until it expires, and it names that user (without the
  blanks around the name).
\<close>

theorem token_roundtrip:
  assumes lib: "jwt_library sign parse" and issued: "SignToken sign t0 secret user ttl = Inr token"
    and now: "t0 \<le> now" "now < NumericDate (t0 + ttl)"
  shows "ParseToken parse now secret token = Inr (TrimSpace user)"
proof -
  let ?c = "\<lparr>cl_UserID = TrimSpace user, cl_Subject = TrimSpace user, cl_IssuedAt = NumericDate t0,
     cl_ExpiresAt = NumericDate (t0 + ttl)\<rparr>"
  have sec: "ValidateSecret secret = None" and u: "TrimSpace user \<noteq> []" and tok: "sign ''HS256'' ?c secret = Inr token"
    using issued by (auto simp: SignToken_def Let_def split: option.splits if_splits sum.splits)
  have "NumericDate t0 \<le> t0"
    using div_mult_mod_eq [of t0 Second] pos_mod_sign [of Second t0] by (simp add: NumericDate_def Second_def)
  then have valid: "hs256_key secret ''HS256'' = Some secret \<and> cl_IssuedAt ?c \<le> now \<and> now < cl_ExpiresAt ?c"
    using now by (simp add: hs256_key_def)
  note law = lib [unfolded jwt_library_def, rule_format, OF tok]
  have "parse (hs256_key secret) now token = Some (?c, True)" "token \<noteq> []" "TrimSpace token = token"
    using law valid by blast+
  then show ?thesis using sec u by (simp add: ParseToken_def TrimSpace_idem)
qed


section \<open>A concrete token\<close>

definition sample_claims :: claims where
  "sample_claims = \<lparr>cl_UserID = ''alice'', cl_Subject = ''alice'', cl_IssuedAt = 0, cl_ExpiresAt = Hour\<rparr>"

definition sample_secret :: string where
  "sample_secret = replicate 32 CHR ''k''"

text \<open>A library that knows one token.\<close>

definition sample_sign :: jwt_sign where
  "sample_sign alg c key = (if alg = ''HS256'' \<and> c = sample_claims \<and> key = sample_secret then Inr ''t'' else Inl ''key'')"

definition sample_parse :: jwt_parse where
  "sample_parse keys now token =
     (if token = ''t'' \<and> keys ''HS256'' = Some sample_secret \<and> now < cl_ExpiresAt sample_claims then Some (sample_claims, True) else None)"

lemma sample_trim: "TrimSpace ''t'' = ''t''" "TrimSpace ''alice'' = ''alice''"
  by (simp_all add: TrimSpace_def space_runes_def strip.simps [of _ "''t''"] strip.simps [of _ "''alice''"]
      strip.simps [of _ "''ecila''"])

theorem token_roundtrip_witness:
  "SignToken sample_sign 0 sample_secret ''alice'' Hour = Inr ''t''
   \<and> ParseToken sample_parse 5 sample_secret ''t'' = Inr (TrimSpace ''alice'')"
proof -
  have lib: "jwt_library sample_sign sample_parse"
    by (auto simp: jwt_library_def sample_sign_def sample_parse_def sample_trim split: if_splits)
  have signed: "SignToken sample_sign 0 sample_secret ''alice'' Hour = Inr ''t''"
    by (simp add: SignToken_def ValidateSecret_def minSecretLen_def sample_secret_def sample_sign_def sample_claims_def
        sample_trim NumericDate_def Hour_def Second_def)
  have "NumericDate (0 + Hour) = Hour" by (simp add: NumericDate_def Hour_def Second_def)
  then show ?thesis using signed token_roundtrip [OF lib signed, of 5] by (simp add: Hour_def)
qed

end
