(* ===== verification/Http.thy ===== *)
theory Http
  imports Messages Service Auth Platform
begin

text \<open>
  The package \<open>internal/transport/http\<close>, first part: the pagination cursor (cursor.go), the wire
  types (dto.go), the error envelope (errors.go) and the handlers (handlers.go).  A handler is a
  function from a request and a world to a response and a world; the service behind it is the record
  of its port.  Query parameters and headers are functions that return the empty string for a
  missing name, as \<open>Get\<close> does.  \<open>cx\<close> holds what the handlers take from outside: the text codec of
  UUIDs, the zone of the process, the text of decoding errors.
\<close>

section \<open>Requests and responses\<close>

record HttpRequest =
  hr_Method :: string
  hr_Path :: string
  hr_Header :: "string \<Rightarrow> string"
  hr_Query :: "string \<Rightarrow> string"
  hr_PathID :: string
  hr_Body :: string
  hr_User :: "string option"
  hr_Correlation :: "string option"

record HttpResponse =
  hs_Status :: int
  hs_ContentType :: string
  hs_Headers :: "(string \<times> string) list"
  hs_Body :: string

record http_ctx =
  cx_String :: "uuid \<Rightarrow> string"
  cx_Parse :: "string \<Rightarrow> uuid option"
  cx_zone :: int
  cx_json_err :: "string \<Rightarrow> string"

section \<open>Errors (errors.go)\<close>

text \<open>
  \<open>writeJSON\<close>: the encoder writes the document and a line end, or nothing when a value has no JSON.
\<close>

definition writeJSON :: "int \<Rightarrow> json option \<Rightarrow> HttpResponse" where
  "writeJSON status v =
     \<lparr>hs_Status = status, hs_ContentType = ''application/json'', hs_Headers = [],
      hs_Body = (case v of None \<Rightarrow> [] | Some j \<Rightarrow> render j @ [CHR 0x0A])\<rparr>"

record errorResponse =
  er_Error :: string
  er_Field :: string
  er_Message :: string

definition error_json :: "errorResponse \<Rightarrow> json" where
  "error_json e = JObject
     ([(''error'', json_string (er_Error e))]
      @ (if er_Field e = [] then [] else [(''field'', json_string (er_Field e))])
      @ [(''message'', json_string (er_Message e))])"

text \<open>The text of an error (\<open>Error()\<close>).\<close>

fun error_text :: "error \<Rightarrow> string" where
  "error_text ErrNotFound = ''not found''"
| "error_text ErrConflict = ''conflict''"
| "error_text ErrValidation = ''validation error''"
| "error_text (ErrTemplateVariablesMissing s) = ''required template variables missing: '' @ s"
| "error_text ErrCancelNotAllowed = ''notification cannot be cancelled in its current state''"
| "error_text (ValidationError f m) = (if f = [] then m else f @ '': '' @ m)"
| "error_text (ErrInfra s) = s"

definition error_reply :: "int \<Rightarrow> string \<Rightarrow> string \<Rightarrow> string \<Rightarrow> HttpResponse" where
  "error_reply status err field message =
     writeJSON status (Some (error_json \<lparr>er_Error = err, er_Field = field, er_Message = message\<rparr>))"

definition writeError :: "error \<Rightarrow> HttpResponse" where
  "writeError err =
     (case err of
        ValidationError f m \<Rightarrow> error_reply 400 ''validation_error'' f m
      | ErrValidation \<Rightarrow> error_reply 400 ''validation_error'' [] (error_text err)
      | ErrTemplateVariablesMissing s \<Rightarrow> error_reply 400 ''template_variables_missing'' [] (error_text err)
      | ErrNotFound \<Rightarrow> error_reply 404 ''not_found'' [] ''resource not found''
      | ErrCancelNotAllowed \<Rightarrow> error_reply 409 ''cancel_not_allowed'' [] (error_text err)
      | ErrConflict \<Rightarrow> error_reply 409 ''conflict'' [] (error_text err)
      | ErrInfra s \<Rightarrow> error_reply 500 ''internal_error'' [] ''an unexpected error occurred'')"

section \<open>The cursor (cursor.go)\<close>

definition encodeCursor :: "(uuid \<Rightarrow> string) \<Rightarrow> uuid \<Rightarrow> gotime option \<Rightarrow> string" where
  "encodeCursor uuid_String i t =
     (let ts = (case t of None \<Rightarrow> 0 | Some x \<Rightarrow> wrap64 x)
      in b64_EncodeToString (FormatInt ts @ ''|'' @ uuid_String i))"

definition split_bar :: "string \<Rightarrow> (string \<times> string) option" where
  "split_bar s =
     (case dropWhile (\<lambda>c. c \<noteq> CHR ''|'') s of [] \<Rightarrow> None
      | _ # r \<Rightarrow> Some (takeWhile (\<lambda>c. c \<noteq> CHR ''|'') s, r))"

definition decodeCursor :: "(string \<Rightarrow> uuid option) \<Rightarrow> string \<Rightarrow> (uuid \<times> gotime) option" where
  "decodeCursor uuid_Parse s = do {
     raw \<leftarrow> b64_DecodeString s;
     (a, b) \<leftarrow> split_bar raw;
     ts \<leftarrow> ParseInt a;
     i \<leftarrow> uuid_Parse b;
     Some (i, ts)
   }"

definition parseInt :: "string \<Rightarrow> int option" where
  "parseInt = Atoi"

definition parseQueryTime :: "string \<Rightarrow> gotime option" where
  "parseQueryTime = ParseRFC3339"

section \<open>Request bodies (dto.go)\<close>

record createRequest =
  cq_Recipient :: string
  cq_Channel :: string
  cq_Priority :: string
  cq_Content :: string
  cq_TemplateID :: "string option"
  cq_Variables :: "string \<rightharpoonup> string"
  cq_IdempotencyKey :: "string option"
  cq_SendAt :: "gotime option"

definition zero_createRequest :: createRequest where
  "zero_createRequest = \<lparr>cq_Recipient = [], cq_Channel = [], cq_Priority = [], cq_Content = [], cq_TemplateID = None,
     cq_Variables = (\<lambda>k. None), cq_IdempotencyKey = None, cq_SendAt = None\<rparr>"

text \<open>Decoding a JSON object into a \<open>map[string]string\<close>: later members win.\<close>

fun decode_map :: "(string \<times> json) list \<Rightarrow> (string \<rightharpoonup> string) \<Rightarrow> (string \<rightharpoonup> string) option" where
  "decode_map [] m = Some m"
| "decode_map ((k, v) # ms) m =
     (case (unquote_body k, decode_string v []) of
        (Some key, Some x) \<Rightarrow> decode_map ms (m(key \<mapsto> x))
      | _ \<Rightarrow> None)"

definition decode_variables :: "json \<Rightarrow> (string \<rightharpoonup> string) \<Rightarrow> (string \<rightharpoonup> string) option" where
  "decode_variables v old =
     (case v of JObject ms \<Rightarrow> decode_map ms old | JNull \<Rightarrow> Some (\<lambda>k. None) | _ \<Rightarrow> None)"

definition create_fields :: "string list" where
  "create_fields = [''recipient'', ''channel'', ''priority'', ''content'', ''template_id'', ''variables'', ''idempotency_key'', ''send_at'']"

definition set_create_field :: "string \<Rightarrow> json \<Rightarrow> createRequest \<Rightarrow> createRequest option" where
  "set_create_field f v r =
     (if f = ''recipient'' then map_option (\<lambda>x. r\<lparr>cq_Recipient := x\<rparr>) (decode_string v (cq_Recipient r))
      else if f = ''channel'' then map_option (\<lambda>x. r\<lparr>cq_Channel := x\<rparr>) (decode_string v (cq_Channel r))
      else if f = ''priority'' then map_option (\<lambda>x. r\<lparr>cq_Priority := x\<rparr>) (decode_string v (cq_Priority r))
      else if f = ''content'' then map_option (\<lambda>x. r\<lparr>cq_Content := x\<rparr>) (decode_string v (cq_Content r))
      else if f = ''template_id'' then map_option (\<lambda>x. r\<lparr>cq_TemplateID := x\<rparr>) (decode_pointer (\<lambda>v. decode_string v []) v)
      else if f = ''variables'' then map_option (\<lambda>x. r\<lparr>cq_Variables := x\<rparr>) (decode_variables v (cq_Variables r))
      else if f = ''idempotency_key'' then map_option (\<lambda>x. r\<lparr>cq_IdempotencyKey := x\<rparr>) (decode_pointer (\<lambda>v. decode_string v []) v)
      else map_option (\<lambda>x. r\<lparr>cq_SendAt := x\<rparr>) (decode_pointer (\<lambda>v. decode_time v zero_time) v))"

definition decode_createRequest :: "json \<Rightarrow> createRequest option" where
  "decode_createRequest v = decode_struct create_fields True set_create_field v zero_createRequest"

text \<open>The key of the body wins over the one of the header; an empty key counts as none.\<close>

definition choose_key :: "string option \<Rightarrow> string \<Rightarrow> string option" where
  "choose_key body headerKey =
     (if body \<noteq> None \<and> body \<noteq> Some [] then body else if headerKey \<noteq> [] then Some headerKey else None)"

definition createRequest_toInput :: "http_ctx \<Rightarrow> createRequest \<Rightarrow> string \<Rightarrow> CreateInput result" where
  "createRequest_toInput cx r headerKey =
     (let inp = \<lparr>in_UserID = [], in_Recipient = cq_Recipient r, in_Channel = cq_Channel r, in_Priority = cq_Priority r,
           in_TemplateID = None, in_Content = cq_Content r, in_Variables = cq_Variables r, in_IdempotencyKey = None,
           in_SendAt = cq_SendAt r\<rparr>;
          withKey = (\<lambda>inp. inp\<lparr>in_IdempotencyKey := choose_key (cq_IdempotencyKey r) headerKey\<rparr>)
      in case cq_TemplateID r of
           None \<Rightarrow> Inr (withKey inp)
         | Some t \<Rightarrow>
             if t = [] then Inr (withKey inp)
             else case cx_Parse cx t of
                 None \<Rightarrow> Inl (NewValidationError ''template_id'' ''must be a valid UUID'')
               | Some i \<Rightarrow> Inr (withKey (inp\<lparr>in_TemplateID := Some i\<rparr>)))"

record batchRequest =
  bq_IdempotencyKey :: "string option"
  bq_Notifications :: "createRequest list"

definition batch_fields :: "string list" where
  "batch_fields = [''idempotency_key'', ''notifications'']"

definition set_batch_field :: "string \<Rightarrow> json \<Rightarrow> batchRequest \<Rightarrow> batchRequest option" where
  "set_batch_field f v r =
     (if f = ''idempotency_key'' then map_option (\<lambda>x. r\<lparr>bq_IdempotencyKey := x\<rparr>) (decode_pointer (\<lambda>v. decode_string v []) v)
      else case v of
          JArray vs \<Rightarrow> map_option (\<lambda>x. r\<lparr>bq_Notifications := x\<rparr>) (decode_list decode_createRequest vs)
        | JNull \<Rightarrow> Some (r\<lparr>bq_Notifications := []\<rparr>)
        | _ \<Rightarrow> None)"

definition decode_batchRequest :: "json \<Rightarrow> batchRequest option" where
  "decode_batchRequest v =
     decode_struct batch_fields True set_batch_field v \<lparr>bq_IdempotencyKey = None, bq_Notifications = []\<rparr>"

fun items_toInput :: "http_ctx \<Rightarrow> createRequest list \<Rightarrow> CreateInput list result" where
  "items_toInput cx [] = Inr []"
| "items_toInput cx (r # rs) =
     (case createRequest_toInput cx r [] of
        Inl err \<Rightarrow> Inl err
      | Inr item \<Rightarrow> (case items_toInput cx rs of Inl err \<Rightarrow> Inl err | Inr items \<Rightarrow> Inr (item # items)))"

definition batchRequest_toInput :: "http_ctx \<Rightarrow> batchRequest \<Rightarrow> string \<Rightarrow> BatchInput result" where
  "batchRequest_toInput cx r headerKey =
     (case items_toInput cx (bq_Notifications r) of
        Inl err \<Rightarrow> Inl err
      | Inr items \<Rightarrow> Inr \<lparr>bin_UserID = [], bin_IdempotencyKey = choose_key (bq_IdempotencyKey r) headerKey, bin_Items = items\<rparr>)"

section \<open>Responses (dto.go)\<close>

text \<open>An object in which a member may have no JSON: then the whole has none.\<close>

fun json_members :: "(string \<times> json option) list \<Rightarrow> (string \<times> json) list option" where
  "json_members [] = Some []"
| "json_members ((k, v) # ms) =
     (case v of None \<Rightarrow> None | Some j \<Rightarrow> map_option ((#) (k, j)) (json_members ms))"

definition json_object :: "(string \<times> json option) list \<Rightarrow> json option" where
  "json_object ms = map_option JObject (json_members ms)"

fun json_array :: "json option list \<Rightarrow> json option" where
  "json_array [] = Some (JArray [])"
| "json_array (v # vs) =
     (case (v, json_array vs) of (Some j, Some (JArray js)) \<Rightarrow> Some (JArray (j # js)) | _ \<Rightarrow> None)"

definition json_time :: "http_ctx \<Rightarrow> gotime \<Rightarrow> json option" where
  "json_time cx t = map_option JString (MarshalTime (cx_zone cx) t)"

definition json_int :: "int \<Rightarrow> json option" where
  "json_int n = Some (JNumber (FormatInt n))"

text \<open>A member with \<open>omitempty\<close> on a pointer.\<close>

definition optional :: "string \<Rightarrow> ('a \<Rightarrow> json option) \<Rightarrow> 'a option \<Rightarrow> (string \<times> json option) list" where
  "optional k f x = (case x of None \<Rightarrow> [] | Some y \<Rightarrow> [(k, f y)])"

record deliveryResponse =
  dr_ID :: uuid
  dr_Status :: string
  dr_AttemptCount :: int
  dr_ProviderMessageID :: "string option"
  dr_LastError :: "string option"
  dr_NextRetryAt :: "gotime option"
  dr_SendAt :: "gotime option"
  dr_UpdatedAt :: gotime

record notificationResponse =
  nr_ID :: uuid
  nr_BatchID :: "uuid option"
  nr_Recipient :: string
  nr_Channel :: string
  nr_Priority :: string
  nr_Status :: string
  nr_Content :: string
  nr_CreatedAt :: gotime
  nr_Deliveries :: "deliveryResponse list"

definition toNotificationSummaryResponse :: "Request \<Rightarrow> notificationResponse" where
  "toNotificationSummaryResponse req =
     \<lparr>nr_ID = r_ID req, nr_BatchID = r_BatchID req, nr_Recipient = r_Recipient req, nr_Channel = r_Channel req,
      nr_Priority = r_Priority req, nr_Status = RequestStatus_string (r_Status req), nr_Content = [],
      nr_CreatedAt = r_CreatedAt req, nr_Deliveries = []\<rparr>"

definition toDeliveryResponse :: "Delivery \<Rightarrow> deliveryResponse" where
  "toDeliveryResponse d =
     \<lparr>dr_ID = d_ID d, dr_Status = DeliveryStatus_string (d_Status d), dr_AttemptCount = d_AttemptCount d,
      dr_ProviderMessageID = d_ProviderMessageID d, dr_LastError = d_LastError d, dr_NextRetryAt = d_NextRetryAt d,
      dr_SendAt = d_SendAt d, dr_UpdatedAt = d_UpdatedAt d\<rparr>"

definition toNotificationResponse :: "Request \<Rightarrow> Delivery list \<Rightarrow> notificationResponse" where
  "toNotificationResponse req ds =
     (toNotificationSummaryResponse req)\<lparr>nr_Content := r_RenderedContent req, nr_Deliveries := map toDeliveryResponse ds\<rparr>"

definition json_uuid :: "http_ctx \<Rightarrow> uuid \<Rightarrow> json option" where
  "json_uuid cx i = Some (json_string (cx_String cx i))"

definition delivery_json :: "http_ctx \<Rightarrow> deliveryResponse \<Rightarrow> json option" where
  "delivery_json cx d = json_object
     ([(''id'', json_uuid cx (dr_ID d)), (''status'', Some (json_string (dr_Status d))), (''attempt_count'', json_int (dr_AttemptCount d))]
      @ optional ''provider_message_id'' (Some \<circ> json_string) (dr_ProviderMessageID d)
      @ optional ''last_error'' (Some \<circ> json_string) (dr_LastError d)
      @ optional ''next_retry_at'' (json_time cx) (dr_NextRetryAt d)
      @ optional ''send_at'' (json_time cx) (dr_SendAt d)
      @ [(''updated_at'', json_time cx (dr_UpdatedAt d))])"

definition notification_json :: "http_ctx \<Rightarrow> notificationResponse \<Rightarrow> json option" where
  "notification_json cx n = json_object
     ([(''id'', json_uuid cx (nr_ID n))]
      @ optional ''batch_id'' (json_uuid cx) (nr_BatchID n)
      @ [(''recipient'', Some (json_string (nr_Recipient n))), (''channel'', Some (json_string (nr_Channel n))),
         (''priority'', Some (json_string (nr_Priority n))), (''status'', Some (json_string (nr_Status n)))]
      @ (if nr_Content n = [] then [] else [(''content'', Some (json_string (nr_Content n)))])
      @ [(''created_at'', json_time cx (nr_CreatedAt n))]
      @ (if nr_Deliveries n = [] then [] else [(''deliveries'', json_array (map (delivery_json cx) (nr_Deliveries n)))]))"

record batchResponse =
  bs_ID :: uuid
  bs_TotalCount :: int
  bs_PendingCount :: int
  bs_SentCount :: int
  bs_FailedCount :: int
  bs_CancelledCount :: int
  bs_CreatedAt :: gotime

definition toBatchResponse :: "Batch \<Rightarrow> batchResponse" where
  "toBatchResponse b =
     \<lparr>bs_ID = b_ID b, bs_TotalCount = b_TotalCount b, bs_PendingCount = b_PendingCount b, bs_SentCount = b_SentCount b,
      bs_FailedCount = b_FailedCount b, bs_CancelledCount = b_CancelledCount b, bs_CreatedAt = b_CreatedAt b\<rparr>"

definition batch_members :: "http_ctx \<Rightarrow> batchResponse \<Rightarrow> (string \<times> json option) list" where
  "batch_members cx b =
     [(''id'', json_uuid cx (bs_ID b)), (''total_count'', json_int (bs_TotalCount b)), (''pending_count'', json_int (bs_PendingCount b)),
      (''sent_count'', json_int (bs_SentCount b)), (''failed_count'', json_int (bs_FailedCount b)),
      (''cancelled_count'', json_int (bs_CancelledCount b)), (''created_at'', json_time cx (bs_CreatedAt b))]"

record listResponse =
  lr_Items :: "notificationResponse list"
  lr_NextCursor :: "string option"

definition list_json :: "http_ctx \<Rightarrow> listResponse \<Rightarrow> json option" where
  "list_json cx r = json_object
     ([(''items'', json_array (map (notification_json cx) (lr_Items r)))]
      @ optional ''next_cursor'' (Some \<circ> json_string) (lr_NextCursor r))"

section \<open>Handlers (handlers.go)\<close>

definition maxBodyBytes :: nat where
  "maxBodyBytes = 1048576"

record 'w NotificationService =
  ns_Create :: "string \<Rightarrow> CreateInput \<Rightarrow> 'w \<Rightarrow> CreateResult result \<times> 'w"
  ns_CreateBatch :: "string \<Rightarrow> BatchInput \<Rightarrow> 'w \<Rightarrow> BatchCreateResult result \<times> 'w"
  ns_Get :: "string \<Rightarrow> uuid \<Rightarrow> 'w \<Rightarrow> View result \<times> 'w"
  ns_List :: "ListFilter \<Rightarrow> 'w \<Rightarrow> Page result \<times> 'w"
  ns_Cancel :: "string \<Rightarrow> uuid \<Rightarrow> 'w \<Rightarrow> Request result \<times> 'w"
  ns_GetBatch :: "string \<Rightarrow> uuid \<Rightarrow> 'w \<Rightarrow> Batch result \<times> 'w"

text \<open>The port, provided by the notification service.\<close>

definition service_port :: "'w Service \<Rightarrow> 'w NotificationService" where
  "service_port S =
     \<lparr>ns_Create = Create S, ns_CreateBatch = Service_CreateBatch S, ns_Get = Get S, ns_List = List S,
      ns_Cancel = Cancel S, ns_GetBatch = GetBatch S\<rparr>"

type_synonym 'w handler = "HttpRequest \<Rightarrow> 'w \<Rightarrow> HttpResponse \<times> 'w"

definition userIDFromContext :: "HttpRequest \<Rightarrow> HttpResponse + string" where
  "userIDFromContext r =
     (if UserID (hr_User r) = [] then Inl (error_reply 401 ''unauthorized'' [] ''authentication required'')
      else Inr (UserID (hr_User r)))"

text \<open>
  The decoder reads one value, at most \<open>maxBodyBytes\<close> far; what follows the value is not looked at.
\<close>

definition decodeJSON :: "http_ctx \<Rightarrow> (json \<Rightarrow> 'a option) \<Rightarrow> string \<Rightarrow> 'a result" where
  "decodeJSON cx d body =
     (let seen = take maxBodyBytes body;
          invalid = Inl (NewValidationError ''body'' (''invalid JSON: '' @ cx_json_err cx body))
      in case parse_value max_depth seen of
           Some (v, _) \<Rightarrow> (case d v of Some x \<Rightarrow> Inr x | None \<Rightarrow> invalid)
         | None \<Rightarrow>
             if skip_ws seen = [] \<and> length body \<le> maxBodyBytes
             then Inl (NewValidationError ''body'' ''request body is required'')
             else invalid)"

definition createNotification :: "http_ctx \<Rightarrow> 'w NotificationService \<Rightarrow> 'w handler" where
  "createNotification cx svc r w =
     (case userIDFromContext r of
        Inl resp \<Rightarrow> (resp, w)
      | Inr userID \<Rightarrow>
          (case decodeJSON cx decode_createRequest (hr_Body r) of
             Inl err \<Rightarrow> (writeError err, w)
           | Inr body \<Rightarrow>
               (case createRequest_toInput cx body (hr_Header r ''Idempotency-Key'') of
                  Inl err \<Rightarrow> (writeError err, w)
                | Inr inp \<Rightarrow>
                    (case ns_Create svc (CorrelationID (hr_Correlation r)) (inp\<lparr>in_UserID := userID\<rparr>) w of
                       (Inl err, w1) \<Rightarrow> (writeError err, w1)
                     | (Inr res, w1) \<Rightarrow>
                         (writeJSON (if cr_Duplicate res then 200 else 202)
                            (notification_json cx (toNotificationResponse (cr_Request res) [])), w1)))))"

definition createBatch :: "http_ctx \<Rightarrow> 'w NotificationService \<Rightarrow> 'w handler" where
  "createBatch cx svc r w =
     (case userIDFromContext r of
        Inl resp \<Rightarrow> (resp, w)
      | Inr userID \<Rightarrow>
          (case decodeJSON cx decode_batchRequest (hr_Body r) of
             Inl err \<Rightarrow> (writeError err, w)
           | Inr body \<Rightarrow>
               (case batchRequest_toInput cx body (hr_Header r ''Idempotency-Key'') of
                  Inl err \<Rightarrow> (writeError err, w)
                | Inr inp \<Rightarrow>
                    (case ns_CreateBatch svc (CorrelationID (hr_Correlation r)) (inp\<lparr>bin_UserID := userID\<rparr>) w of
                       (Inl err, w1) \<Rightarrow> (writeError err, w1)
                     | (Inr res, w1) \<Rightarrow>
                         (writeJSON (if bcr_Duplicate res then 200 else 202)
                            (json_object (batch_members cx (toBatchResponse (bcr_Batch res))
                               @ [(''created_count'', json_int (bcr_CreatedCount res)),
                                  (''duplicate_count'', json_int (bcr_DuplicateCount res))])), w1)))))"

text \<open>The three handlers that take an id from the path.\<close>

definition with_id :: "http_ctx \<Rightarrow> HttpRequest \<Rightarrow> (string \<Rightarrow> uuid \<Rightarrow> 'w \<Rightarrow> HttpResponse \<times> 'w) \<Rightarrow> 'w \<Rightarrow> HttpResponse \<times> 'w" where
  "with_id cx r k w =
     (case userIDFromContext r of
        Inl resp \<Rightarrow> (resp, w)
      | Inr userID \<Rightarrow>
          (case cx_Parse cx (hr_PathID r) of
             None \<Rightarrow> (writeError (NewValidationError ''id'' ''must be a valid UUID''), w)
           | Some i \<Rightarrow> k userID i w))"

definition getNotification :: "http_ctx \<Rightarrow> 'w NotificationService \<Rightarrow> 'w handler" where
  "getNotification cx svc r = with_id cx r (\<lambda>userID i w.
     case ns_Get svc userID i w of
       (Inl err, w1) \<Rightarrow> (writeError err, w1)
     | (Inr view, w1) \<Rightarrow> (writeJSON 200 (notification_json cx (toNotificationResponse (v_Request view) (v_Deliveries view))), w1))"

definition cancelNotification :: "http_ctx \<Rightarrow> 'w NotificationService \<Rightarrow> 'w handler" where
  "cancelNotification cx svc r = with_id cx r (\<lambda>userID i w.
     case ns_Cancel svc userID i w of
       (Inl err, w1) \<Rightarrow> (writeError err, w1)
     | (Inr req, w1) \<Rightarrow> (writeJSON 200 (notification_json cx (toNotificationResponse req [])), w1))"

definition getBatch :: "http_ctx \<Rightarrow> 'w NotificationService \<Rightarrow> 'w handler" where
  "getBatch cx svc r = with_id cx r (\<lambda>userID i w.
     case ns_GetBatch svc userID i w of
       (Inl err, w1) \<Rightarrow> (writeError err, w1)
     | (Inr b, w1) \<Rightarrow> (writeJSON 200 (json_object (batch_members cx (toBatchResponse b))), w1))"

definition zero_filter :: ListFilter where
  "zero_filter = \<lparr>f_UserID = [], f_Status = None, f_Channel = None, f_From = None, f_To = None, f_Limit = 0,
     f_Cursor = None, f_CursorAt = None\<rparr>"

definition query_time :: "string \<Rightarrow> string \<Rightarrow> string \<Rightarrow> gotime option result" where
  "query_time field message s =
     (if s = [] then Inr None
      else case parseQueryTime s of
          None \<Rightarrow> Inl (NewValidationError field message)
        | Some t \<Rightarrow> Inr (Some t))"

definition parse_window :: "(string \<Rightarrow> string) \<Rightarrow> ListFilter \<Rightarrow> ListFilter result" where
  "parse_window q f =
     (case query_time ''from'' ''must be an RFC3339 datetime (e.g. 2026-06-10T00:00:00Z)'' (q ''from'') of
        Inl err \<Rightarrow> Inl err
      | Inr from' \<Rightarrow>
          (case query_time ''to'' ''must be an RFC3339 datetime (e.g. 2026-06-10T23:59:59Z)'' (q ''to'') of
             Inl err \<Rightarrow> Inl err
           | Inr to' \<Rightarrow>
               if (case (from', to') of (Some a, Some b) \<Rightarrow> a > b | _ \<Rightarrow> False)
               then Inl (NewValidationError ''from'' ''must be before or equal to to'')
               else Inr (f\<lparr>f_From := from', f_To := to'\<rparr>)))"

definition parse_limit :: "(string \<Rightarrow> string) \<Rightarrow> ListFilter \<Rightarrow> ListFilter result" where
  "parse_limit q f =
     (if q ''limit'' = [] then Inr f
      else case parseInt (q ''limit'') of
          None \<Rightarrow> Inl (NewValidationError ''limit'' ''must be an integer'')
        | Some n \<Rightarrow> Inr (f\<lparr>f_Limit := n\<rparr>))"

definition parse_cursor :: "http_ctx \<Rightarrow> (string \<Rightarrow> string) \<Rightarrow> ListFilter \<Rightarrow> ListFilter result" where
  "parse_cursor cx q f =
     (if q ''cursor'' = [] then Inr f
      else case decodeCursor (cx_Parse cx) (q ''cursor'') of
          None \<Rightarrow> Inl (NewValidationError ''cursor'' ''invalid cursor'')
        | Some (i, t) \<Rightarrow> Inr (f\<lparr>f_Cursor := Some i, f_CursorAt := Some t\<rparr>))"

definition parseListFilter :: "http_ctx \<Rightarrow> (string \<Rightarrow> string) \<Rightarrow> ListFilter result" where
  "parseListFilter cx q =
     (let f = zero_filter\<lparr>f_Status := (if q ''status'' = [] then None else Some (q ''status''))\<rparr> in
      if q ''channel'' \<noteq> [] \<and> \<not> Channel_Valid (q ''channel'')
      then Inl (NewValidationError ''channel'' ''invalid channel'')
      else case parse_window q (f\<lparr>f_Channel := (if q ''channel'' = [] then None else Some (q ''channel''))\<rparr>) of
          Inl err \<Rightarrow> Inl err
        | Inr f1 \<Rightarrow>
            (case parse_limit q f1 of Inl err \<Rightarrow> Inl err
             | Inr f2 \<Rightarrow> (case parse_cursor cx q f2 of Inl err \<Rightarrow> Inl err | Inr f3 \<Rightarrow> Inr (Normalize f3))))"

definition page_response :: "http_ctx \<Rightarrow> Page \<Rightarrow> listResponse" where
  "page_response cx p =
     \<lparr>lr_Items = map toNotificationSummaryResponse (pg_Items p),
      lr_NextCursor = map_option (\<lambda>i. encodeCursor (cx_String cx) i (pg_NextAt p)) (pg_NextCursor p)\<rparr>"

definition listNotifications :: "http_ctx \<Rightarrow> 'w NotificationService \<Rightarrow> 'w handler" where
  "listNotifications cx svc r w =
     (case userIDFromContext r of
        Inl resp \<Rightarrow> (resp, w)
      | Inr userID \<Rightarrow>
          (case parseListFilter cx (hr_Query r) of
             Inl err \<Rightarrow> (writeError err, w)
           | Inr filter' \<Rightarrow>
               (case ns_List svc (filter'\<lparr>f_UserID := userID\<rparr>) w of
                  (Inl err, w1) \<Rightarrow> (writeError err, w1)
                | (Inr page, w1) \<Rightarrow> (writeJSON 200 (list_json cx (page_response cx page)), w1))))"


end
