(* ===== verification/Router.thy ===== *)
theory Router
  imports Http
begin

text \<open>
  The package \<open>internal/transport/http\<close>, second part: authentication (auth_middleware.go), the other
  middlewares (middleware.go), the routes and the operational endpoints (router.go).  A handler under
  a middleware may panic; the ports of \<open>router\<close> are the token library, the clock, the source of
  fresh correlation ids and the access log.  \<open>hr_Path\<close> is the escaped path of the URL; a URL with a
  malformed escape does not reach the handlers.
\<close>

section \<open>Escaped paths\<close>

text \<open>\<open>url.PathUnescape\<close>: \<open>%\<close> and two hexadecimal digits stand for a byte.\<close>

fun PathUnescape :: "string \<Rightarrow> string option" where
  "PathUnescape [] = Some []"
| "PathUnescape (c # cs) =
     (if c \<noteq> CHR ''%'' then map_option ((#) c) (PathUnescape cs)
      else case cs of
          a # b # ds \<Rightarrow>
            (case (hex_val a, hex_val b, PathUnescape ds) of
               (Some x, Some y, Some s) \<Rightarrow> Some (char_of (16 * x + y) # s)
             | _ \<Rightarrow> None)
        | _ \<Rightarrow> None)"

definition unescape_path :: "string \<Rightarrow> string" where
  "unescape_path s = (case PathUnescape s of Some u \<Rightarrow> u | None \<Rightarrow> s)"

text \<open>\<open>r.URL.Path\<close>.\<close>

definition URL_Path :: "HttpRequest \<Rightarrow> string" where
  "URL_Path r = unescape_path (hr_Path r)"

section \<open>Authentication (auth_middleware.go)\<close>

definition authHeader :: string where
  "authHeader = ''Authorization''"

definition requiresAuth :: "string \<Rightarrow> bool" where
  "requiresAuth path \<longleftrightarrow> prefix ''/api/v1/'' path"

definition bearerToken :: "string \<Rightarrow> string" where
  "bearerToken header =
     (if \<not> prefix ''Bearer '' header then [] else TrimSpace (drop (length ''Bearer '') header))"

text \<open>\<open>Inl hs\<close> is a handler that panicked before it wrote the response, with the response headers set so far.\<close>

type_synonym 'w served = "HttpRequest \<Rightarrow> 'w \<Rightarrow> ((string \<times> string) list + HttpResponse) \<times> 'w"

record 'w router =
  ro_ctx :: http_ctx
  ro_service :: "'w NotificationService"
  ro_parse :: jwt_parse
  ro_secret :: string
  ro_Now :: "'w \<Rightarrow> gotime \<times> 'w"
  ro_NewString :: "'w \<Rightarrow> string \<times> 'w"
  ro_log :: "HttpRequest \<Rightarrow> int \<Rightarrow> 'w \<Rightarrow> 'w"
  ro_readiness :: "(string \<times> ('w \<Rightarrow> string option \<times> 'w)) list"
  ro_metrics :: "'w handler"
  ro_spec :: string
  ro_swagger :: "string option"

definition authMiddleware :: "'w router \<Rightarrow> 'w served \<Rightarrow> 'w served" where
  "authMiddleware R next' r w =
     (if \<not> requiresAuth (URL_Path r) then next' r w
      else let token = bearerToken (hr_Header r authHeader) in
        if token = []
        then (Inr (error_reply 401 ''unauthorized'' [] ''missing or invalid Authorization header''), w)
        else let (now, w1) = ro_Now R w in
          case ParseToken (ro_parse R) now (ro_secret R) token of
            Inl _ \<Rightarrow> (Inr (error_reply 401 ''unauthorized'' [] ''invalid or expired token''), w1)
          | Inr userID \<Rightarrow> next' (r\<lparr>hr_User := WithUserID (hr_User r) userID\<rparr>) w1)"

section \<open>Other middlewares (middleware.go)\<close>

definition correlationHeader :: string where
  "correlationHeader = ''X-Correlation-ID''"

definition correlationMiddleware :: "'w router \<Rightarrow> 'w served \<Rightarrow> 'w served" where
  "correlationMiddleware R next' r w =
     (let given = hr_Header r correlationHeader;
          (i, w1) = (if given = [] then ro_NewString R w else (given, w));
          (resp, w2) = next' (r\<lparr>hr_Correlation := WithCorrelationID (hr_Correlation r) i\<rparr>) w1
      in (map_sum ((#) (correlationHeader, i)) (\<lambda>s. s\<lparr>hs_Headers := (correlationHeader, i) # hs_Headers s\<rparr>) resp, w2))"

text \<open>The access log is written after the handler; a panic passes by it.\<close>

definition loggingMiddleware :: "'w router \<Rightarrow> 'w served \<Rightarrow> 'w served" where
  "loggingMiddleware R next' r w =
     (case next' r w of
        (Inl hs, w1) \<Rightarrow> (Inl hs, w1)
      | (Inr resp, w1) \<Rightarrow> (Inr resp, ro_log R r (hs_Status resp) w1))"

definition recoverMiddleware :: "'w router \<Rightarrow> 'w served \<Rightarrow> 'w served" where
  "recoverMiddleware R next' r w =
     (case next' r w of
        (Inl hs, w1) \<Rightarrow> (Inr ((error_reply 500 ''internal_error'' [] ''an unexpected error occurred'')\<lparr>hs_Headers := hs\<rparr>), w1)
      | (Inr resp, w1) \<Rightarrow> (Inr resp, w1))"

definition chain :: "'w served \<Rightarrow> ('w served \<Rightarrow> 'w served) list \<Rightarrow> 'w served" where
  "chain h mws = foldr (\<lambda>mw h. mw h) mws h"

section \<open>Routes (router.go)\<close>

datatype pattern_segment = Lit string | IDSegment

type_synonym route = "string \<times> pattern_segment list"

fun match_segments :: "pattern_segment list \<Rightarrow> string list \<Rightarrow> bool" where
  "match_segments [] [] = True"
| "match_segments (Lit l # ps) (s # ss) = (l = s \<and> match_segments ps ss)"
| "match_segments (IDSegment # ps) (s # ss) = (s \<noteq> ''/'' \<and> match_segments ps ss)"
| "match_segments _ _ = False"

text \<open>The segments after the leading slash.\<close>

definition segments_of :: "string \<Rightarrow> string list" where
  "segments_of path = (case path of [] \<Rightarrow> [] | c # cs \<Rightarrow> if c = CHR ''/'' then Split cs CHR ''/'' else Split path CHR ''/'')"

text \<open>The segments as they are matched: unescaped, a trailing slash as a segment of its own.\<close>

definition matched_segments :: "string \<Rightarrow> string list" where
  "matched_segments path = map (\<lambda>s. if s = [] then ''/'' else unescape_path s) (segments_of path)"

fun id_segment :: "pattern_segment list \<Rightarrow> string list \<Rightarrow> string" where
  "id_segment (IDSegment # ps) (s # ss) = s"
| "id_segment (Lit l # ps) (s # ss) = id_segment ps ss"
| "id_segment _ _ = []"

text \<open>A \<open>GET\<close> route also answers \<open>HEAD\<close>.\<close>

definition method_matches :: "string \<Rightarrow> string \<Rightarrow> bool" where
  "method_matches pat m \<longleftrightarrow> pat = m \<or> (pat = ''GET'' \<and> m = ''HEAD'')"

text \<open>
  Literal segments win over \<open>{id}\<close>: the routes are listed with the more specific first.  A path that
  only other methods match is refused with 405, and an unclean path (empty or dot segments) is
  redirected before that.  The \<open>Location\<close> and \<open>Allow\<close> headers and the body of the redirect are left out.
\<close>

definition api_routes :: "'w router \<Rightarrow> (route \<times> 'w handler) list" where
  "api_routes R =
     (let cx = ro_ctx R; svc = ro_service R; base = [Lit ''api'', Lit ''v1'', Lit ''notifications''] in
      [((''POST'', base), createNotification cx svc),
       ((''POST'', base @ [Lit ''batch'']), createBatch cx svc),
       ((''GET'', base), listNotifications cx svc),
       ((''GET'', base @ [IDSegment]), getNotification cx svc),
       ((''POST'', base @ [IDSegment, Lit ''cancel'']), cancelNotification cx svc),
       ((''GET'', [Lit ''api'', Lit ''v1'', Lit ''batches'', IDSegment]), getBatch cx svc)])"

definition handleLive :: "'w handler" where
  "handleLive r w = (writeJSON 200 (Some (JObject [(''status'', json_string ''ok'')])), w)"

text \<open>The checks in the order in which the map is walked.\<close>

fun run_checks :: "(string \<times> ('w \<Rightarrow> string option \<times> 'w)) list \<Rightarrow> 'w \<Rightarrow> ((string \<times> string) list \<times> bool) \<times> 'w" where
  "run_checks [] w = (([], True), w)"
| "run_checks ((name, ping) # cs) w =
     (let (err, w1) = ping w; ((results, ready), w2) = run_checks cs w1 in
      case err of
        Some e \<Rightarrow> (((name, ''down: '' @ e) # results, False), w2)
      | None \<Rightarrow> (((name, ''ok'') # results, ready), w2))"

text \<open>A Go map of strings as JSON: the encoder sorts the keys.\<close>

definition checks_json :: "(string \<times> string) list \<Rightarrow> json" where
  "checks_json results = JObject (map (\<lambda>(k, v). (quote_body k, json_string v)) (sort_key fst results))"

definition handleReady :: "(string \<times> ('w \<Rightarrow> string option \<times> 'w)) list \<Rightarrow> 'w handler" where
  "handleReady checks r w =
     (let ((results, ready), w1) = run_checks checks w in
      (writeJSON (if ready then 200 else 503)
         (Some (JObject [(''checks'', checks_json results), (''ready'', JBool ready)])), w1))"

definition handleOpenAPISpec :: "string \<Rightarrow> 'w handler" where
  "handleOpenAPISpec spec r w =
     (\<lparr>hs_Status = 200, hs_ContentType = ''application/yaml'', hs_Headers = [], hs_Body = spec\<rparr>, w)"

definition handleSwaggerUI :: "string \<Rightarrow> 'w handler" where
  "handleSwaggerUI html r w =
     (\<lparr>hs_Status = 200, hs_ContentType = ''text/html; charset=utf-8'', hs_Headers = [], hs_Body = html\<rparr>, w)"

definition routes :: "'w router \<Rightarrow> (route \<times> 'w handler) list" where
  "routes R = api_routes R
     @ [((''GET'', [Lit ''healthz'']), handleLive),
        ((''GET'', [Lit ''readyz'']), handleReady (ro_readiness R)),
        ((''GET'', [Lit ''metrics'']), ro_metrics R),
        ((''GET'', [Lit ''openapi.yaml'']), handleOpenAPISpec (ro_spec R))]
     @ (case ro_swagger R of None \<Rightarrow> [] | Some html \<Rightarrow> [((''GET'', [Lit ''docs'']), handleSwaggerUI html)])"

definition clean :: "string \<Rightarrow> bool" where
  "clean path \<longleftrightarrow> (case segments_of path of [] \<Rightarrow> False
     | ss \<Rightarrow> hd path = CHR ''/'' \<and> (\<forall>s\<in>set (butlast ss). s \<noteq> [] \<and> s \<noteq> ''.'' \<and> s \<noteq> ''..'') \<and> last ss \<noteq> ''.'' \<and> last ss \<noteq> ''..'')"

definition plain_reply :: "int \<Rightarrow> string \<Rightarrow> HttpResponse" where
  "plain_reply status body =
     \<lparr>hs_Status = status, hs_ContentType = ''text/plain; charset=utf-8'', hs_Headers = [], hs_Body = body\<rparr>"

definition serve_mux :: "(route \<times> 'w handler) list \<Rightarrow> 'w served" where
  "serve_mux table r w =
     (let ss = matched_segments (hr_Path r);
          on_path = filter (\<lambda>((m, ps), h). match_segments ps ss) table
      in if \<not> clean (hr_Path r) then (Inr (plain_reply 301 []), w)
         else case find (\<lambda>((m, ps), h). method_matches m (hr_Method r)) on_path of
             Some ((m, ps), h) \<Rightarrow> apfst Inr (h (r\<lparr>hr_PathID := id_segment ps ss\<rparr>) w)
           | None \<Rightarrow>
               if on_path = [] then (Inr (plain_reply 404 (''404 page not found'' @ [CHR 0x0A])), w)
               else (Inr (plain_reply 405 (''Method Not Allowed'' @ [CHR 0x0A])), w))"

definition mux :: "'w router \<Rightarrow> 'w served" where
  "mux R = serve_mux (routes R)"

definition NewRouter :: "'w router \<Rightarrow> 'w served" where
  "NewRouter R =
     chain (mux R) [recoverMiddleware R, correlationMiddleware R, authMiddleware R, loggingMiddleware R]"

end
