(* ===== verification/Http_Props.thy ===== *)
theory Http_Props
  imports Router Codec_Sample
begin

text \<open>
  Correctness of the HTTP layer: cursors survive the trip through a client, and the service is only
  ever asked on behalf of the user whose token the request carries.
\<close>

section \<open>Cursors\<close>

lemma split_bar_format: "split_bar (FormatInt n @ ''|'' @ s) = Some (FormatInt n, s)"
proof -
  have "\<forall>c\<in>set (FormatInt n). c \<noteq> CHR ''|''"
    using FormatInt_chars digit_not_sign by fastforce
  then have "dropWhile (\<lambda>c. c \<noteq> CHR ''|'') (FormatInt n @ ''|'' @ s) = ''|'' @ s"
    "takeWhile (\<lambda>c. c \<noteq> CHR ''|'') (FormatInt n @ ''|'' @ s) = FormatInt n"
    by (simp_all add: dropWhile_append2 takeWhile_append2)
  then show ?thesis by (simp add: split_bar_def)
qed

lemma decode_encodeCursor:
  assumes "prs (str i) = Some i" "- (2 ^ 63) \<le> t" "t < 2 ^ 63"
  shows "decodeCursor prs (encodeCursor str i (Some t)) = Some (i, t)"
proof -
  have w: "wrap64 t = t" using assms(2,3) by (rule wrap64_id)
  show ?thesis
    unfolding decodeCursor_def encodeCursor_def
    using assms ParseInt_FormatInt [OF assms(2,3)]
    by (simp only: Let_def option.case w b64_roundtrip bind.simps split_bar_format prod.case)
qed

lemma encodeCursor_nonempty: "encodeCursor str i t \<noteq> []"
proof
  assume "encodeCursor str i t = []"
  then have "b64_DecodeString (encodeCursor str i t) = Some []" by (simp add: b64_DecodeString_def)
  then show False by (simp add: encodeCursor_def b64_roundtrip Let_def)
qed

text \<open>The cursor is read last, and nothing else of the filter depends on it.\<close>

lemma parse_keep_cursor:
  "parse_window (q(''cursor'' := c)) f = parse_window q f" "parse_limit (q(''cursor'' := c)) f = parse_limit q f"
  by (simp_all only: parse_window_def parse_limit_def fun_upd_apply) simp_all

lemma parseListFilter_cursor:
  assumes "parseListFilter cx (q(''cursor'' := [])) = Inr f0"
    and "decodeCursor (cx_Parse cx) c = Some (i, t)" "c \<noteq> []"
  shows "\<exists>f2. f0 = Normalize f2
    \<and> parseListFilter cx (q(''cursor'' := c)) = Inr (Normalize (f2\<lparr>f_Cursor := Some i, f_CursorAt := Some t\<rparr>))"
proof -
  have keep: "(q(''cursor'' := x)) ''status'' = q ''status''" "(q(''cursor'' := x)) ''channel'' = q ''channel''" for x
    by simp_all
  define f where "f = (zero_filter\<lparr>f_Status := (if q ''status'' = [] then None else Some (q ''status''))\<rparr>)
    \<lparr>f_Channel := (if q ''channel'' = [] then None else Some (q ''channel''))\<rparr>"
  define bad where "bad \<longleftrightarrow> q ''channel'' \<noteq> [] \<and> \<not> Channel_Valid (q ''channel'')"
  have unfold: "parseListFilter cx (q(''cursor'' := x)) =
     (if bad then Inl (NewValidationError ''channel'' ''invalid channel'')
      else case parse_window q f of Inl err \<Rightarrow> Inl err
        | Inr f1 \<Rightarrow> (case parse_limit q f1 of Inl err \<Rightarrow> Inl err
             | Inr f2 \<Rightarrow> (case parse_cursor cx (q(''cursor'' := x)) f2 of Inl err \<Rightarrow> Inl err | Inr f3 \<Rightarrow> Inr (Normalize f3))))" for x
    unfolding parseListFilter_def Let_def keep parse_keep_cursor f_def bad_def ..
  obtain f1 f2 where "\<not> bad" "parse_window q f = Inr f1" "parse_limit q f1 = Inr f2" "f0 = Normalize f2"
    using assms(1) unfolding unfold parse_cursor_def
    by (cases bad; cases "parse_window q f"; cases "parse_limit q (projr (parse_window q f))"; simp)
  then show ?thesis using assms(2,3) by (intro exI [of _ f2]) (simp add: unfold parse_cursor_def)
qed

text \<open>
  C26. Paging over HTTP: the \<open>next_cursor\<close> of a page, sent back with any other parameters the list
  endpoint accepts, asks for exactly the rows after that page's cursor, with a limit between 1 and 200.
\<close>

theorem cursor_roundtrip:
  assumes codec: "uuid_codec (cx_String cx) (cx_Parse cx)"
    and page: "pg_NextCursor p = Some i" "pg_NextAt p = Some t" "- (2 ^ 63) \<le> t" "t < 2 ^ 63"
    and cur: "lr_NextCursor (page_response cx p) = Some c"
    and rest: "parseListFilter cx (q(''cursor'' := [])) = Inr f0"
  shows "\<exists>f. parseListFilter cx (q(''cursor'' := c)) = Inr f
    \<and> f = f0\<lparr>f_Cursor := Some i, f_CursorAt := Some t\<rparr> \<and> 1 \<le> f_Limit f \<and> f_Limit f \<le> 200"
proof -
  have c: "c = encodeCursor (cx_String cx) i (Some t)" using cur page by (simp add: page_response_def)
  have dec: "decodeCursor (cx_Parse cx) c = Some (i, t)"
    unfolding c using codec page(3,4) by (intro decode_encodeCursor) (simp_all add: uuid_codec_def)
  have ne: "c \<noteq> []" by (simp add: c encodeCursor_nonempty)
  let ?q0 = "q(''cursor'' := [])" and ?q = "q(''cursor'' := c)"
  obtain f2 where f2: "f0 = Normalize f2"
    "parseListFilter cx ?q = Inr (Normalize (f2\<lparr>f_Cursor := Some i, f_CursorAt := Some t\<rparr>))"
    using parseListFilter_cursor [OF rest dec ne] by blast
  have "Normalize (f2\<lparr>f_Cursor := Some i, f_CursorAt := Some t\<rparr>) = f0\<lparr>f_Cursor := Some i, f_CursorAt := Some t\<rparr>"
    by (simp add: f2(1) Normalize_def Let_def)
  moreover have "1 \<le> f_Limit f0" "f_Limit f0 \<le> 200" by (simp_all add: f2(1) Normalize_Limit)
  ultimately show ?thesis using f2(2) by simp
qed

section \<open>Authentication\<close>

text \<open>The user a request is authenticated as: the bearer token it carries, read at the clock.\<close>

definition authenticated :: "'w router \<Rightarrow> HttpRequest \<Rightarrow> gotime \<Rightarrow> string option" where
  "authenticated R r now =
     (if bearerToken (hr_Header r authHeader) = [] then None
      else case ParseToken (ro_parse R) now (ro_secret R) (bearerToken (hr_Header r authHeader)) of
          Inl _ \<Rightarrow> None
        | Inr u \<Rightarrow> Some u)"

text \<open>Two services that answer alike on behalf of the users in a set.\<close>

definition agree_for :: "string set \<Rightarrow> 'w NotificationService \<Rightarrow> 'w NotificationService \<Rightarrow> bool" where
  "agree_for U a b \<longleftrightarrow>
     (\<forall>corr inp w. in_UserID inp \<in> U \<longrightarrow> ns_Create a corr inp w = ns_Create b corr inp w)
   \<and> (\<forall>corr inp w. bin_UserID inp \<in> U \<longrightarrow> ns_CreateBatch a corr inp w = ns_CreateBatch b corr inp w)
   \<and> (\<forall>u i w. u \<in> U \<longrightarrow> ns_Get a u i w = ns_Get b u i w)
   \<and> (\<forall>f w. f_UserID f \<in> U \<longrightarrow> ns_List a f w = ns_List b f w)
   \<and> (\<forall>u i w. u \<in> U \<longrightarrow> ns_Cancel a u i w = ns_Cancel b u i w)
   \<and> (\<forall>u i w. u \<in> U \<longrightarrow> ns_GetBatch a u i w = ns_GetBatch b u i w)"

definition users_of :: "HttpRequest \<Rightarrow> string set" where
  "users_of r = {u. hr_User r = Some u \<and> u \<noteq> []}"

lemma userIDFromContext_user: "userIDFromContext r = Inr u \<Longrightarrow> u \<in> users_of r"
  by (auto simp: userIDFromContext_def users_of_def UserID_def split: if_splits option.splits)

text \<open>Each handler consults the service only for the user of the request context.\<close>

lemma handlers_agree:
  assumes "agree_for (users_of r) a b"
  shows "createNotification cx a r w = createNotification cx b r w" "createBatch cx a r w = createBatch cx b r w"
    "getNotification cx a r w = getNotification cx b r w" "cancelNotification cx a r w = cancelNotification cx b r w"
    "getBatch cx a r w = getBatch cx b r w" "listNotifications cx a r w = listNotifications cx b r w"
proof -
  note u = userIDFromContext_user [of r]
  show "createNotification cx a r w = createNotification cx b r w"
    using assms u by (auto simp: createNotification_def agree_for_def split: sum.split)
  show "createBatch cx a r w = createBatch cx b r w"
    using assms u by (auto simp: createBatch_def agree_for_def split: sum.split)
  show "getNotification cx a r w = getNotification cx b r w"
    using assms u by (auto simp: getNotification_def with_id_def agree_for_def split: sum.split option.split)
  show "cancelNotification cx a r w = cancelNotification cx b r w"
    using assms u by (auto simp: cancelNotification_def with_id_def agree_for_def split: sum.split option.split)
  show "getBatch cx a r w = getBatch cx b r w"
    using assms u by (auto simp: getBatch_def with_id_def agree_for_def split: sum.split option.split)
  show "listNotifications cx a r w = listNotifications cx b r w"
    using assms u by (auto simp: listNotifications_def agree_for_def split: sum.split)
qed

lemma users_of_path [simp]: "users_of (r\<lparr>hr_PathID := s\<rparr>) = users_of r" "users_of (r\<lparr>hr_Correlation := c\<rparr>) = users_of r"
  by (simp_all add: users_of_def)

text \<open>The route tables of two routers that differ in their service only: same keys, agreeing handlers.\<close>

lemma routes_agree:
  assumes "agree_for (users_of r) a b"
  shows "list_all2 (\<lambda>x y. fst x = fst y \<and> (\<forall>s w. snd x (r\<lparr>hr_PathID := s\<rparr>) w = snd y (r\<lparr>hr_PathID := s\<rparr>) w))
     (routes (R\<lparr>ro_service := a\<rparr>)) (routes (R\<lparr>ro_service := b\<rparr>))"
  using handlers_agree [of "r\<lparr>hr_PathID := s\<rparr>" a b for s] assms
  by (simp add: routes_def api_routes_def Let_def split: option.split)

lemma filter_agree: "list_all2 P xs ys \<Longrightarrow> (\<And>x y. P x y \<Longrightarrow> p x = p y) \<Longrightarrow> list_all2 P (filter p xs) (filter p ys)"
  by (induction rule: list_all2_induct) auto

lemma find_agree: "list_all2 P xs ys \<Longrightarrow> (\<And>x y. P x y \<Longrightarrow> p x = p y) \<Longrightarrow> rel_option P (find p xs) (find p ys)"
  by (induction rule: list_all2_induct) auto

lemma mux_agree:
  assumes "agree_for (users_of r) a b"
  shows "mux (R\<lparr>ro_service := a\<rparr>) r w = mux (R\<lparr>ro_service := b\<rparr>) r w"
proof -
  let ?P = "\<lambda>x y. fst x = fst y \<and> (\<forall>s w. snd x (r\<lparr>hr_PathID := s\<rparr>) w = snd y (r\<lparr>hr_PathID := s\<rparr>) w)"
  define on where "on R = filter (\<lambda>((m, ps), h). match_segments ps (matched_segments (hr_Path r))) (routes R)" for R :: "'a router"
  define hit where "hit R = find (\<lambda>((m, ps), h). method_matches m (hr_Method r)) (on R)" for R :: "'a router"
  have mux: "mux R r w =
      (if \<not> clean (hr_Path r) then (Inr (plain_reply 301 []), w)
       else case hit R of
           Some ((m, ps), h) \<Rightarrow> apfst Inr (h (r\<lparr>hr_PathID := id_segment ps (matched_segments (hr_Path r))\<rparr>) w)
         | None \<Rightarrow>
             if on R = [] then (Inr (plain_reply 404 (''404 page not found'' @ [CHR 0x0A])), w)
             else (Inr (plain_reply 405 (''Method Not Allowed'' @ [CHR 0x0A])), w))" for R :: "'a router"
    unfolding mux_def serve_mux_def Let_def on_def hit_def ..
  have on: "list_all2 ?P (on (R\<lparr>ro_service := a\<rparr>)) (on (R\<lparr>ro_service := b\<rparr>))"
    unfolding on_def by (rule filter_agree [OF routes_agree [OF assms]]) (auto split: prod.splits)
  have "rel_option ?P (hit (R\<lparr>ro_service := a\<rparr>)) (hit (R\<lparr>ro_service := b\<rparr>))"
    unfolding hit_def by (rule find_agree [OF on]) (auto split: prod.splits)
  moreover have "on (R\<lparr>ro_service := a\<rparr>) = [] \<longleftrightarrow> on (R\<lparr>ro_service := b\<rparr>) = []"
    using list_all2_lengthD [OF on] by (simp only: length_0_conv [symmetric])
  ultimately show ?thesis
    unfolding mux
    by (cases "hit (R\<lparr>ro_service := a\<rparr>)"; cases "hit (R\<lparr>ro_service := b\<rparr>)")
      (simp_all add: case_prod_beta)
qed

text \<open>
  C17. Authentication and confinement: whatever the path and the method, the response to a request
  and its effects depend on the service only through what it does for the user named by the bearer
  token.  In particular the service is not consulted at all when the token is missing, forged or
  expired.  \<open>now\<close> is the instant the token is checked at.
\<close>

theorem router_confines:
  assumes fresh: "hr_User r = None"
    and now: "\<And>v. fst (ro_Now R v) = now"
    and alike: "agree_for {u. authenticated R r now = Some u} a b"
  shows "NewRouter (R\<lparr>ro_service := a\<rparr>) r w = NewRouter (R\<lparr>ro_service := b\<rparr>) r w"
proof -
  have none: "agree_for {} a b" by (simp add: agree_for_def)
  have inner: "loggingMiddleware (R\<lparr>ro_service := a\<rparr>) (mux (R\<lparr>ro_service := a\<rparr>)) r' v
      = loggingMiddleware (R\<lparr>ro_service := b\<rparr>) (mux (R\<lparr>ro_service := b\<rparr>)) r' v" if "agree_for (users_of r') a b" for r' v
    using mux_agree [OF that] by (simp add: loggingMiddleware_def split: sum.split prod.split)
  have auth: "authMiddleware (R\<lparr>ro_service := a\<rparr>) (loggingMiddleware (R\<lparr>ro_service := a\<rparr>) (mux (R\<lparr>ro_service := a\<rparr>))) (r\<lparr>hr_Correlation := i\<rparr>) v
      = authMiddleware (R\<lparr>ro_service := b\<rparr>) (loggingMiddleware (R\<lparr>ro_service := b\<rparr>) (mux (R\<lparr>ro_service := b\<rparr>))) (r\<lparr>hr_Correlation := i\<rparr>) v" for i v
  proof -
    obtain v1 where v1: "ro_Now R v = (now, v1)" using now [of v] by (cases "ro_Now R v") auto
    let ?t = "bearerToken (hr_Header r authHeader)"
    have anon: "users_of (r\<lparr>hr_Correlation := i\<rparr>) = {}" using fresh by (simp add: users_of_def)
    have user: "agree_for (users_of (r\<lparr>hr_Correlation := i, hr_User := WithUserID c u\<rparr>)) a b"
      if "?t \<noteq> []" "ParseToken (ro_parse R) now (ro_secret R) ?t = Inr u" for u c
    proof -
      have "users_of (r\<lparr>hr_Correlation := i, hr_User := WithUserID c u\<rparr>) \<subseteq> {u. authenticated R r now = Some u}"
        using that by (auto simp: users_of_def WithUserID_def authenticated_def)
      then show ?thesis using alike by (auto simp: agree_for_def)
    qed
    show ?thesis
      using inner none anon user v1 by (auto simp: authMiddleware_def Let_def split: sum.split)
  qed
  show ?thesis
    by (simp add: NewRouter_def chain_def recoverMiddleware_def correlationMiddleware_def auth Let_def)
qed


section \<open>Escaped paths and panics\<close>

lemma Split_Cons2:
  "Split s sep = a # b # rest \<Longrightarrow> \<exists>t. s = a @ sep # t \<and> Split t sep = b # rest"
proof (induction s arbitrary: a)
  case (Cons c cs)
  obtain p ps where p: "Split cs sep = p # ps" using Split_nonempty [of cs sep] by (cases "Split cs sep") auto
  show ?case
  proof (cases "c = sep")
    case True
    then show ?thesis using Cons.prems by auto
  next
    case False
    then have "a = c # p" "ps = b # rest" using Cons.prems p by simp_all
    then show ?thesis using Cons.IH [of p] p by auto
  qed
qed simp

text \<open>An escape never reaches across a slash.\<close>

lemma PathUnescape_slash:
  "PathUnescape (xs @ CHR ''/'' # ys) = Some u \<Longrightarrow>
     \<exists>a b. PathUnescape xs = Some a \<and> PathUnescape ys = Some b \<and> u = a @ CHR ''/'' # b"
proof (induction xs arbitrary: u rule: PathUnescape.induct)
  case (2 c cs)
  have slash: "hex_val CHR ''/'' = None" by (simp add: hex_val_def)
  show ?case
  proof (cases "c = CHR ''%''")
    case False
    then show ?thesis using 2 by auto
  next
    case True
    then obtain x y ds where cs: "cs = x # y # ds" using 2(3) slash
      by (cases cs; cases "tl cs") (auto split: option.splits list.splits)
    then show ?thesis using 2(2) [OF _ cs] 2(3) True by (fastforce split: option.splits)
  qed
qed auto

text \<open>
  No spelling of a path by-passes authentication: whatever bytes are escaped, a path that is matched
  below \<open>/api/v1/\<close> has that prefix where the middleware looks for it.
\<close>

lemma matched_api_requires_auth:
  assumes valid: "PathUnescape (hr_Path r) \<noteq> None" and clean: "clean (hr_Path r)"
    and match: "match_segments (Lit ''api'' # Lit ''v1'' # p # ps) (matched_segments (hr_Path r))"
  shows "requiresAuth (URL_Path r)"
proof -
  obtain path where path: "hr_Path r = CHR ''/'' # path"
    using clean by (cases "hr_Path r") (auto simp: clean_def segments_of_def split: list.splits)
  have segs: "matched_segments (hr_Path r) = map (\<lambda>s. if s = [] then ''/'' else unescape_path s) (Split path CHR ''/'')"
    by (simp add: matched_segments_def segments_of_def path)
  obtain a b c rest where s3: "Split path CHR ''/'' = a # b # c # rest"
    "(if a = [] then ''/'' else unescape_path a) = ''api''" "(if b = [] then ''/'' else unescape_path b) = ''v1''"
    using match unfolding segs
    by (cases "Split path CHR ''/''"; cases "tl (Split path CHR ''/'')"; cases "tl (tl (Split path CHR ''/''))") auto
  obtain t where t: "path = a @ CHR ''/'' # t" "Split t CHR ''/'' = b # c # rest" using Split_Cons2 [OF s3(1)] by blast
  obtain t' where t': "t = b @ CHR ''/'' # t'" using Split_Cons2 [OF t(2)] by blast
  obtain u where u: "PathUnescape path = Some u" "PathUnescape (hr_Path r) = Some (CHR ''/'' # u)"
    using valid path by auto
  obtain a' v where a': "PathUnescape a = Some a'" "PathUnescape t = Some v" "u = a' @ CHR ''/'' # v"
    using PathUnescape_slash u(1) unfolding t(1) by blast
  obtain b' v' where b': "PathUnescape b = Some b'" "v = b' @ CHR ''/'' # v'"
    using PathUnescape_slash a'(2) unfolding t' by blast
  have "a' = ''api''" "b' = ''v1''" using s3 a'(1) b'(1) by (auto simp: unescape_path_def split: if_splits)
  then show ?thesis using u(2) a'(3) b'(2) by (simp add: requiresAuth_def URL_Path_def unescape_path_def)
qed

text \<open>A panic below the middlewares becomes a 500 that still names the request by its correlation id.\<close>

lemma panic_is_reported:
  assumes panics: "\<And>q v. \<exists>hs v'. h q v = (Inl hs, v')" and open_path: "\<not> requiresAuth (URL_Path r)"
    and given: "hr_Header r correlationHeader = i" "i \<noteq> []"
  obtains resp w' where
    "chain h [recoverMiddleware R, correlationMiddleware R, authMiddleware R, loggingMiddleware R] r w = (Inr resp, w')"
    "hs_Status resp = 500" "hd (hs_Headers resp) = (correlationHeader, i)"
proof -
  let ?r = "r\<lparr>hr_Correlation := WithCorrelationID (hr_Correlation r) i\<rparr>"
  obtain hs v where h: "h ?r w = (Inl hs, v)" using panics by blast
  have "URL_Path ?r = URL_Path r" by (simp add: URL_Path_def)
  then show thesis
    using h open_path given
    by (intro that [of "(error_reply 500 ''internal_error'' [] ''an unexpected error occurred'')\<lparr>hs_Headers := (correlationHeader, i) # hs\<rparr>" v])
      (simp_all add: chain_def recoverMiddleware_def correlationMiddleware_def authMiddleware_def loggingMiddleware_def
        error_reply_def writeJSON_def)
qed

section \<open>Creating a notification over HTTP\<close>

text \<open>What the handler makes of a request before it calls the service.\<close>

definition create_input :: "http_ctx \<Rightarrow> HttpRequest \<Rightarrow> string \<Rightarrow> CreateInput result" where
  "create_input cx r u =
     (case decodeJSON cx decode_createRequest (hr_Body r) of
        Inl err \<Rightarrow> Inl err
      | Inr body \<Rightarrow> map_sum id (\<lambda>inp. inp\<lparr>in_UserID := u\<rparr>) (createRequest_toInput cx body (hr_Header r ''Idempotency-Key'')))"

lemma create_input_context: "create_input cx (r\<lparr>hr_Correlation := c, hr_User := v, hr_PathID := x\<rparr>) u = create_input cx r u"
  by (simp add: create_input_def split: sum.split)

text \<open>The status that stands for an error.\<close>

definition error_status :: "error \<Rightarrow> int" where
  "error_status err =
     (case err of
        ValidationError _ _ \<Rightarrow> 400 | ErrValidation \<Rightarrow> 400 | ErrTemplateVariablesMissing _ \<Rightarrow> 400
      | ErrNotFound \<Rightarrow> 404 | ErrCancelNotAllowed \<Rightarrow> 409 | ErrConflict \<Rightarrow> 409 | ErrInfra _ \<Rightarrow> 500)"

lemma writeError_status [simp]: "hs_Status (writeError err) = error_status err"
  by (cases err) (simp_all add: writeError_def error_status_def error_reply_def writeJSON_def)

lemma decodeJSON_error:
  assumes "decodeJSON cx d body = Inl err"
  shows "error_status err = 400"
proof -
  have v: "error_status (NewValidationError f m) = 400" for f m by (simp add: NewValidationError_def error_status_def)
  obtain p where p: "parse_value max_depth (take maxBodyBytes body) = p" by blast
  show ?thesis
    using assms unfolding decodeJSON_def Let_def p by (auto simp: v split: option.splits prod.splits if_splits)
qed

lemma create_input_error:
  assumes "create_input cx r u = Inl err"
  shows "error_status err = 400"
proof (cases "decodeJSON cx decode_createRequest (hr_Body r)")
  case (Inl e)
  then show ?thesis using assms decodeJSON_error [OF Inl] by (simp only: create_input_def sum.case sum.inject)
next
  case (Inr body)
  then have "createRequest_toInput cx body (hr_Header r ''Idempotency-Key'') = Inl err"
    using assms by (cases "createRequest_toInput cx body (hr_Header r ''Idempotency-Key'')") (simp_all only: create_input_def sum.case map_sum.simps id_apply sum.inject sum.distinct)
  then have "err = NewValidationError ''template_id'' ''must be a valid UUID''"
    unfolding createRequest_toInput_def Let_def by (simp only: split: option.splits if_splits) simp_all
  then show ?thesis by (simp add: NewValidationError_def error_status_def)
qed

lemma createNotification_eq:
  assumes "hr_User r = Some u" "u \<noteq> []"
  shows "createNotification cx svc r w =
    (case create_input cx r u of
       Inl err \<Rightarrow> (writeError err, w)
     | Inr inp \<Rightarrow>
         (case ns_Create svc (CorrelationID (hr_Correlation r)) inp w of
            (Inl err, w1) \<Rightarrow> (writeError err, w1)
          | (Inr res, w1) \<Rightarrow>
              (writeJSON (if cr_Duplicate res then 200 else 202)
                 (notification_json cx (toNotificationResponse (cr_Request res) [])), w1)))"
  using assms
  by (simp add: createNotification_def create_input_def userIDFromContext_def UserID_def split: sum.split)

lemma api_path:
  "unescape_path ''/api/v1/notifications'' = ''/api/v1/notifications''"
  "segments_of ''/api/v1/notifications'' = [''api'', ''v1'', ''notifications'']"
  "matched_segments ''/api/v1/notifications'' = [''api'', ''v1'', ''notifications'']"
  "clean ''/api/v1/notifications''"
  by code_simp+

lemma mux_create:
  assumes "hr_Path r = ''/api/v1/notifications''" "hr_Method r = ''POST''"
  shows "mux R r w = apfst Inr (createNotification (ro_ctx R) (ro_service R) (r\<lparr>hr_PathID := []\<rparr>) w)"
  using assms
  by (simp add: mux_def serve_mux_def routes_def api_routes_def api_path method_matches_def Let_def split: option.split)

lemma authenticated_nonempty: "authenticated R r now = Some u \<Longrightarrow> u \<noteq> []"
  by (auto simp: authenticated_def ParseToken_def Let_def TrimSpace_def split: if_splits sum.splits option.splits prod.splits)

text \<open>
  C18. Creating a notification over HTTP.  A POST with a valid bearer token and a correlation id reaches
  the service exactly when its body is a well-formed request, on behalf of the user of the token and under
  that correlation id, and otherwise answers 400 without consulting the service.  The answer is 202 with
  the created notification, 200 with the existing one, or the status that stands for the error of the
  service; it repeats the correlation id, and besides the service only the access log changes the world.
\<close>

theorem POST_notifications_outcome:
  assumes fresh: "hr_User r = None" and target: "hr_Path r = ''/api/v1/notifications''" "hr_Method r = ''POST''"
    and given: "hr_Header r correlationHeader = i" "i \<noteq> []"
    and token: "ro_Now R w = (now, w1)" "authenticated R r now = Some u"
  shows "\<exists>resp w2. NewRouter (R\<lparr>ro_service := service_port S\<rparr>) r w
      = (Inr resp, ro_log R (r\<lparr>hr_Correlation := Some i, hr_User := Some u\<rparr>) (hs_Status resp) w2)
    \<and> (correlationHeader, i) \<in> set (hs_Headers resp)
    \<and> (case create_input (ro_ctx R) r u of
         Inl err \<Rightarrow> hs_Status resp = 400 \<and> w2 = w1
       | Inr inp \<Rightarrow>
           (case Create S i inp w1 of
              (Inl err, w3) \<Rightarrow> hs_Status resp = error_status err \<and> w2 = w3
            | (Inr res, w3) \<Rightarrow> hs_Status resp = (if cr_Duplicate res then 200 else 202) \<and> w2 = w3
                \<and> hs_Body resp = hs_Body (writeJSON 200 (notification_json (ro_ctx R) (toNotificationResponse (cr_Request res) [])))))"
proof -
  let ?R = "R\<lparr>ro_service := service_port S\<rparr>" and ?r = "r\<lparr>hr_Correlation := Some i, hr_User := Some u\<rparr>"
  have request_user: "hr_User (?r\<lparr>hr_PathID := []\<rparr>) = Some u"
    and request_correlation: "CorrelationID (hr_Correlation (?r\<lparr>hr_PathID := []\<rparr>)) = i"
    and port: "ns_Create (service_port S) = Create S"
    by (simp_all add: CorrelationID_def service_port_def)
  obtain resp w2 where run: "createNotification (ro_ctx R) (service_port S) (?r\<lparr>hr_PathID := []\<rparr>) w1 = (resp, w2)" by force
  have "u \<noteq> []" by (rule authenticated_nonempty [OF token(2)])
  then have eq: "(resp, w2) =
      (case create_input (ro_ctx R) r u of
         Inl err \<Rightarrow> (writeError err, w1)
       | Inr inp \<Rightarrow>
           (case Create S i inp w1 of
              (Inl err, w3) \<Rightarrow> (writeError err, w3)
            | (Inr res, w3) \<Rightarrow>
                (writeJSON (if cr_Duplicate res then 200 else 202)
                   (notification_json (ro_ctx R) (toNotificationResponse (cr_Request res) [])), w3)))"
    using run unfolding createNotification_eq [OF request_user \<open>u \<noteq> []\<close>] create_input_context request_correlation port by simp
  have auth: "requiresAuth (URL_Path (r\<lparr>hr_Correlation := c\<rparr>))" for c
    using target by (simp add: URL_Path_def api_path requiresAuth_def)
  have bearer: "bearerToken (hr_Header r authHeader) \<noteq> []"
    "ParseToken (ro_parse R) now (ro_secret R) (bearerToken (hr_Header r authHeader)) = Inr u"
    using token(2) by (auto simp: authenticated_def split: if_splits sum.splits)
  have mux: "mux ?R ?r w1 = (Inr resp, w2)" using run target by (simp add: mux_create)
  have "NewRouter ?R r w =
      (Inr (resp\<lparr>hs_Headers := (correlationHeader, i) # hs_Headers resp\<rparr>), ro_log R ?r (hs_Status resp) w2)"
    using given auth bearer token(1) mux
    by (simp add: NewRouter_def chain_def recoverMiddleware_def correlationMiddleware_def authMiddleware_def
        loggingMiddleware_def WithCorrelationID_def WithUserID_def)
  then show ?thesis
    using eq create_input_error [of "ro_ctx R" r u]
    by (intro exI [of _ "resp\<lparr>hs_Headers := (correlationHeader, i) # hs_Headers resp\<rparr>"] exI [of _ w2])
      (auto simp: writeJSON_def split: sum.splits prod.splits)
qed

section \<open>Concrete requests\<close>

definition sample_ctx :: http_ctx where
  "sample_ctx = \<lparr>cx_String = decimal_text, cx_Parse = decimal_parse, cx_zone = 0, cx_json_err = (\<lambda>s. ''syntax'')\<rparr>"

theorem cursor_roundtrip_witness:
  "\<exists>c f. lr_NextCursor (page_response sample_ctx \<lparr>pg_Items = [], pg_NextCursor = Some 7, pg_NextAt = Some 5000\<rparr>) = Some c
    \<and> parseListFilter sample_ctx ((\<lambda>k. [])(''cursor'' := c)) = Inr f \<and> f_Cursor f = Some 7 \<and> f_CursorAt f = Some 5000"
proof -
  let ?p = "\<lparr>pg_Items = [], pg_NextCursor = Some 7, pg_NextAt = Some 5000\<rparr> :: Page"
  have codec: "uuid_codec (cx_String sample_ctx) (cx_Parse sample_ctx)" by (simp add: sample_ctx_def decimal_codec)
  obtain c where c: "lr_NextCursor (page_response sample_ctx ?p) = Some c" by (simp add: page_response_def)
  have rest: "parseListFilter sample_ctx ((\<lambda>k. [])(''cursor'' := [])) = Inr (Normalize zero_filter)"
    by (simp add: parseListFilter_def parse_window_def parse_limit_def parse_cursor_def query_time_def zero_filter_def)
  show ?thesis using c cursor_roundtrip [OF codec _ _ _ _ c rest] by auto
qed

text \<open>Two services that treat every user but alice differently.\<close>

definition sample_service :: "error \<Rightarrow> unit NotificationService" where
  "sample_service e =
     (let answer = (\<lambda>u. if u = ''alice'' then ErrNotFound else e) in
      \<lparr>ns_Create = (\<lambda>c i w. (Inl (answer (in_UserID i)), w)), ns_CreateBatch = (\<lambda>c i w. (Inl (answer (bin_UserID i)), w)),
       ns_Get = (\<lambda>u i w. (Inl (answer u), w)), ns_List = (\<lambda>f w. (Inl (answer (f_UserID f)), w)),
       ns_Cancel = (\<lambda>u i w. (Inl (answer u), w)), ns_GetBatch = (\<lambda>u i w. (Inl (answer u), w))\<rparr>)"

definition sample_router :: "unit router" where
  "sample_router =
     \<lparr>ro_ctx = sample_ctx, ro_service = sample_service ErrConflict, ro_parse = sample_parse, ro_secret = sample_secret,
      ro_Now = (\<lambda>w. (5, w)), ro_NewString = (\<lambda>w. (''c'', w)), ro_log = (\<lambda>r s w. w), ro_readiness = [],
      ro_metrics = (\<lambda>r w. (plain_reply 200 [], w)), ro_spec = [], ro_swagger = None\<rparr>"

definition sample_http :: HttpRequest where
  "sample_http =
     \<lparr>hr_Method = ''GET'', hr_Path = ''/api/v1/notifications'', hr_Header = (\<lambda>k. if k = authHeader then ''Bearer t'' else []),
      hr_Query = (\<lambda>k. []), hr_PathID = [], hr_Body = [], hr_User = None, hr_Correlation = None\<rparr>"

theorem router_confines_witness:
  "sample_service ErrConflict \<noteq> sample_service ErrCancelNotAllowed
   \<and> NewRouter (sample_router\<lparr>ro_service := sample_service ErrConflict\<rparr>) sample_http ()
     = NewRouter (sample_router\<lparr>ro_service := sample_service ErrCancelNotAllowed\<rparr>) sample_http ()"
proof
  have "ns_Get (sample_service ErrConflict) [] 0 () \<noteq> ns_Get (sample_service ErrCancelNotAllowed) [] 0 ()"
    by (simp add: sample_service_def)
  then show "sample_service ErrConflict \<noteq> sample_service ErrCancelNotAllowed" by auto
  have "u = ''alice''" if "authenticated sample_router sample_http 5 = Some u" for u
    using that by (auto simp: authenticated_def ParseToken_def sample_router_def sample_parse_def sample_claims_def Let_def
        split: if_splits option.splits sum.splits)
  then have "agree_for {u. authenticated sample_router sample_http 5 = Some u} (sample_service ErrConflict) (sample_service ErrCancelNotAllowed)"
    by (auto simp: agree_for_def sample_service_def Let_def)
  from router_confines [OF _ _ this] show "NewRouter (sample_router\<lparr>ro_service := sample_service ErrConflict\<rparr>) sample_http ()
     = NewRouter (sample_router\<lparr>ro_service := sample_service ErrCancelNotAllowed\<rparr>) sample_http ()"
    by (simp add: sample_router_def sample_http_def)
qed

definition sample_post :: "string \<Rightarrow> HttpRequest" where
  "sample_post body = sample_http\<lparr>hr_Method := ''POST'', hr_Body := body,
     hr_Header := (\<lambda>k. if k = authHeader then ''Bearer t'' else if k = correlationHeader then ''c'' else [])\<rparr>"

definition sample_members :: "(string \<times> json) list" where
  "sample_members = [(''recipient'', JString ''a''), (''channel'', JString ''sms''), (''priority'', JString ''high''), (''content'', JString ''x'')]"

definition sample_body :: string where
  "sample_body = render (JObject sample_members)"

definition sample_repository :: "unit Repository" where
  "sample_repository = \<lparr>
     rp_CreateNotification = (\<lambda>req del ob w. (Inr (), w)), rp_GetRequestByID = (\<lambda>i w. (Inl ErrNotFound, w)),
     rp_GetRequestByIdempotencyKey = (\<lambda>u k w. (Inl ErrNotFound, w)), rp_ListRequests = (\<lambda>f w. (Inl ErrNotFound, w)),
     rp_CancelRequest = (\<lambda>i w. (Inl ErrNotFound, w)), rp_GetDeliveriesByRequest = (\<lambda>i w. (Inl ErrNotFound, w)),
     rp_CreateBatch = (\<lambda>b items w. (Inl ErrConflict, w)), rp_GetBatchByID = (\<lambda>i w. (Inl ErrNotFound, w)),
     rp_GetBatchByIdempotencyKey = (\<lambda>u k w. (Inl ErrNotFound, w))\<rparr>"

definition sample_notifications :: "unit Service" where
  "sample_notifications = notification_New sample_repository (\<lambda>t c vars w. (Inl ErrNotFound, w)) (\<lambda>w. (5, w)) (\<lambda>c p w. w) (\<lambda>w. (7, w))"

lemma sample_decoded:
  "map_option (\<lambda>b. (cq_Recipient b, cq_Channel b, cq_Priority b, cq_Content b, cq_TemplateID b, cq_IdempotencyKey b, cq_SendAt b))
     (decode_createRequest (JObject sample_members)) = Some (''a'', ''sms'', ''high'', ''x'', None, None, None)"
  by code_simp

lemma sample_read:
  "decodeJSON sample_ctx decode_createRequest sample_body = (case decode_createRequest (JObject sample_members) of Some x \<Rightarrow> Inr x
     | None \<Rightarrow> Inl (NewValidationError ''body'' ''invalid JSON: syntax''))"
proof -
  have "list_all (\<lambda>(k, v). quote_body k = k \<and> (case v of JString b \<Rightarrow> quote_body b = b | _ \<Rightarrow> False)) sample_members" by code_simp
  then have plain: "quote_body k = k \<and> (\<exists>b. v = JString b \<and> quote_body b = b)" if "(k, v) \<in> set sample_members" for k v
    using that by (cases v) (auto simp: list_all_iff)
  have "scannable k \<and> wf_json (max_depth - 1) v" if mem: "(k, v) \<in> set sample_members" for k v
  proof -
    obtain b where b: "quote_body k = k" "v = JString b" "quote_body b = b" using plain [OF mem] by blast
    then show ?thesis using scannable_quote [of k] scannable_quote [of b] by simp
  qed
  then have wf: "wf_json max_depth (JObject sample_members)" by (auto simp: max_depth_def)
  have "length sample_body \<le> 100" by code_simp
  then have "take maxBodyBytes sample_body = sample_body" by (simp add: maxBodyBytes_def)
  moreover have "parse_value max_depth sample_body = Some (JObject sample_members, [])"
    using parse_render [OF wf, of "[]"] by (simp add: sample_body_def delimited_def)
  ultimately show ?thesis by (simp add: decodeJSON_def sample_ctx_def)
qed

lemma sample_input:
  obtains inp where "create_input sample_ctx (sample_post sample_body) ''alice'' = Inr inp"
    "in_Recipient inp = ''a''" "in_Channel inp = ''sms''" "in_Priority inp = ''high''" "in_Content inp = ''x''"
    "in_TemplateID inp = None" "in_IdempotencyKey inp = None" "in_SendAt inp = None"
proof -
  obtain b where b: "decode_createRequest (JObject sample_members) = Some b"
    "cq_Recipient b = ''a''" "cq_Channel b = ''sms''" "cq_Priority b = ''high''" "cq_Content b = ''x''" "cq_TemplateID b = None"
    "cq_IdempotencyKey b = None" "cq_SendAt b = None"
    using sample_decoded by auto
  have key: "hr_Header (sample_post sample_body) ''Idempotency-Key'' = []"
    by (simp add: sample_post_def authHeader_def correlationHeader_def)
  have body: "hr_Body (sample_post sample_body) = sample_body" by (simp add: sample_post_def)
  show thesis
    by (rule that [of "\<lparr>in_UserID = ''alice'', in_Recipient = ''a'', in_Channel = ''sms'', in_Priority = ''high'', in_TemplateID = None,
          in_Content = ''x'', in_Variables = cq_Variables b, in_IdempotencyKey = None, in_SendAt = None\<rparr>"])
      (simp_all add: create_input_def key body sample_read b createRequest_toInput_def choose_key_def)
qed

theorem POST_notifications_outcome_witness:
  "\<exists>resp w2. NewRouter (sample_router\<lparr>ro_service := service_port sample_notifications\<rparr>) (sample_post sample_body) () = (Inr resp, w2)
    \<and> hs_Status resp = 202 \<and> (correlationHeader, ''c'') \<in> set (hs_Headers resp)"
proof -
  obtain inp where inp: "create_input sample_ctx (sample_post sample_body) ''alice'' = Inr inp"
    and fields: "in_Recipient inp = ''a''" "in_Channel inp = ''sms''" "in_Priority inp = ''high''" "in_Content inp = ''x''"
      "in_TemplateID inp = None" "in_IdempotencyKey inp = None" "in_SendAt inp = None"
    by (rule sample_input)
  have "TrimSpace ''a'' = ''a''" "TrimSpace ''x'' = ''x''" "Channel_Valid ''sms''" "Priority_Valid ''high''" "maxContentLength ''sms'' = 1600"
    by code_simp+
  then have valid: "CreateInput_validate inp = None" by (simp add: CreateInput_validate_def fields)
  have create: "\<exists>res w3. Create sample_notifications ''c'' inp () = (Inr res, w3) \<and> \<not> cr_Duplicate res"
    by (simp add: Create_def valid fields create_new_def build_def render_content_def sample_notifications_def notification_New_def
        sample_repository_def future_def)
  have "bearerToken ''Bearer t'' = ''t''" "ParseToken sample_parse 5 sample_secret ''t'' = Inr ''alice''" by code_simp+
  then have token: "authenticated sample_router (sample_post sample_body) 5 = Some ''alice''"
    by (simp add: authenticated_def sample_post_def sample_router_def)
  have "\<exists>resp w2. NewRouter (sample_router\<lparr>ro_service := service_port sample_notifications\<rparr>) (sample_post sample_body) ()
      = (Inr resp, ro_log sample_router ((sample_post sample_body)\<lparr>hr_Correlation := Some ''c'', hr_User := Some ''alice''\<rparr>) (hs_Status resp) w2)
    \<and> (correlationHeader, ''c'') \<in> set (hs_Headers resp)
    \<and> (case create_input (ro_ctx sample_router) (sample_post sample_body) ''alice'' of
         Inl err \<Rightarrow> hs_Status resp = 400 \<and> w2 = ()
       | Inr inp \<Rightarrow>
           (case Create sample_notifications ''c'' inp () of
              (Inl err, w3) \<Rightarrow> hs_Status resp = error_status err \<and> w2 = w3
            | (Inr res, w3) \<Rightarrow> hs_Status resp = (if cr_Duplicate res then 200 else 202) \<and> w2 = w3
                \<and> hs_Body resp = hs_Body (writeJSON 200 (notification_json (ro_ctx sample_router) (toNotificationResponse (cr_Request res) [])))))"
    by (rule POST_notifications_outcome [OF _ _ _ _ _ _ token])
      (simp_all add: sample_post_def sample_http_def sample_router_def authHeader_def correlationHeader_def)
  moreover have "ro_ctx sample_router = sample_ctx" by (simp add: sample_router_def)
  ultimately show ?thesis using inp create by auto
qed

end
