(* ===== verification/Provider.thy ===== *)
theory Provider
  imports Worker Json GoTime Float64
begin

text \<open>
  The package \<open>internal/adapters/provider\<close>: the webhook client (webhook.go) and the circuit breaker
  around it (breaker.go).  The HTTP transport is the argument \<open>wh_Do\<close>, which takes the whole request
  and answers with a reply or a network error; \<open>bk_Execute\<close> is \<open>CircuitBreaker.Execute\<close> of the
  \<open>gobreaker\<close> library for the breaker with the given settings, whose counters are part of the world.
  Tracing is left out.
\<close>

section \<open>Dates of the Retry-After header (http.ParseTime)\<close>

text \<open>
  \<open>parse_http_date\<close> is \<open>time.Parse\<close> with the layout \<open>Mon, 02 Jan 2006 15:04:05 GMT\<close>: names in any
  case, the name of the day unchecked, a blank of the layout for one or more blanks.  The two obsolete
  layouts that \<open>http.ParseTime\<close> tries afterwards are the argument \<open>legacy\<close>.
\<close>

definition lower_byte :: "char \<Rightarrow> nat" where
  "lower_byte c = (let n = (of_char c :: nat) in if n mod 64 < 32 then n + 32 else n)"

definition name_byte :: "char \<Rightarrow> char \<Rightarrow> bool" where
  "name_byte a b \<longleftrightarrow> a = b \<or> (lower_byte a = lower_byte b \<and> 97 \<le> lower_byte a \<and> lower_byte a \<le> 122)"

fun lookup_name :: "nat \<Rightarrow> string list \<Rightarrow> string \<Rightarrow> (nat \<times> string) option" where
  "lookup_name i [] s = None"
| "lookup_name i (n # ns) s =
     (if length n \<le> length s \<and> list_all2 name_byte (take (length n) s) n then Some (i, drop (length n) s)
      else lookup_name (Suc i) ns s)"

definition short_days :: "string list" where
  "short_days = [''Sun'', ''Mon'', ''Tue'', ''Wed'', ''Thu'', ''Fri'', ''Sat'']"

definition short_months :: "string list" where
  "short_months = [''Jan'', ''Feb'', ''Mar'', ''Apr'', ''May'', ''Jun'', ''Jul'', ''Aug'', ''Sep'', ''Oct'', ''Nov'', ''Dec'']"

definition skip_blank :: "string \<Rightarrow> string option" where
  "skip_blank s = (case s of [] \<Rightarrow> Some [] | c # cs \<Rightarrow> if c = CHR '' '' then Some (dropWhile (\<lambda>c. c = CHR '' '') s) else None)"

definition parse_http_date :: "string \<Rightarrow> gotime option" where
  "parse_http_date s = do {
     (_, s) \<leftarrow> lookup_name 0 short_days s;
     s \<leftarrow> expect CHR '','' s;
     s \<leftarrow> skip_blank s;
     (d, s) \<leftarrow> num_field 2 s;
     s \<leftarrow> skip_blank s;
     (mo, s) \<leftarrow> lookup_name 1 short_months s;
     s \<leftarrow> skip_blank s;
     (y, s) \<leftarrow> num_field 4 s;
     s \<leftarrow> skip_blank s;
     (h, s) \<leftarrow> hour_field False s;
     s \<leftarrow> expect CHR '':'' s;
     (mi, s) \<leftarrow> num_field 2 s;
     s \<leftarrow> expect CHR '':'' s;
     (sec, s) \<leftarrow> num_field 2 s;
     (let (ns, s) = fraction_field False s in do {
       s \<leftarrow> skip_blank s;
       _ \<leftarrow> ensure (s = ''GMT'' \<and> 1 \<le> d \<and> d \<le> days_in_month y mo \<and> h < 24 \<and> mi < 60 \<and> sec < 60);
       Some (time_of_fields y mo d h mi sec ns 0)
     })
   }"

definition http_ParseTime :: "(string \<Rightarrow> gotime option) \<Rightarrow> string \<Rightarrow> gotime option" where
  "http_ParseTime legacy s = (case parse_http_date s of Some t \<Rightarrow> Some t | None \<Rightarrow> legacy s)"

text \<open>\<open>time.Until\<close>: the difference, saturating at the ends of the int64 range.\<close>

definition time_Until :: "gotime \<Rightarrow> gotime \<Rightarrow> duration" where
  "time_Until now t = max (- (2 ^ 63)) (min (2 ^ 63 - 1) (t - now))"

section \<open>The webhook client (webhook.go)\<close>

record WebhookCall =
  call_Method :: string
  call_URL :: string
  call_Timeout :: duration
  call_Headers :: "(string \<times> string) list"
  call_Body :: string

record WebhookReply =
  rp_StatusCode :: int
  rp_Header :: "string \<Rightarrow> string"
  rp_Body :: string

record 'w WebhookClient =
  wh_url :: string
  wh_timeout :: duration
  wh_NewRequest :: "string \<Rightarrow> string option"
  wh_Do :: "WebhookCall \<Rightarrow> 'w \<Rightarrow> (string + WebhookReply) \<times> 'w"
  wh_Now :: "'w \<Rightarrow> gotime \<times> 'w"
  wh_legacyTime :: "string \<Rightarrow> gotime option"

text \<open>\<open>ports\<close> holds the transport and the clock; \<open>wh_NewRequest\<close> is the complaint of \<open>http.NewRequest\<close> about a URL.\<close>

definition NewWebhookClient :: "string \<Rightarrow> duration \<Rightarrow> 'w WebhookClient \<Rightarrow> 'w WebhookClient" where
  "NewWebhookClient url timeout ports = ports\<lparr>wh_url := url, wh_timeout := timeout\<rparr>"

definition requestBody_json :: "ProviderRequest \<Rightarrow> json" where
  "requestBody_json req = JObject
     [(''to'', json_string (pr_To req)), (''channel'', json_string (pr_Channel req)), (''content'', json_string (pr_Content req))]"

record responseBody =
  rb_MessageID :: string
  rb_Status :: string
  rb_Timestamp :: string

text \<open>
  The error of \<open>Unmarshal\<close> is ignored: a document with a syntax error leaves the zero value, and a
  member of another type than string is skipped.
\<close>

definition set_response_field :: "string \<Rightarrow> json \<Rightarrow> responseBody \<Rightarrow> responseBody option" where
  "set_response_field f v rb =
     (let keep = (\<lambda>old. case decode_string v old of Some s \<Rightarrow> s | None \<Rightarrow> old) in
      if f = ''messageId'' then Some (rb\<lparr>rb_MessageID := keep (rb_MessageID rb)\<rparr>)
      else if f = ''status'' then Some (rb\<lparr>rb_Status := keep (rb_Status rb)\<rparr>)
      else Some (rb\<lparr>rb_Timestamp := keep (rb_Timestamp rb)\<rparr>))"

definition read_responseBody :: "string \<Rightarrow> responseBody" where
  "read_responseBody body =
     (let zero = \<lparr>rb_MessageID = [], rb_Status = [], rb_Timestamp = []\<rparr> in
      case parse_json body of None \<Rightarrow> zero
      | Some v \<Rightarrow> (case decode_struct [''messageId'', ''status'', ''timestamp''] False set_response_field v zero of
          Some rb \<Rightarrow> rb | None \<Rightarrow> zero))"

definition parseSuccess :: "gotime \<Rightarrow> string \<Rightarrow> ProviderResult" where
  "parseSuccess now body =
     (let rb = read_responseBody body;
          ts = (if rb_Timestamp rb = [] then now
                else case ParseRFC3339 (rb_Timestamp rb) of Some t \<Rightarrow> t | None \<Rightarrow> now)
      in \<lparr>res_MessageID = rb_MessageID rb, res_Status = (if rb_Status rb = [] then ''accepted'' else rb_Status rb),
          res_Timestamp = ts\<rparr>)"

definition parseRetryAfter :: "(string \<Rightarrow> gotime option) \<Rightarrow> gotime \<Rightarrow> string \<Rightarrow> duration option" where
  "parseRetryAfter legacy now header =
     (if header = [] then None
      else case Atoi header of
          Some secs \<Rightarrow> Some (wrap64 (secs * Second))
        | None \<Rightarrow>
            (case http_ParseTime legacy header of
               Some t \<Rightarrow> Some (let d = time_Until now t in if d < 0 then 0 else d)
             | None \<Rightarrow> None))"

text \<open>A \<open>ProviderError\<close> as the caller sees it: its text and itself.\<close>

definition provider_error :: "bool \<Rightarrow> int \<Rightarrow> duration option \<Rightarrow> string \<Rightarrow> send_error + ProviderResult" where
  "provider_error permanent status retryAfter msg =
     Inl (msg, Some \<lparr>pe_Permanent = permanent, pe_StatusCode = status, pe_RetryAfter = retryAfter,
                     pe_BreakerOpen = False, pe_Err = Some msg\<rparr>)"

definition webhook_call :: "'w WebhookClient \<Rightarrow> ProviderRequest \<Rightarrow> WebhookCall" where
  "webhook_call C req =
     \<lparr>call_Method = ''POST'', call_URL = wh_url C, call_Timeout = wh_timeout C,
      call_Headers = [(''Content-Type'', ''application/json''), (''Idempotency-Key'', pr_DeliveryID req)],
      call_Body = render (requestBody_json req)\<rparr>"

definition classify_reply :: "'w WebhookClient \<Rightarrow> WebhookReply \<Rightarrow> 'w \<Rightarrow> (send_error + ProviderResult) \<times> 'w" where
  "classify_reply C resp w =
     (let status = rp_StatusCode resp; respBytes = take (2 ^ 20) (rp_Body resp) in
      if status \<ge> 200 \<and> status < 300
      then let (now, w1) = wh_Now C w in (Inr (parseSuccess now respBytes), w1)
      else if status = 429
      then let (now, w1) = wh_Now C w in
        (provider_error False status (parseRetryAfter (wh_legacyTime C) now (rp_Header resp ''Retry-After''))
           (''provider rate limited: '' @ respBytes), w1)
      else if status \<ge> 400 \<and> status < 500
      then (provider_error True status None (''provider rejected ('' @ FormatInt status @ ''): '' @ respBytes), w)
      else (provider_error False status None (''provider error ('' @ FormatInt status @ ''): '' @ respBytes), w))"

definition WebhookClient_Send :: "'w WebhookClient \<Rightarrow> ProviderRequest \<Rightarrow> 'w \<Rightarrow> (send_error + ProviderResult) \<times> 'w" where
  "WebhookClient_Send C req w =
     (case wh_NewRequest C (wh_url C) of
        Some e \<Rightarrow> (provider_error True 0 None (''build request: '' @ e), w)
      | None \<Rightarrow>
          (case wh_Do C (webhook_call C req) w of
             (Inl e, w1) \<Rightarrow> (provider_error False 0 None (''provider call: '' @ e), w1)
           | (Inr resp, w1) \<Rightarrow> classify_reply C resp w1))"

section \<open>The circuit breaker (breaker.go)\<close>

record BreakerConfig =
  bc_FailureRateThreshold :: float64
  bc_MinRequests :: "32 word"
  bc_Window :: duration
  bc_OpenTimeout :: duration
  bc_HalfOpenMax :: "32 word"

datatype CircuitState = StateClosed | StateHalfOpen | StateOpen

record Counts =
  ct_Requests :: "32 word"
  ct_TotalFailures :: "32 word"

record 'w Settings =
  st_Name :: string
  st_MaxRequests :: "32 word"
  st_Interval :: duration
  st_Timeout :: duration
  st_ReadyToTrip :: "Counts \<Rightarrow> bool"
  st_IsExcluded :: "send_error \<Rightarrow> bool"
  st_OnStateChange :: "CircuitState \<Rightarrow> 'w \<Rightarrow> 'w"

datatype exec_error = ErrOpenState | ErrTooManyRequests | RequestError send_error

type_synonym 'w sender = "ProviderRequest \<Rightarrow> 'w \<Rightarrow> (send_error + ProviderResult) \<times> 'w"
type_synonym 'w execute =
  "'w Settings \<Rightarrow> ('w \<Rightarrow> (send_error + ProviderResult) \<times> 'w) \<Rightarrow> 'w \<Rightarrow> (exec_error + ProviderResult) \<times> 'w"

record 'w Breaker =
  bk_inner :: "'w sender"
  bk_breakers :: "Channel \<rightharpoonup> 'w Settings"
  bk_Execute :: "'w execute"

definition ReadyToTrip :: "BreakerConfig \<Rightarrow> Counts \<Rightarrow> bool" where
  "ReadyToTrip cfg counts =
     (if ct_Requests counts < bc_MinRequests cfg then False
      else f64_ge (f64_ratio (unat (ct_TotalFailures counts)) (unat (ct_Requests counts))) (bc_FailureRateThreshold cfg))"

definition IsExcluded :: "send_error \<Rightarrow> bool" where
  "IsExcluded err = (case snd err of Some perr \<Rightarrow> pe_Permanent perr | None \<Rightarrow> False)"

definition breaker_settings :: "BreakerConfig \<Rightarrow> (Channel \<Rightarrow> CircuitState \<Rightarrow> 'w \<Rightarrow> 'w) option \<Rightarrow> Channel \<Rightarrow> 'w Settings" where
  "breaker_settings cfg onChange channel =
     \<lparr>st_Name = channel, st_MaxRequests = bc_HalfOpenMax cfg, st_Interval = bc_Window cfg, st_Timeout = bc_OpenTimeout cfg,
      st_ReadyToTrip = ReadyToTrip cfg, st_IsExcluded = IsExcluded,
      st_OnStateChange = (\<lambda>to w. case onChange of None \<Rightarrow> w | Some f \<Rightarrow> f channel to w)\<rparr>"

definition NewBreaker ::
  "'w execute \<Rightarrow> 'w sender \<Rightarrow> BreakerConfig \<Rightarrow> (Channel \<Rightarrow> CircuitState \<Rightarrow> 'w \<Rightarrow> 'w) option \<Rightarrow> 'w Breaker" where
  "NewBreaker execute inner cfg onChange =
     \<lparr>bk_inner = inner, bk_breakers = map_of (map (\<lambda>ch. (ch, breaker_settings cfg onChange ch)) AllChannels),
      bk_Execute = execute\<rparr>"

definition breaker_error :: "string \<Rightarrow> send_error" where
  "breaker_error msg =
     (msg, Some \<lparr>pe_Permanent = False, pe_StatusCode = 0, pe_RetryAfter = None, pe_BreakerOpen = True, pe_Err = Some msg\<rparr>)"

definition Breaker_Send :: "'w Breaker \<Rightarrow> 'w sender" where
  "Breaker_Send B req w =
     (case bk_breakers B (pr_Channel req) of
        None \<Rightarrow> bk_inner B req w
      | Some cb \<Rightarrow>
          (case bk_Execute B cb (bk_inner B req) w of
             (Inl ErrOpenState, w1) \<Rightarrow> (Inl (breaker_error ''circuit breaker is open''), w1)
           | (Inl ErrTooManyRequests, w1) \<Rightarrow> (Inl (breaker_error ''too many requests''), w1)
           | (Inl (RequestError e), w1) \<Rightarrow> (Inl e, w1)
           | (Inr res, w1) \<Rightarrow> (Inr res, w1)))"

end
