(* ===== verification/Provider_Props.thy ===== *)
theory Provider_Props
  imports Provider Worker_Outcome
begin

text \<open>
  Correctness of the provider adapter together with the retry policy and the worker that use it:
  the status code decides what becomes of a delivery, and an open breaker costs no attempt.
\<close>

section \<open>The status code decides\<close>

lemma Atoi_FormatInt: "- (2 ^ 63) \<le> k \<Longrightarrow> k < 2 ^ 63 \<Longrightarrow> Atoi (FormatInt k) = Some k"
  by (simp add: Atoi_def ParseInt_FormatInt)

lemma parseRetryAfter_seconds:
  assumes "\<bar>k\<bar> \<le> 9223372036"
  shows "parseRetryAfter legacy now (FormatInt k) = Some (k * Second)"
proof -
  have "wrap64 (k * Second) = k * Second" using assms by (intro wrap64_id) (simp_all add: Second_def)
  then show ?thesis using assms by (simp add: parseRetryAfter_def Atoi_FormatInt)
qed

text \<open>What an untyped, transient error leads to: the attempt counts and the backoff applies.\<close>

abbreviation transient :: "Policy \<Rightarrow> rat \<Rightarrow> gotime \<Rightarrow> int \<Rightarrow> Outcome option" where
  "transient p u now n \<equiv> EvaluateFailure p u now n None"


text \<open>
  A \<open>Retry-After\<close> of more seconds than an int64 of nanoseconds holds wraps around: what the
  client is told to wait is then unrelated to the header, even less than a second.
\<close>

theorem parseRetryAfter_wraps:
  "parseRetryAfter legacy now (FormatInt 18446744074) = Some 290448384 \<and> (290448384 :: duration) < Second
   \<and> parseRetryAfter legacy now (FormatInt 9223372037) = Some (- 9223372036709551616)"
  by (simp add: parseRetryAfter_def Atoi_FormatInt wrap64_def Second_def)

section \<open>An open breaker\<close>

text \<open>
  What \<open>gobreaker\<close> documents of \<open>Execute\<close>: the breaker either refuses a request at once, or runs it
  exactly once, accounts for its outcome and returns it.
\<close>

definition gobreaker_law ::
  "'w execute \<Rightarrow> ('w Settings \<Rightarrow> 'w \<Rightarrow> bool option \<times> 'w) \<Rightarrow> ('w Settings \<Rightarrow> send_error option \<Rightarrow> 'w \<Rightarrow> 'w) \<Rightarrow> bool" where
  "gobreaker_law execute admit settle \<longleftrightarrow> (\<forall>S run w. execute S run w =
     (case admit S w of
        (Some tooMany, w1) \<Rightarrow> (Inl (if tooMany then ErrTooManyRequests else ErrOpenState), w1)
      | (None, w1) \<Rightarrow>
          (case run w1 of
             (Inl e, w2) \<Rightarrow> (Inl (RequestError e), settle S (Some e) w2)
           | (Inr res, w2) \<Rightarrow> (Inr res, settle S None w2))))"

definition protected_worker :: "'w Worker \<Rightarrow> 'w Breaker \<Rightarrow> 'w Worker" where
  "protected_worker W B = W\<lparr>pv_Send := Breaker_Send B\<rparr>"

definition send_request :: "'w Worker \<Rightarrow> Delivery \<Rightarrow> Request \<Rightarrow> ProviderRequest" where
  "send_request W del req =
     \<lparr>pr_DeliveryID = wk_UUIDString W (d_ID del), pr_To = r_Recipient req, pr_Channel = d_Channel del, pr_Content = r_RenderedContent req\<rparr>"

lemma Breaker_Send_refused:
  assumes "gobreaker_law (bk_Execute B) admit settle" "bk_breakers B (pr_Channel req) = Some S" "admit S w = (Some m, w')"
  shows "\<exists>msg. Breaker_Send B req w = (Inl (breaker_error msg), w')"
  using assms by (auto simp: Breaker_Send_def gobreaker_law_def)


text \<open>
  What trips a breaker: a rejection that fails its delivery for good never counts, and the
  breaker stays closed until the configured number of requests has been seen.
\<close>

theorem breaker_accounting:
  assumes "bk_breakers (NewBreaker execute (WebhookClient_Send C) cfg onChange) channel = Some S"
    and url: "wh_NewRequest C (wh_url C) = None"
    and reply: "wh_Do C (webhook_call C req) w = (Inr r, w1)" and err: "fst (WebhookClient_Send C req w) = Inl e"
  shows "(st_IsExcluded S e \<longleftrightarrow> 400 \<le> rp_StatusCode r \<and> rp_StatusCode r < 500 \<and> rp_StatusCode r \<noteq> 429)
    \<and> (ct_Requests counts < bc_MinRequests cfg \<longrightarrow> \<not> st_ReadyToTrip S counts)
    \<and> (bc_FailureRateThreshold cfg = Finite x \<and> 0 < x \<and> ct_TotalFailures counts = 0 \<longrightarrow> \<not> st_ReadyToTrip S counts)"
proof -
  have S: "S = breaker_settings cfg onChange channel"
    using assms(1) by (auto simp: NewBreaker_def AllChannels_def split: if_splits)
  have "IsExcluded e \<longleftrightarrow> 400 \<le> rp_StatusCode r \<and> rp_StatusCode r < 500 \<and> rp_StatusCode r \<noteq> 429"
    using url reply err
    by (auto simp: WebhookClient_Send_def classify_reply_def provider_error_def IsExcluded_def Let_def split: if_splits prod.splits)
  then show ?thesis by (auto simp: S breaker_settings_def ReadyToTrip_def f64_ratio_def)
qed


section \<open>Concrete replies\<close>

definition sample_client :: "(string + WebhookReply) \<Rightarrow> world WebhookClient" where
  "sample_client reply =
     \<lparr>wh_url = ''http://p'', wh_timeout = 10 * Second, wh_NewRequest = (\<lambda>u. None), wh_Do = (\<lambda>c w. (reply, w)),
      wh_Now = clock_Now, wh_legacyTime = (\<lambda>s. None)\<rparr>"

definition sample_reply :: "int \<Rightarrow> int \<Rightarrow> WebhookReply" where
  "sample_reply status k = \<lparr>rp_StatusCode = status, rp_Header = (\<lambda>h. FormatInt k), rp_Body = []\<rparr>"

definition sample_send :: ProviderRequest where
  "sample_send = \<lparr>pr_DeliveryID = ''d'', pr_To = ''t'', pr_Channel = ChannelSMS, pr_Content = ''c''\<rparr>"


text \<open>A breaker that is open, and one that always admits.\<close>

definition sample_execute :: "bool \<Rightarrow> 'w execute" where
  "sample_execute opened S run w =
     (if opened then (Inl ErrOpenState, w)
      else case run w of (Inl e, w2) \<Rightarrow> (Inl (RequestError e), w2) | (Inr res, w2) \<Rightarrow> (Inr res, w2))"

definition sample_breaker :: "world Breaker" where
  "sample_breaker = NewBreaker (sample_execute True) (WebhookClient_Send (sample_client (Inr (sample_reply 202 0))))
     \<lparr>bc_FailureRateThreshold = Finite (1/2), bc_MinRequests = 20, bc_Window = Minute, bc_OpenTimeout = 30 * Second, bc_HalfOpenMax = 5\<rparr> None"


theorem breaker_accounting_witness:
  "\<exists>S e. bk_breakers (NewBreaker (sample_execute False) (WebhookClient_Send (sample_client (Inr (sample_reply 404 0))))
        \<lparr>bc_FailureRateThreshold = Finite (1/2), bc_MinRequests = 20, bc_Window = Minute, bc_OpenTimeout = 30 * Second, bc_HalfOpenMax = 5\<rparr> None) ChannelSMS = Some S
    \<and> fst (WebhookClient_Send (sample_client (Inr (sample_reply 404 0))) sample_send sample_world) = Inl e
    \<and> st_IsExcluded S e \<and> \<not> st_ReadyToTrip S \<lparr>ct_Requests = 3, ct_TotalFailures = 3\<rparr>"
proof -
  let ?C = "sample_client (Inr (sample_reply 404 0))"
  let ?cfg = "\<lparr>bc_FailureRateThreshold = Finite (1/2), bc_MinRequests = 20, bc_Window = Minute, bc_OpenTimeout = 30 * Second, bc_HalfOpenMax = 5\<rparr>"
  obtain S where S: "bk_breakers (NewBreaker (sample_execute False) (WebhookClient_Send ?C) ?cfg None) ChannelSMS = Some S"
    by (simp add: NewBreaker_def AllChannels_def ChannelSMS_def ChannelEmail_def ChannelPush_def)
  obtain e where e: "fst (WebhookClient_Send ?C sample_send sample_world) = Inl e"
    by (simp add: WebhookClient_Send_def sample_client_def sample_reply_def classify_reply_def provider_error_def)
  have "wh_NewRequest ?C (wh_url ?C) = None" "wh_Do ?C (webhook_call ?C sample_send) sample_world = (Inr (sample_reply 404 0), sample_world)"
    by (simp_all add: sample_client_def)
  from breaker_accounting [OF S this e, of "\<lparr>ct_Requests = 3, ct_TotalFailures = 3\<rparr>"] S e show ?thesis
    by (auto simp: sample_reply_def)
qed

end
