(* ===== verification/Integration.thy ===== *)
theory Integration
  imports Store_Inv Template
begin

text \<open>
  The helpers of \<open>adapters/postgres/store.go\<close> for tests that share one database: the advisory lock
  that makes them take turns and the reset of the tables.  A session of the server is the connection
  it runs on.  An \<open>acquired\<close> argument is the answer of the pool, which hands out a connection that
  nobody else has; a waiting statement is \<open>None\<close>.
\<close>

section \<open>The advisory lock\<close>

text \<open>
  Who holds the lock with the key of the tests and how often that session took it
  (\<open>pg_advisory_lock\<close> may be nested), and the connections the pool has handed out.
\<close>

record lock_server =
  ls_owner :: "nat option"
  ls_depth :: nat
  ls_busy :: "nat list"

definition pg_advisory_lock :: "nat \<Rightarrow> lock_server \<Rightarrow> lock_server option" where
  "pg_advisory_lock conn s =
     (if ls_owner s = None \<or> ls_owner s = Some conn
      then Some (s\<lparr>ls_owner := Some conn, ls_depth := Suc (ls_depth s)\<rparr>) else None)"

definition pg_advisory_unlock :: "nat \<Rightarrow> lock_server \<Rightarrow> lock_server" where
  "pg_advisory_unlock conn s =
     (if ls_owner s \<noteq> Some conn then s
      else if ls_depth s \<le> 1 then s\<lparr>ls_owner := None, ls_depth := 0\<rparr>
      else s\<lparr>ls_depth := ls_depth s - 1\<rparr>)"

definition conn_Release :: "nat \<Rightarrow> lock_server \<Rightarrow> lock_server" where
  "conn_Release conn s = s\<lparr>ls_busy := removeAll conn (ls_busy s)\<rparr>"

record integrationTestLock =
  il_conn :: "nat option"

definition HoldIntegrationTestLock ::
  "string + nat \<Rightarrow> fault \<Rightarrow> lock_server \<Rightarrow> ((string + integrationTestLock) \<times> lock_server) option" where
  "HoldIntegrationTestLock acquired flt s =
     (case acquired of
        Inl e \<Rightarrow> Some (Inl (''acquire conn: '' @ e), s)
      | Inr conn \<Rightarrow>
          (let s1 = s\<lparr>ls_busy := conn # ls_busy s\<rparr> in
           case flt of
             Some e \<Rightarrow> Some (Inl (''advisory lock: '' @ e), conn_Release conn s1)
           | None \<Rightarrow>
               (case pg_advisory_lock conn s1 of
                  None \<Rightarrow> None
                | Some s2 \<Rightarrow> Some (Inr \<lparr>il_conn = Some conn\<rparr>, s2))))"

text \<open>The receiver may be \<open>nil\<close>; the result is the lock object afterwards.\<close>

definition Release :: "fault \<Rightarrow> integrationTestLock option \<Rightarrow> lock_server \<Rightarrow> integrationTestLock option \<times> lock_server" where
  "Release flt l s =
     (case l of
        None \<Rightarrow> (None, s)
      | Some lk \<Rightarrow>
          (case il_conn lk of
             None \<Rightarrow> (Some lk, s)
           | Some conn \<Rightarrow>
               (let s1 = (case flt of None \<Rightarrow> pg_advisory_unlock conn s | Some _ \<Rightarrow> s)
                in (Some (lk\<lparr>il_conn := None\<rparr>), conn_Release conn s1))))"

definition releaseIntegrationLock ::
  "fault \<Rightarrow> integrationTestLock option \<Rightarrow> lock_server \<Rightarrow> integrationTestLock option \<times> lock_server" where
  "releaseIntegrationLock flt lock s = (if lock \<noteq> None then Release flt lock s else (lock, s))"

section \<open>Resetting the tables\<close>

definition integration_template :: "gotime \<Rightarrow> Template" where
  "integration_template now =
     \<lparr>t_ID = 1, t_Name = ''verification_code'', t_Channel = ChannelSMS, t_Content = ''Your code is {{code}}'',
      t_RequiredVariables = [''code''], t_CreatedAt = now\<rparr>"

text \<open>The two statements are not one transaction: each has its own outcome.\<close>

definition ResetIntegrationDB :: "fault \<Rightarrow> fault \<Rightarrow> gotime \<Rightarrow> store \<Rightarrow> unit result \<times> store" where
  "ResetIntegrationDB flt1 flt2 now st =
     (case flt1 of
        Some e \<Rightarrow> (Inl (ErrInfra (''truncate: '' @ e)), st)
      | None \<Rightarrow>
          (let st1 = st\<lparr>outbox := [], deliveries := [], requests := [], batches := [], templates := []\<rparr> in
           case flt2 of
             Some e \<Rightarrow> (Inl (ErrInfra (''seed template: '' @ e)), st1)
           | None \<Rightarrow>
               (Inr (),
                if list_ex (\<lambda>t. t_ID t = 1) (templates st1) then st1
                else st1\<lparr>templates := templates st1 @ [integration_template now]\<rparr>)))"

section \<open>The tests take turns\<close>

text \<open>
  Any number of tests on one server: \<open>cs\<close> are the connections of the lock objects that have been
  handed out and not yet released.
\<close>

inductive lock_step :: "lock_server \<times> nat list \<Rightarrow> lock_server \<times> nat list \<Rightarrow> bool" where
  Hold: "c \<notin> set (ls_busy s) \<Longrightarrow> HoldIntegrationTestLock (Inr c) flt s = Some (Inr l, s') \<Longrightarrow>
    lock_step (s, cs) (s', c # cs)"
| Refuse: "(\<And>c. acquired = Inr c \<Longrightarrow> c \<notin> set (ls_busy s)) \<Longrightarrow> HoldIntegrationTestLock acquired flt s = Some (Inl e, s') \<Longrightarrow>
    lock_step (s, cs) (s', cs)"
| Unlock: "c \<in> set cs \<Longrightarrow> releaseIntegrationLock flt (Some \<lparr>il_conn = Some c\<rparr>) s = (l, s') \<Longrightarrow>
    lock_step (s, cs) (s', remove1 c cs)"

definition turn :: "lock_server \<times> nat list \<Rightarrow> bool" where
  "turn x \<longleftrightarrow> (case x of (s, cs) \<Rightarrow> cs = [] \<or> (\<exists>c. cs = [c] \<and> ls_owner s = Some c \<and> c \<in> set (ls_busy s)))"

lemma turn_step:
  assumes "lock_step x y" "turn x"
  shows "turn y"
  using assms(1)
proof (cases rule: lock_step.cases)
  case (Hold c s flt l s' cs)
  then have "s' = s\<lparr>ls_busy := c # ls_busy s, ls_owner := Some c, ls_depth := Suc (ls_depth s)\<rparr>"
    "ls_owner s = None \<or> ls_owner s = Some c"
    by (auto simp: HoldIntegrationTestLock_def pg_advisory_lock_def Let_def split: option.splits if_splits)
  moreover have "cs = []" using assms(2) Hold(1,3) calculation(2) by (auto simp: turn_def)
  ultimately show ?thesis using Hold(2) by (simp add: turn_def)
next
  case (Refuse acquired s flt e s' cs)
  then have "ls_owner s' = ls_owner s" "set (ls_busy s') = set (ls_busy s)"
    by (auto simp: HoldIntegrationTestLock_def conn_Release_def Let_def split: option.splits sum.splits)
  then show ?thesis using assms(2) Refuse(1,2) by (simp add: turn_def)
next
  case (Unlock c cs flt s l s')
  then show ?thesis using assms(2) by (auto simp: turn_def)
qed

lemma turn_steps: "lock_step\<^sup>*\<^sup>* x y \<Longrightarrow> turn x \<Longrightarrow> turn y"
  by (induction rule: rtranclp_induct) (auto intro: turn_step)

text \<open>At any time at most one test holds the lock, whichever statements fail.\<close>

theorem tests_take_turns:
  assumes "lock_step\<^sup>*\<^sup>* (\<lparr>ls_owner = None, ls_depth = 0, ls_busy = []\<rparr>, []) (s, cs)"
  shows "length cs \<le> 1 \<and> (\<forall>c\<in>set cs. ls_owner s = Some c)"
  using turn_steps [OF assms] by (auto simp: turn_def)

text \<open>
  After its release a lock object is inert, and the lock is free for the next test when the unlock
  statement succeeded.  When it failed, the session goes back to the pool with the lock, and a test
  that gets another connection waits.
\<close>

lemma Release_frees:
  assumes "ls_owner s = None" "HoldIntegrationTestLock (Inr c) None s = Some (Inr l, s1)" "ls_depth s = 0"
  shows "Release None (Some l) s1 = (Some \<lparr>il_conn = None\<rparr>, conn_Release c (s\<lparr>ls_busy := c # ls_busy s\<rparr>))"
  using assms by (auto simp: HoldIntegrationTestLock_def pg_advisory_lock_def Release_def pg_advisory_unlock_def Let_def conn_Release_def)

lemma Release_twice: "Release flt l s = (l', s') \<Longrightarrow> Release flt' l' s' = (l', s')"
  by (auto simp: Release_def Let_def split: option.splits)

lemma failed_unlock_blocks:
  assumes "HoldIntegrationTestLock (Inr c) None s = Some (Inr l, s1)" "Release (Some e) (Some l) s1 = (l', s2)" "c' \<noteq> c"
  shows "HoldIntegrationTestLock (Inr c') None s2 = None"
  using assms
  by (auto simp: HoldIntegrationTestLock_def pg_advisory_lock_def Release_def conn_Release_def Let_def split: if_splits)

section \<open>What a reset leaves\<close>

text \<open>
  Whatever the tables held, a reset that succeeds leaves them consistent, with no request, delivery or
  outbox row and the one template, and never touches archive and partitions.
\<close>

lemma ResetIntegrationDB_resets:
  assumes "ResetIntegrationDB flt1 flt2 now st = (Inr (), st')"
  shows "store_inv st'" "requests st' = []" "deliveries st' = []" "outbox st' = []" "batches st' = []"
    "templates st' = [integration_template now]" "archived st' = archived st" "partitions st' = partitions st"
  using assms
  by (auto simp: ResetIntegrationDB_def store_inv_def wf_store_def counters_ok_def status_ok_def Let_def split: option.splits)

text \<open>A reset that fails leaves the tables as they were, or emptied and without a template.\<close>

lemma ResetIntegrationDB_fails:
  assumes "ResetIntegrationDB flt1 flt2 now st = (Inl err, st')"
  shows "st' = st \<or> templates st' = [] \<and> requests st' = [] \<and> store_inv st'"
  using assms
  by (auto simp: ResetIntegrationDB_def store_inv_def wf_store_def counters_ok_def status_ok_def Let_def split: option.splits)

lemma ResetIntegrationDB_keeps_store_inv:
  "store_inv st \<Longrightarrow> store_inv (snd (ResetIntegrationDB flt1 flt2 now st))"
  using ResetIntegrationDB_resets(1) ResetIntegrationDB_fails [of flt1 flt2 now st]
  by (cases "ResetIntegrationDB flt1 flt2 now st"; cases "fst (ResetIntegrationDB flt1 flt2 now st)") auto

text \<open>The template the tests rely on is found and renders.\<close>

lemma reset_template_renders:
  assumes "ResetIntegrationDB flt1 flt2 now st = (Inr (), st')"
  shows "Render (\<lambda>i. GetTemplateByID None i st') 1 ChannelSMS [''code'' \<mapsto> ''42''] = Inr (integration_template now, ''Your code is 42'')"
proof -
  have "GetTemplateByID None 1 st' = Inr (integration_template now)"
    using ResetIntegrationDB_resets(6) [OF assms] by (simp add: GetTemplateByID_def find_row_def integration_template_def)
  moreover have "TrimSpace ''42'' = ''42''" by code_simp
  then have "MissingVariables [''code''] [''code'' \<mapsto> ''42''] = []" by (simp add: MissingVariables_def)
  moreover have "RenderContent ''Your code is {{code}}'' [''code'' \<mapsto> ''42''] = ''Your code is 42''"
    by code_simp
  ultimately show ?thesis by (simp add: Render_def integration_template_def)
qed

end
