(* ===== verification/Metrics.thy ===== *)
theory Metrics
  imports Domain Float64
begin

text \<open>
  The package \<open>internal/platform/metrics\<close>: the collectors it registers and the helpers that update
  them.  The client library is not modelled; a helper is the update it asks for, and
  \<open>admissible\<close> states when the library carries an update out instead of panicking.
\<close>

section \<open>Collectors\<close>

datatype metric_kind = Counter | Gauge | Histogram "rat list"

record collector =
  mc_Name :: string
  mc_Help :: string
  mc_Kind :: metric_kind
  mc_Labels :: "string list"

definition collector_of :: "metric_kind \<Rightarrow> string \<Rightarrow> string \<Rightarrow> string list \<Rightarrow> collector" where
  "collector_of kind name help labels = \<lparr>mc_Name = name, mc_Help = help, mc_Kind = kind, mc_Labels = labels\<rparr>"

text \<open>\<open>prometheus.DefBuckets\<close>.\<close>

definition DefBuckets :: "rat list" where
  "DefBuckets = [5/1000, 1/100, 25/1000, 5/100, 1/10, 25/100, 5/10, 1, 25/10, 5, 10]"

definition Metrics_New :: "collector list" where
  "Metrics_New =
     [collector_of Counter ''notifications_created_total'' ''Total notification requests created.'' [''channel'', ''priority''],
      collector_of Counter ''deliveries_sent_total'' ''Total deliveries sent successfully.'' [''channel'', ''priority''],
      collector_of Counter ''deliveries_failed_total'' ''Total deliveries that reached the FAILED terminal state.'' [''channel'', ''priority''],
      collector_of Counter ''retry_total'' ''Total delivery retries scheduled.'' [''channel'', ''priority''],
      collector_of Counter ''deliveries_promoted_total'' ''Total scheduled deliveries promoted to pending.'' [],
      collector_of Counter ''locks_reclaimed_total'' ''Total stuck PROCESSING deliveries reclaimed by the reaper.'' [],
      collector_of Counter ''reconciled_total'' ''Total orphaned PENDING deliveries re-enqueued by reconciliation.'' [],
      collector_of Gauge ''queue_depth'' ''Number of entries per stream.'' [''stream''],
      collector_of Gauge ''outbox_unpublished'' ''Number of unpublished outbox rows (relay backlog).'' [],
      collector_of Gauge ''scheduler_lag_seconds'' ''Seconds between now and the oldest due, unpromoted delivery.'' [],
      collector_of Gauge ''provider_circuit_state'' ''Circuit breaker state per channel (0 closed, 1 half-open, 2 open).'' [''channel''],
      collector_of (Histogram DefBuckets) ''provider_latency_seconds'' ''Latency of provider calls.'' [''channel''],
      collector_of (Histogram DefBuckets) ''delivery_processing_seconds'' ''End-to-end worker processing time per delivery.'' [''channel'', ''priority''],
      collector_of (Histogram [1/10, 1/4, 1/2, 1, 2, 5, 10, 30, 60, 120, 300, 600]) ''delivery_e2e_latency_seconds''
        ''Time from API create (delivery created_at) to successful send.'' [''channel'', ''priority''],
      collector_of Counter ''dlq_messages_total'' ''Total messages published to the dead-letter stream.'' [''reason''],
      collector_of Counter ''poison_messages_total'' ''Total unparseable stream entries dropped to DLQ.'' [],
      collector_of Gauge ''queue_pending'' ''Pending (unacked) entries per stream for the consumer group.'' [''stream'']]"

section \<open>Updates\<close>

datatype metric_op =
    CounterAdd string "string list" rat
  | GaugeSet string "string list" rat
  | HistogramObserve string "string list" rat

definition IncCreated :: "Channel \<Rightarrow> Priority \<Rightarrow> metric_op" where
  "IncCreated c p = CounterAdd ''notifications_created_total'' [c, p] 1"

definition IncSent :: "Channel \<Rightarrow> Priority \<Rightarrow> metric_op" where
  "IncSent c p = CounterAdd ''deliveries_sent_total'' [c, p] 1"

definition IncFailed :: "Channel \<Rightarrow> Priority \<Rightarrow> metric_op" where
  "IncFailed c p = CounterAdd ''deliveries_failed_total'' [c, p] 1"

definition IncRetry :: "Channel \<Rightarrow> Priority \<Rightarrow> metric_op" where
  "IncRetry c p = CounterAdd ''retry_total'' [c, p] 1"

definition ObserveProviderLatency :: "Channel \<Rightarrow> rat \<Rightarrow> metric_op" where
  "ObserveProviderLatency c seconds = HistogramObserve ''provider_latency_seconds'' [c] seconds"

definition ObserveProcessing :: "Channel \<Rightarrow> Priority \<Rightarrow> rat \<Rightarrow> metric_op" where
  "ObserveProcessing c p seconds = HistogramObserve ''delivery_processing_seconds'' [c, p] seconds"

definition ObserveE2ELatency :: "Channel \<Rightarrow> Priority \<Rightarrow> rat \<Rightarrow> metric_op" where
  "ObserveE2ELatency c p seconds = HistogramObserve ''delivery_e2e_latency_seconds'' [c, p] seconds"

definition SetCircuitState :: "Channel \<Rightarrow> rat \<Rightarrow> metric_op" where
  "SetCircuitState c state = GaugeSet ''provider_circuit_state'' [c] state"

definition SetQueueDepth :: "string \<Rightarrow> rat \<Rightarrow> metric_op" where
  "SetQueueDepth stream n = GaugeSet ''queue_depth'' [stream] n"

definition SetOutboxUnpublished :: "rat \<Rightarrow> metric_op" where
  "SetOutboxUnpublished n = GaugeSet ''outbox_unpublished'' [] n"

definition SetSchedulerLag :: "rat \<Rightarrow> metric_op" where
  "SetSchedulerLag seconds = GaugeSet ''scheduler_lag_seconds'' [] seconds"

definition AddPromoted :: "rat \<Rightarrow> metric_op" where
  "AddPromoted n = CounterAdd ''deliveries_promoted_total'' [] n"

definition AddReclaimed :: "rat \<Rightarrow> metric_op" where
  "AddReclaimed n = CounterAdd ''locks_reclaimed_total'' [] n"

definition AddReconciled :: "rat \<Rightarrow> metric_op" where
  "AddReconciled n = CounterAdd ''reconciled_total'' [] n"

definition IncDLQ :: "string \<Rightarrow> metric_op" where
  "IncDLQ reason = CounterAdd ''dlq_messages_total'' [reason] 1"

definition IncPoison :: metric_op where
  "IncPoison = CounterAdd ''poison_messages_total'' [] 1"

definition SetQueuePending :: "string \<Rightarrow> rat \<Rightarrow> metric_op" where
  "SetQueuePending stream n = GaugeSet ''queue_pending'' [stream] n"

section \<open>No update panics\<close>

text \<open>
  The library panics when a collector is registered twice, when the number of label values differs
  from the number of labels, and when a counter would decrease.
\<close>

fun admissible :: "collector list \<Rightarrow> metric_op \<Rightarrow> bool" where
  "admissible cs (CounterAdd n ls x) = (0 \<le> x \<and> list_ex (\<lambda>c. mc_Name c = n \<and> mc_Kind c = Counter \<and> length (mc_Labels c) = length ls) cs)"
| "admissible cs (GaugeSet n ls x) = list_ex (\<lambda>c. mc_Name c = n \<and> mc_Kind c = Gauge \<and> length (mc_Labels c) = length ls) cs"
| "admissible cs (HistogramObserve n ls x) = list_ex (\<lambda>c. mc_Name c = n \<and> mc_Kind c \<notin> {Counter, Gauge} \<and> length (mc_Labels c) = length ls) cs"

lemmas metric_ops = IncCreated_def IncSent_def IncFailed_def IncRetry_def ObserveProviderLatency_def ObserveProcessing_def
  ObserveE2ELatency_def SetCircuitState_def SetQueueDepth_def SetOutboxUnpublished_def SetSchedulerLag_def AddPromoted_def
  AddReclaimed_def AddReconciled_def IncDLQ_def IncPoison_def SetQueuePending_def

text \<open>
  The metric names are distinct, and every helper addresses a registered collector of its kind
  with the labels it declares; so neither start-up nor an update can panic, as long as a counter is
  given a non-negative amount.
\<close>

theorem metrics_never_panic:
  "distinct (map mc_Name Metrics_New)
   \<and> list_all (admissible Metrics_New)
      [IncCreated c p, IncSent c p, IncFailed c p, IncRetry c p, ObserveProviderLatency c x, ObserveProcessing c p x,
       ObserveE2ELatency c p x, SetCircuitState c x, SetQueueDepth s x, SetOutboxUnpublished x, SetSchedulerLag x,
       IncDLQ s, IncPoison, SetQueuePending s x]
   \<and> (admissible Metrics_New (AddPromoted y) \<longleftrightarrow> 0 \<le> y) \<and> (admissible Metrics_New (AddReclaimed y) \<longleftrightarrow> 0 \<le> y)
   \<and> (admissible Metrics_New (AddReconciled y) \<longleftrightarrow> 0 \<le> y)"
  by (intro conjI) (simp_all add: metric_ops Metrics_New_def collector_of_def)

end
