(* ===== verification/Startup.thy ===== *)
theory Startup
  imports Config Provider Metrics Redis Router Scheduler Worker
begin

text \<open>
  How the processes are put together: \<open>internal/bootstrap\<close>, the connection pools of
  \<open>adapters/postgres/store.go\<close>, the Redis client, the tracer of \<open>platform/tracing\<close>, and the \<open>main\<close> and
  \<open>run\<close> functions of \<open>cmd/api\<close>, \<open>cmd/worker\<close>, \<open>cmd/scheduler\<close>, \<open>cmd/gentoken\<close>.  A process acts on a
  \<open>sys\<close>: the trace of what it opened, ran and closed, and the outcomes of its fallible library calls,
  which are arbitrary (\<open>sy_outcome k\<close> is the error of the \<open>k\<close>-th call, if it fails).
\<close>

section \<open>The system a process starts on\<close>

text \<open>A tracer provider has a number, the endpoint of its exporter and the service name of its resource.\<close>

datatype resource = TracerProvider nat string string | ConnPool nat | RedisClient nat | HTTPServer string

datatype sys_event =
    Opened resource
  | Closed resource
  | RunningAPI string
  | RunningWorker WorkerConfig
  | RunningScheduler SchedulerConfig

record sys =
  sy_events :: "sys_event list"
  sy_calls :: nat
  sy_outcome :: "nat \<Rightarrow> string option"

definition attempt :: "sys \<Rightarrow> string option \<times> sys" where
  "attempt s = (sy_outcome s (sy_calls s), s\<lparr>sy_calls := Suc (sy_calls s)\<rparr>)"

definition record_event :: "sys_event \<Rightarrow> sys \<Rightarrow> sys" where
  "record_event e s = s\<lparr>sy_events := sy_events s @ [e]\<rparr>"

section \<open>Connection pools (postgres/store.go)\<close>

record Pool =
  pl_id :: nat
  pl_DSN :: string
  pl_MaxConns :: "int option"
  pl_MaxConnIdleTime :: duration

record PoolsConfig =
  pg_PrimaryDSN :: string
  pg_ReaderDSN :: string
  pg_MaxConns :: int

record Pools =
  ps_primary :: Pool
  ps_reader :: Pool

definition Pool_Close :: "Pool \<Rightarrow> sys \<Rightarrow> sys" where
  "Pool_Close p = record_event (Closed (ConnPool (pl_id p)))"

text \<open>\<open>pl_MaxConns\<close> is \<open>None\<close> where the connection string decides.\<close>

definition newPool :: "string \<Rightarrow> int \<Rightarrow> sys \<Rightarrow> (string + Pool) \<times> sys" where
  "newPool dsn maxConns s =
     (case attempt s of
        (Some e, s1) \<Rightarrow> (Inl e, s1)
      | (None, s1) \<Rightarrow>
          (case attempt s1 of
             (Some e, s2) \<Rightarrow> (Inl e, s2)
           | (None, s2) \<Rightarrow>
               (let pool = \<lparr>pl_id = sy_calls s2, pl_DSN = dsn, pl_MaxConns = (if maxConns > 0 then Some maxConns else None),
                            pl_MaxConnIdleTime = 5 * Minute\<rparr>;
                    s3 = record_event (Opened (ConnPool (pl_id pool))) s2
                in case attempt s3 of
                     (Some e, s4) \<Rightarrow> (Inl e, Pool_Close pool s4)
                   | (None, s4) \<Rightarrow> (Inr pool, s4))))"

definition Pools_New :: "PoolsConfig \<Rightarrow> sys \<Rightarrow> (string + Pools) \<times> sys" where
  "Pools_New cfg s =
     (case newPool (pg_PrimaryDSN cfg) (pg_MaxConns cfg) s of
        (Inl e, s1) \<Rightarrow> (Inl (''connect primary: '' @ e), s1)
      | (Inr primary, s1) \<Rightarrow>
          if pg_ReaderDSN cfg \<noteq> [] \<and> pg_ReaderDSN cfg \<noteq> pg_PrimaryDSN cfg
          then (case newPool (pg_ReaderDSN cfg) (pg_MaxConns cfg) s1 of
                  (Inl e, s2) \<Rightarrow> (Inl (''connect reader: '' @ e), Pool_Close primary s2)
                | (Inr reader, s2) \<Rightarrow> (Inr \<lparr>ps_primary = primary, ps_reader = reader\<rparr>, s2))
          else (Inr \<lparr>ps_primary = primary, ps_reader = primary\<rparr>, s1))"

definition Pools_Close :: "Pools \<Rightarrow> sys \<Rightarrow> sys" where
  "Pools_Close st s =
     (let s1 = (if ps_reader st \<noteq> ps_primary st then Pool_Close (ps_reader st) s else s)
      in Pool_Close (ps_primary st) s1)"

definition Pool_Ping :: "Pool \<Rightarrow> sys \<Rightarrow> string option \<times> sys" where
  "Pool_Ping p s = attempt s"

definition Pools_Ping :: "Pools \<Rightarrow> sys \<Rightarrow> string option \<times> sys" where
  "Pools_Ping st s = Pool_Ping (ps_primary st) s"

section \<open>Redis client (redis/client.go)\<close>

record Client =
  rd_id :: nat
  rd_Addr :: string
  rd_Password :: string
  rd_DB :: int

definition Client_Close :: "Client \<Rightarrow> sys \<Rightarrow> sys" where
  "Client_Close c = record_event (Closed (RedisClient (rd_id c)))"

definition NewClient :: "string \<Rightarrow> string \<Rightarrow> int \<Rightarrow> sys \<Rightarrow> (string + Client) \<times> sys" where
  "NewClient addr password db s =
     (let client = \<lparr>rd_id = sy_calls s, rd_Addr = addr, rd_Password = password, rd_DB = db\<rparr>;
          s1 = record_event (Opened (RedisClient (rd_id client))) s
      in case attempt s1 of
           (Some e, s2) \<Rightarrow> (Inl e, Client_Close client s2)
         | (None, s2) \<Rightarrow> (Inr client, s2))"

section \<open>Tracing (platform/tracing)\<close>

record tracing_Config =
  ti_Enabled :: bool
  ti_Endpoint :: string
  ti_ServiceName :: string

text \<open>The result of \<open>Init\<close> is the shutdown function; a disabled tracer shuts nothing down.\<close>

definition tracing_Init :: "tracing_Config \<Rightarrow> sys \<Rightarrow> (string + (sys \<Rightarrow> sys)) \<times> sys" where
  "tracing_Init cfg s =
     (if \<not> ti_Enabled cfg then (Inr id, s)
      else let serviceName = (if ti_ServiceName cfg = [] then ''notification-system'' else ti_ServiceName cfg) in
        case attempt s of
          (Some e, s1) \<Rightarrow> (Inl (''tracing: create exporter: '' @ e), s1)
        | (None, s1) \<Rightarrow>
            (case attempt s1 of
               (Some e, s2) \<Rightarrow> (Inl (''tracing: create resource: '' @ e), s2)
             | (None, s2) \<Rightarrow>
                 (let tp = TracerProvider (sy_calls s2) (ti_Endpoint cfg) serviceName
                  in (Inr (record_event (Closed tp)), record_event (Opened tp) s2))))"

section \<open>Bootstrap (bootstrap.go)\<close>

text \<open>The registry starts with the collectors of the Go runtime and of the process, which the library supplies.\<close>

definition bootstrap_Metrics :: "collector list \<Rightarrow> collector list \<Rightarrow> collector list" where
  "bootstrap_Metrics goCollector processCollector = goCollector @ processCollector @ Metrics_New"

definition bootstrap_Logger :: "Config \<Rightarrow> Logger" where
  "bootstrap_Logger cfg = logging_New (cf_LogLevel cfg)"

definition bootstrap_Postgres :: "Config \<Rightarrow> sys \<Rightarrow> (string + Pools) \<times> sys" where
  "bootstrap_Postgres cfg = Pools_New
     \<lparr>pg_PrimaryDSN = pc_DSN (cf_Postgres cfg), pg_ReaderDSN = ReplicaOrPrimary (cf_Postgres cfg),
      pg_MaxConns = pc_MaxConns (cf_Postgres cfg)\<rparr>"

definition bootstrap_Redis :: "Config \<Rightarrow> sys \<Rightarrow> (string + Client) \<times> sys" where
  "bootstrap_Redis cfg = NewClient (rc_Addr (cf_Redis cfg)) (rc_Password (cf_Redis cfg)) (rc_DB (cf_Redis cfg))"

definition bootstrap_Queue ::
  "(redis_cmd \<Rightarrow> 'w \<Rightarrow> redis_reply \<times> 'w) \<Rightarrow> ('w \<Rightarrow> gotime \<times> 'w) \<Rightarrow> codec \<Rightarrow> Config \<Rightarrow> 'w Queue" where
  "bootstrap_Queue client now cd cfg = NewQueue client now cd (kc_GroupName (cf_Worker cfg))"

text \<open>\<open>update\<close> carries a metric update out.\<close>

definition poison_reporter :: "(metric_op \<Rightarrow> 'w \<Rightarrow> 'w) \<Rightarrow> 'w PoisonReporter" where
  "poison_reporter update = \<lparr>pr_IncPoison = update IncPoison, pr_IncDLQ = (\<lambda>reason. update (IncDLQ reason))\<rparr>"

definition QueueWithDLQ ::
  "(redis_cmd \<Rightarrow> 'w \<Rightarrow> redis_reply \<times> 'w) \<Rightarrow> ('w \<Rightarrow> gotime \<times> 'w) \<Rightarrow> codec \<Rightarrow> Config \<Rightarrow> (metric_op \<Rightarrow> 'w \<Rightarrow> 'w) \<Rightarrow> 'w Queue" where
  "QueueWithDLQ client now cd cfg update =
     WithDLQ (DLQ_Publish (NewDLQ client now cd)) (poison_reporter update)
       (NewQueue client now cd (kc_GroupName (cf_Worker cfg)))"

datatype ('w, 'l) Limiter = InProcess "'l InProcessRateLimiter" | FleetWide "'w RedisRateLimiter"

definition RateLimiter ::
  "Config \<Rightarrow> (string \<Rightarrow> Limit \<Rightarrow> 'w \<Rightarrow> (string + int \<times> duration) \<times> 'w) \<Rightarrow> ('w, 'l) Limiter" where
  "RateLimiter cfg limiter =
     (let lc = cf_RateLimiter cfg in
      if lc_Kind lc = ''inproc'' then InProcess (NewInProcessRateLimiter (lc_PerSecond lc) (lc_Burst lc))
      else FleetWide (NewRedisRateLimiter limiter (lc_PerSecond lc) (lc_Burst lc) (lc_FailOpen lc)))"

text \<open>The retry policy, for a jitter ratio that is a number; the policy of an infinite or undefined ratio is not modelled.\<close>

definition RetryPolicy :: "Config \<Rightarrow> Policy option" where
  "RetryPolicy cfg =
     (case yc_JitterRatio (cf_Retry cfg) of
        Finite r \<Rightarrow> Some (NewPolicy (yc_MaxAttempts (cf_Retry cfg)) (yc_Backoff (cf_Retry cfg)) r)
      | _ \<Rightarrow> None)"

definition circuitStateValue :: "CircuitState \<Rightarrow> rat" where
  "circuitStateValue state = (case state of StateHalfOpen \<Rightarrow> 1 | StateOpen \<Rightarrow> 2 | StateClosed \<Rightarrow> 0)"

definition bootstrap_Provider ::
  "'w execute \<Rightarrow> 'w WebhookClient \<Rightarrow> Config \<Rightarrow> (metric_op \<Rightarrow> 'w \<Rightarrow> 'w) \<Rightarrow> 'w Breaker" where
  "bootstrap_Provider execute ports cfg update =
     (let client = NewWebhookClient (vc_WebhookURL (cf_Provider cfg)) (vc_Timeout (cf_Provider cfg)) ports;
          onChange = (\<lambda>channel state. update (SetCircuitState channel (circuitStateValue state)))
      in NewBreaker execute (WebhookClient_Send client)
           \<lparr>bc_FailureRateThreshold = cc_FailureRateThreshold (cf_Breaker cfg), bc_MinRequests = cc_MinRequests (cf_Breaker cfg),
            bc_Window = cc_Window (cf_Breaker cfg), bc_OpenTimeout = cc_OpenTimeout (cf_Breaker cfg),
            bc_HalfOpenMax = cc_HalfOpenMax (cf_Breaker cfg)\<rparr> (Some onChange))"

definition boolJSON :: "bool \<Rightarrow> string" where
  "boolJSON v = (if v then ''true'' else ''false'')"

definition marshalChecks :: "(string \<times> string) list \<Rightarrow> string" where
  "marshalChecks m = render (checks_json m)"

definition bootstrap_handleReady :: "(string \<times> ('w \<Rightarrow> string option \<times> 'w)) list \<Rightarrow> 'w handler" where
  "bootstrap_handleReady checks r w =
     (let ((results, ok), w1) = run_checks checks w in
      (\<lparr>hs_Status = (if ok then 200 else 503), hs_ContentType = ''application/json'', hs_Headers = [],
        hs_Body = [CHR 0x7B, dquote] @ ''ready'' @ [dquote, CHR '':''] @ boolJSON ok @ [CHR '','', dquote] @ ''checks''
          @ [dquote, CHR '':''] @ marshalChecks results @ [CHR 0x7D]\<rparr>, w1))"

definition status_ok_body :: string where
  "status_ok_body = [CHR 0x7B, dquote] @ ''status'' @ [dquote, CHR '':'', dquote] @ ''ok'' @ [dquote, CHR 0x7D]"

text \<open>The address and the handler of the metrics server; the content type of \<open>healthz\<close> is the sniffed one.\<close>

definition MetricsServer ::
  "os \<Rightarrow> 'w handler \<Rightarrow> (string \<times> ('w \<Rightarrow> string option \<times> 'w)) list \<Rightarrow> string \<times> 'w served" where
  "MetricsServer os metrics ready =
     (let addr = (case os_LookupEnv os ''METRICS_ADDR'' of Some a \<Rightarrow> a | None \<Rightarrow> []);
          table = [((''GET'', [Lit ''metrics'']), metrics),
                   ((''GET'', [Lit ''healthz'']), (\<lambda>r w. (plain_reply 200 status_ok_body, w)))]
            @ (if length ready > 0 then [((''GET'', [Lit ''readyz'']), bootstrap_handleReady ready)] else [])
      in (if addr = [] then '':9090'' else addr, serve_mux table))"

section \<open>The processes (cmd)\<close>

datatype start_error = ConfigError config_error | AuthError auth_error | Failure string

definition named :: "string \<Rightarrow> Config \<Rightarrow> Config" where
  "named service cfg =
     (if tc_ServiceName (cf_Tracing cfg) = [] then cfg\<lparr>cf_Tracing := (cf_Tracing cfg)\<lparr>tc_ServiceName := service\<rparr>\<rparr> else cfg)"

text \<open>What the three \<open>run\<close> functions have in common: what is opened is closed by deferred calls, the last first.\<close>

definition with_resources :: "string \<Rightarrow> Config \<Rightarrow> (Config \<Rightarrow> sys \<Rightarrow> start_error option \<times> sys) \<Rightarrow> sys \<Rightarrow> start_error option \<times> sys" where
  "with_resources service cfg0 body s =
     (let cfg = named service cfg0 in
      case tracing_Init \<lparr>ti_Enabled = tc_Enabled (cf_Tracing cfg), ti_Endpoint = tc_Endpoint (cf_Tracing cfg),
                         ti_ServiceName = tc_ServiceName (cf_Tracing cfg)\<rparr> s of
        (Inl e, s1) \<Rightarrow> (Some (Failure e), s1)
      | (Inr traceShutdown, s1) \<Rightarrow>
          (case bootstrap_Postgres cfg s1 of
             (Inl e, s2) \<Rightarrow> (Some (Failure e), traceShutdown s2)
           | (Inr st, s2) \<Rightarrow>
               (case bootstrap_Redis cfg s2 of
                  (Inl e, s3) \<Rightarrow> (Some (Failure e), traceShutdown (Pools_Close st s3))
                | (Inr client, s3) \<Rightarrow>
                    (case body cfg s3 of
                       (r, s4) \<Rightarrow> (r, traceShutdown (Pools_Close st (Client_Close client s4)))))))"

text \<open>
  The API server runs until it fails or a signal arrives; then it is shut down.
\<close>

definition serve_api :: "Config \<Rightarrow> sys \<Rightarrow> start_error option \<times> sys" where
  "serve_api cfg s =
     (case attempt s of
        (Some e, s1) \<Rightarrow> (Some (Failure e), s1)
      | (None, s1) \<Rightarrow>
          (let srv = HTTPServer (cf_HTTPAddr cfg);
               s2 = record_event (RunningAPI (cf_HTTPAddr cfg)) (record_event (Opened srv) s1);
               (err, s3) = attempt s2
           in (map_option Failure err, record_event (Closed srv) s3)))"

definition run_api :: "os \<Rightarrow> sys \<Rightarrow> start_error option \<times> sys" where
  "run_api os s =
     (case Load os of
        Inl e \<Rightarrow> (Some (ConfigError e), s)
      | Inr cfg \<Rightarrow>
          (case ValidateSecret (cf_JWTSecret cfg) of
             Some e \<Rightarrow> (Some (AuthError e), s)
           | None \<Rightarrow> with_resources ''api'' cfg serve_api s))"

text \<open>
  A background process: its metrics server is started beside it, and failing to do so is only logged;
  the job runs until it returns; then the server is shut down.
\<close>

definition serve_job :: "os \<Rightarrow> (Config \<Rightarrow> sys_event) \<Rightarrow> Config \<Rightarrow> sys \<Rightarrow> start_error option \<times> sys" where
  "serve_job os job cfg s =
     (let addr = (case os_LookupEnv os ''METRICS_ADDR'' of Some a \<Rightarrow> if a = [] then '':9090'' else a | None \<Rightarrow> '':9090'');
          (down, s1) = attempt s;
          s2 = (if down = None then record_event (Opened (HTTPServer addr)) s1 else s1);
          (err, s3) = attempt (record_event (job cfg) s2)
      in (map_option Failure err, if down = None then record_event (Closed (HTTPServer addr)) s3 else s3))"

text \<open>Go's division of a duration by two, which discards the remainder.\<close>

definition half :: "duration \<Rightarrow> duration" where
  "half d = (if d < 0 then - ((- d) div 2) else d div 2)"

definition worker_config :: "Config \<Rightarrow> WorkerConfig" where
  "worker_config cfg =
     \<lparr>wc_Priorities = kc_Priorities (cf_Worker cfg), wc_Channels = AllChannels, wc_Concurrency = kc_Concurrency (cf_Worker cfg),
      wc_Consumer = kc_Consumer (cf_Worker cfg), wc_BatchSize = kc_BatchSize (cf_Worker cfg), wc_LeaseTTL = kc_LeaseTTL (cf_Worker cfg),
      wc_BlockTime = kc_BlockTime (cf_Worker cfg), wc_RateWaitMax = half (kc_LeaseTTL (cf_Worker cfg)),
      wc_RateWaitStep = lc_WaitInterval (cf_RateLimiter cfg)\<rparr>"

definition scheduler_config :: "Config \<Rightarrow> SchedulerConfig" where
  "scheduler_config cfg =
     \<lparr>sc_PollInterval = hc_PollInterval (cf_Scheduler cfg), sc_OutboxInterval = hc_OutboxInterval (cf_Scheduler cfg),
      sc_OutboxBatchSize = hc_OutboxBatchSize (cf_Scheduler cfg), sc_PromoteBatch = hc_PromoteBatch (cf_Scheduler cfg),
      sc_ReaperInterval = hc_ReaperInterval (cf_Scheduler cfg), sc_ReconcileAfter = hc_ReconcileAfter (cf_Scheduler cfg),
      sc_RetentionDays = 0, sc_PreCreateDays = 0, sc_OutboxRetention = 0\<rparr>"

text \<open>\<open>Duration.Seconds\<close>.\<close>

definition Seconds :: "duration \<Rightarrow> rat" where
  "Seconds d =
     (let q = (if d < 0 then - ((- d) div Second) else d div Second); r = d - q * Second
      in f64 (f64 (of_int q) + f64 (of_int r / 1000000000)))"

text \<open>What the processes take from outside: the Redis connection, the wall clock, the libraries.\<close>

record ('w, 'l) deps =
  dp_redis :: "redis_cmd \<Rightarrow> 'w \<Rightarrow> redis_reply \<times> 'w"
  dp_Now :: "'w \<Rightarrow> gotime \<times> 'w"
  dp_codec :: codec
  dp_update :: "metric_op \<Rightarrow> 'w \<Rightarrow> 'w"
  dp_execute :: "'w execute"
  dp_webhook :: "'w WebhookClient"
  dp_limiter :: "string \<Rightarrow> Limit \<Rightarrow> 'w \<Rightarrow> (string + int \<times> duration) \<times> 'w"
  dp_buckets :: "'l Buckets"
  dp_inproc :: "'w \<Rightarrow> 'l InProcessRateLimiter"
  dp_set_inproc :: "'l InProcessRateLimiter \<Rightarrow> 'w \<Rightarrow> 'w"

text \<open>The limiter as the worker calls it; it ignores the error beside the answer.\<close>

definition Limiter_Allow :: "('w, 'l) deps \<Rightarrow> ('w, 'l) Limiter \<Rightarrow> Channel \<Rightarrow> 'w \<Rightarrow> (bool \<times> duration) \<times> 'w" where
  "Limiter_Allow D l channel w =
     (case l of
        FleetWide R \<Rightarrow> (case RedisRateLimiter_Allow R channel w of ((ok, d, _), w1) \<Rightarrow> ((ok, d), w1))
      | InProcess _ \<Rightarrow>
          (let (now, w1) = dp_Now D w in
           case InProcessRateLimiter_Allow (dp_buckets D) now channel (dp_inproc D w1) of
             ((ok, d, _), R1) \<Rightarrow> ((ok, d), dp_set_inproc D R1 w1)))"

text \<open>\<open>ports\<close> holds the repository, the contexts and the random source of the worker.\<close>

definition assemble_worker :: "('w, 'l) deps \<Rightarrow> 'w Worker \<Rightarrow> Config \<Rightarrow> 'w Worker option" where
  "assemble_worker D ports cfg =
     (case RetryPolicy cfg of
        None \<Rightarrow> None
      | Some policy \<Rightarrow>
          (let queue = QueueWithDLQ (dp_redis D) (dp_Now D) (dp_codec D) cfg (dp_update D);
               provider = bootstrap_Provider (dp_execute D) (dp_webhook D) cfg (dp_update D);
               limiter = RateLimiter cfg (dp_limiter D);
               dlq = DLQ_Publish (NewDLQ (dp_redis D) (dp_Now D) (dp_codec D))
           in Some (NewWithDLQ (worker_config cfg) (ports
                \<lparr>wk_policy := policy, q_EnsureGroup := EnsureGroup queue, q_Read := Queue_Read queue, q_Ack := Queue_Ack queue,
                 pv_Send := Breaker_Send provider, rl_Allow := Limiter_Allow D limiter, wk_Now := dp_Now D,
                 wk_UUIDString := cd_String (dp_codec D),
                 mt_IncSent := (\<lambda>c p. dp_update D (IncSent c p)), mt_IncFailed := (\<lambda>c p. dp_update D (IncFailed c p)),
                 mt_IncRetry := (\<lambda>c p. dp_update D (IncRetry c p)), mt_IncDLQ := (\<lambda>r. dp_update D (IncDLQ r)),
                 mt_ObserveProviderLatency := (\<lambda>c d. dp_update D (ObserveProviderLatency c (Seconds d))),
                 mt_ObserveProcessing := (\<lambda>c p d. dp_update D (ObserveProcessing c p (Seconds d))),
                 mt_ObserveE2ELatency := (\<lambda>c p d. dp_update D (ObserveE2ELatency c p (Seconds d)))\<rparr>) dlq)))"

definition assemble_scheduler :: "('w, 'l) deps \<Rightarrow> 'w Scheduler \<Rightarrow> Config \<Rightarrow> 'w Scheduler" where
  "assemble_scheduler D ports cfg =
     (let queue = QueueWithDLQ (dp_redis D) (dp_Now D) (dp_codec D) cfg (dp_update D)
      in Scheduler_New (scheduler_config cfg) (ports
           \<lparr>sq_Publish := Queue_Publish queue, sq_Depth := Queue_Depth queue, sq_Pending := Queue_Pending queue,
            sx_SetQueueDepth := (\<lambda>s n. dp_update D (SetQueueDepth s (of_int n))),
            sx_SetQueuePending := (\<lambda>s n. dp_update D (SetQueuePending s (of_int n))),
            sx_SetOutboxUnpublished := (\<lambda>n. dp_update D (SetOutboxUnpublished (of_int n))),
            sx_SetSchedulerLag := (\<lambda>x. dp_update D (SetSchedulerLag x)),
            sx_AddPromoted := (\<lambda>n. dp_update D (AddPromoted (of_int n))),
            sx_AddReclaimed := (\<lambda>n. dp_update D (AddReclaimed (of_int n))),
            sx_AddReconciled := (\<lambda>n. dp_update D (AddReconciled (of_int n)))\<rparr>))"

text \<open>
  \<open>R\<close> holds the token library, the clock, the log and the embedded documents; \<open>ports\<close> the repository,
  the renderer over it and the source of identifiers.
\<close>

definition assemble_api :: "('w, 'l) deps \<Rightarrow> 'w router \<Rightarrow> 'w Service \<Rightarrow> ('w \<Rightarrow> string option \<times> 'w) \<Rightarrow> ('w \<Rightarrow> string option \<times> 'w) \<Rightarrow> string \<Rightarrow> Config \<Rightarrow> 'w served" where
  "assemble_api D R ports pg_ping redis_ping html cfg =
     (let svc = notification_New (sv_repo ports) (sv_Render ports) (System_Now (dp_Now D))
            (\<lambda>c p. dp_update D (IncCreated c p)) (new_uuid ports)
      in NewRouter (R\<lparr>ro_service := service_port svc, ro_secret := cf_JWTSecret cfg,
        ro_readiness := [(''postgres'', pg_ping), (''redis'', redis_ping)], ro_swagger := Some html\<rparr>))"

definition run_worker :: "os \<Rightarrow> sys \<Rightarrow> start_error option \<times> sys" where
  "run_worker os s =
     (case Load os of
        Inl e \<Rightarrow> (Some (ConfigError e), s)
      | Inr cfg \<Rightarrow>
          with_resources ''worker'' cfg
            (serve_job os (\<lambda>cfg. RunningWorker (worker_defaults (worker_config cfg)))) s)"

definition run_scheduler :: "os \<Rightarrow> sys \<Rightarrow> start_error option \<times> sys" where
  "run_scheduler os s =
     (case Load os of
        Inl e \<Rightarrow> (Some (ConfigError e), s)
      | Inr cfg \<Rightarrow>
          with_resources ''scheduler'' cfg
            (serve_job os (\<lambda>cfg. RunningScheduler (scheduler_defaults (scheduler_config cfg)))) s)"

text \<open>The exit code of the three programs.\<close>

definition exit_code :: "start_error option \<Rightarrow> nat" where
  "exit_code err = (case err of None \<Rightarrow> 0 | Some _ \<Rightarrow> 1)"

definition main_api :: "os \<Rightarrow> sys \<Rightarrow> nat \<times> sys" where
  "main_api os s = apfst exit_code (run_api os s)"

definition main_worker :: "os \<Rightarrow> sys \<Rightarrow> nat \<times> sys" where
  "main_worker os s = apfst exit_code (run_worker os s)"

definition main_scheduler :: "os \<Rightarrow> sys \<Rightarrow> nat \<times> sys" where
  "main_scheduler os s = apfst exit_code (run_scheduler os s)"

text \<open>\<open>cmd/gentoken\<close>: the exit code and the token it prints.\<close>

definition gentoken :: "jwt_sign \<Rightarrow> gotime \<Rightarrow> os \<Rightarrow> string list \<Rightarrow> nat \<times> string" where
  "gentoken sign now os args =
     (case args of
        [prog, user] \<Rightarrow>
          (let secret = (case os_LookupEnv os ''JWT_SECRET'' of Some v \<Rightarrow> v | None \<Rightarrow> []) in
           if ValidateSecret secret \<noteq> None then (1, [])
           else case SignToken sign now secret user DemoTokenTTL of
               Inl _ \<Rightarrow> (1, [])
             | Inr token \<Rightarrow> (0, token @ [CHR 0x0A]))
      | _ \<Rightarrow> (2, []))"

end
