(* ===== verification/Startup_Props.thy ===== *)
theory Startup_Props
  imports Startup Scheduler_Props Worker_Outcome Provider_Props Codec_Sample
begin

text \<open>
  Correctness of loading the configuration and of starting and stopping the processes: what a
  process runs with satisfies the checks of the configuration, it gives back everything it opened,
  and which dangerous settings the checks let pass.
\<close>

section \<open>What a loaded configuration satisfies\<close>

text \<open>
  C23. A configuration that \<open>Load\<close> returns is well-formed: the priorities are valid and there is at
  least one, the lease outlives the provider timeout, at least one attempt and one backoff entry, a
  known limiter, and all numbers lie in the ranges of their Go types; and \<open>Load\<close> refuses an
  environment only for one of three reasons.
\<close>

theorem Load_well_formed:
  "case Load os of
     Inr c \<Rightarrow> kc_Priorities (cf_Worker c) \<noteq> [] \<and> list_all Priority_Valid (kc_Priorities (cf_Worker c))
       \<and> vc_Timeout (cf_Provider c) < kc_LeaseTTL (cf_Worker c)
       \<and> 1 \<le> yc_MaxAttempts (cf_Retry c) \<and> yc_Backoff (cf_Retry c) \<noteq> [] \<and> list_all int64 (yc_Backoff (cf_Retry c))
       \<and> lc_Kind (cf_RateLimiter c) \<in> {''redis'', ''inproc''}
       \<and> - (2 ^ 31) \<le> pc_MaxConns (cf_Postgres c) \<and> pc_MaxConns (cf_Postgres c) < 2 ^ 31
       \<and> list_all int64 [yc_MaxAttempts (cf_Retry c), kc_Concurrency (cf_Worker c), kc_BatchSize (cf_Worker c),
           hc_OutboxBatchSize (cf_Scheduler c), hc_PromoteBatch (cf_Scheduler c), kc_LeaseTTL (cf_Worker c),
           vc_Timeout (cf_Provider c), cf_ShutdownTimeout c]
   | Inl e \<Rightarrow> (\<exists>l t. e = LeaseTooShort l t \<and> l \<le> t) \<or> e = TooFewAttempts \<or> e = UnknownLimiter"
proof -
  let ?c = "read_config os"
  note lists = read_config_lists [of os]
  have ints: "list_all int64 [yc_MaxAttempts (cf_Retry ?c), kc_Concurrency (cf_Worker ?c), kc_BatchSize (cf_Worker ?c),
      hc_OutboxBatchSize (cf_Scheduler ?c), hc_PromoteBatch (cf_Scheduler ?c), kc_LeaseTTL (cf_Worker ?c),
      vc_Timeout (cf_Provider ?c), cf_ShutdownTimeout ?c]"
    unfolding read_config_def
    by (simp add: getInt_range getDuration_range int64_def [of "numeral k" for k] int64_def [of "numeral k * Second" for k]
        int64_def [of "numeral k * Minute" for k] Second_def Minute_def)
  have conns: "- (2 ^ 31) \<le> pc_MaxConns (cf_Postgres ?c) \<and> pc_MaxConns (cf_Postgres ?c) < 2 ^ 31"
    unfolding read_config_def using wrap32_range by simp
  show ?thesis
  proof (cases "validate ?c")
    case None
    then show ?thesis
      using lists ints conns by (auto simp: Load_def validate_def split: if_splits)
  next
    case (Some e)
    then show ?thesis using lists by (auto simp: Load_def validate_def split: if_splits)
  qed
qed

section \<open>Which streams a worker reads\<close>

lemma Stream_inj:
  assumes "p \<in> set AllPriorities" "q \<in> set AllPriorities" "Stream p c = Stream q c'"
  shows "p = q"
  using assms by (auto simp: Stream_def AllPriorities_def go_simps)

text \<open>
  Routing: a worker assembled from a loaded configuration reads the stream of a priority and a
  channel exactly when the configuration names that priority; it reads no other stream than those
  the scheduler knows, and with no priorities configured all of them, in the same order.
\<close>

theorem assembled_worker_reads:
  assumes load: "Load os = Inr cfg" and W: "assemble_worker D ports cfg = Some W"
  shows "(\<forall>p\<in>set AllPriorities. \<forall>c\<in>set AllChannels.
       Stream p c \<in> set (wk_streams W) \<longleftrightarrow> p \<in> set (kc_Priorities (cf_Worker cfg)))
    \<and> set (wk_streams W) \<subseteq> set allStreams
    \<and> (given os ''WORKER_PRIORITIES'' = None \<longrightarrow> wk_streams W = allStreams)"
proof -
  let ?ps = "kc_Priorities (cf_Worker cfg)"
  have cfg: "cfg = read_config os" using load by (auto simp: Load_def split: option.splits)
  have streams: "wk_streams W = concat (map (\<lambda>p. map (Stream p) AllChannels) ?ps)"
    using W by (auto simp: assemble_worker_def NewWithDLQ_def newWorker_def worker_streams_def worker_defaults_def worker_config_def Let_def
        split: option.splits)
  have valid: "set ?ps \<subseteq> set AllPriorities"
    using read_config_lists(1) [of os] by (auto simp: cfg list_all_iff Priority_Valid_def AllPriorities_def)
  have "?ps = AllPriorities" if "given os ''WORKER_PRIORITIES'' = None"
    using that by (simp add: cfg read_config_def getPriorities_def)
  moreover have "Stream p c \<in> set (wk_streams W) \<longleftrightarrow> p \<in> set ?ps" if "p \<in> set AllPriorities" "c \<in> set AllChannels" for p c
    using that valid Stream_inj unfolding streams by fastforce
  ultimately show ?thesis using valid by (auto simp: streams allStreams_def)
qed

section \<open>Everything opened is closed\<close>

fun unwind :: "resource list \<Rightarrow> sys_event list \<Rightarrow> resource list option" where
  "unwind st [] = Some st"
| "unwind st (Opened r # es) = unwind (r # st) es"
| "unwind st (Closed r # es) = (case st of [] \<Rightarrow> None | x # st' \<Rightarrow> if x = r then unwind st' es else None)"
| "unwind st (e # es) = unwind st es"

lemma unwind_append: "unwind st (as @ bs) = Option.bind (unwind st as) (\<lambda>st. unwind st bs)"
  by (induction st as rule: unwind.induct) (auto split: list.split)

text \<open>A step from \<open>s\<close> to \<open>s'\<close> takes the open resources from \<open>a\<close> to \<open>b\<close>.\<close>

definition moves :: "sys \<Rightarrow> sys \<Rightarrow> resource list \<Rightarrow> resource list \<Rightarrow> bool" where
  "moves s s' a b \<longleftrightarrow> (\<exists>es. sy_events s' = sy_events s @ es \<and> unwind a es = Some b)"

lemma moves_refl: "moves s s a a"
  by (auto simp: moves_def)

lemma moves_trans [trans]: "moves s s1 a b \<Longrightarrow> moves s1 s2 b c \<Longrightarrow> moves s s2 a c"
  unfolding moves_def by (metis append.assoc bind.bind_lunit unwind_append)

lemma moves_event:
  "moves s s1 a b \<Longrightarrow> moves s (record_event (Opened r) s1) a (r # b)"
  "moves s s1 a (r # b) \<Longrightarrow> moves s (record_event (Closed r) s1) a b"
  "moves s s1 a b \<Longrightarrow> moves s (record_event (RunningAPI x) s1) a b"
  "moves s s1 a b \<Longrightarrow> moves s (record_event (RunningWorker wc) s1) a b"
  "moves s s1 a b \<Longrightarrow> moves s (record_event (RunningScheduler sc) s1) a b"
  by (auto simp: moves_def record_event_def unwind_append)

lemma moves_attempt: "attempt s = (e, s') \<Longrightarrow> sy_events s' = sy_events s"
  by (auto simp: attempt_def)

lemma moves_attemptI: "attempt s1 = (e, s2) \<Longrightarrow> moves s s1 a b \<Longrightarrow> moves s s2 a b"
  by (auto simp: moves_def dest: moves_attempt)

lemmas moves_intros = moves_event moves_attemptI moves_refl

lemma newPool_moves:
  assumes "newPool dsn n s = (r, s')"
  shows "case r of Inl _ \<Rightarrow> moves s s' a a | Inr p \<Rightarrow> moves s s' a (ConnPool (pl_id p) # a)"
proof -
  obtain e1 s1 where 1: "attempt s = (e1, s1)" by force
  obtain e2 s2 where 2: "attempt s1 = (e2, s2)" by force
  define s3 where "s3 = record_event (Opened (ConnPool (sy_calls s2))) s2"
  obtain e4 s4 where 4: "attempt s3 = (e4, s4)" by force
  have m1: "moves s s1 a a" and m2: "moves s s2 a a" using 1 2 by (blast intro: moves_intros)+
  then have m4: "moves s s4 a (ConnPool (sy_calls s2) # a)" using 4 by (auto simp: s3_def intro: moves_intros)
  show ?thesis
    using assms m1 m2 m4
    by (auto simp: newPool_def 1 2 s3_def [symmetric] 4 Pool_Close_def Let_def intro: moves_intros split: option.splits)
qed

definition held :: "Pools \<Rightarrow> resource list" where
  "held st = (if ps_reader st \<noteq> ps_primary st then [ConnPool (pl_id (ps_reader st))] else []) @ [ConnPool (pl_id (ps_primary st))]"

lemma newPool_fresh: "newPool dsn n s = (Inr p, s') \<Longrightarrow> sy_calls s < pl_id p \<and> pl_id p < sy_calls s'"
  by (auto simp: newPool_def attempt_def record_event_def Pool_Close_def Let_def split: option.splits)

lemma Pools_New_moves:
  assumes "Pools_New cfg s = (r, s')"
  shows "case r of Inl _ \<Rightarrow> moves s s' a a | Inr st \<Rightarrow> moves s s' a (held st @ a)"
proof -
  obtain r1 s1 where 1: "newPool (pg_PrimaryDSN cfg) (pg_MaxConns cfg) s = (r1, s1)" by force
  obtain r2 s2 where 2: "newPool (pg_ReaderDSN cfg) (pg_MaxConns cfg) s1 = (r2, s2)" by force
  note m1 = newPool_moves [OF 1] and m2 = newPool_moves [OF 2]
  show ?thesis
  proof (cases r1)
    case (Inl e)
    then show ?thesis using assms 1 m1 [of a] by (auto simp: Pools_New_def)
  next
    case (Inr p)
    have open1: "moves s s1 a (ConnPool (pl_id p) # a)" using m1 [of a] by (simp add: Inr)
    show ?thesis
    proof (cases "pg_ReaderDSN cfg \<noteq> [] \<and> pg_ReaderDSN cfg \<noteq> pg_PrimaryDSN cfg")
      case False
      then show ?thesis using assms 1 open1 by (auto simp: Pools_New_def Inr held_def)
    next
      case True
      show ?thesis
      proof (cases r2)
        case (Inl e)
        then have "moves s s2 a (ConnPool (pl_id p) # a)" using open1 m2 [of "ConnPool (pl_id p) # a"] by (auto intro: moves_trans)
        then show ?thesis using assms 1 2 True Inl by (auto simp: Pools_New_def Inr Pool_Close_def intro: moves_intros)
      next
        case (Inr q)
        have "moves s s2 a (ConnPool (pl_id q) # ConnPool (pl_id p) # a)"
          using open1 m2 [of "ConnPool (pl_id p) # a"] Inr by (auto intro: moves_trans)
        moreover have "q \<noteq> p" using newPool_fresh [of _ _ s p s1] newPool_fresh [of _ _ s1 q s2] 1 2 Inr \<open>r1 = Inr p\<close> by fastforce
        ultimately show ?thesis using assms 1 2 True Inr \<open>r1 = Inr p\<close> by (auto simp: Pools_New_def held_def)
      qed
    qed
  qed
qed

lemma Pools_Close_moves: "moves s s1 a (held st @ b) \<Longrightarrow> moves s (Pools_Close st s1) a b"
  by (auto simp: Pools_Close_def held_def Pool_Close_def Let_def intro: moves_intros split: if_splits)

lemma NewClient_moves:
  assumes "NewClient addr pw db s = (r, s')"
  shows "case r of Inl _ \<Rightarrow> moves s s' a a | Inr c \<Rightarrow> moves s s' a (RedisClient (rd_id c) # a)"
proof -
  define s1 where "s1 = record_event (Opened (RedisClient (sy_calls s))) s"
  obtain e s2 where 2: "attempt s1 = (e, s2)" by force
  have "moves s s2 a (RedisClient (sy_calls s) # a)" using 2 unfolding s1_def by (blast intro: moves_intros)
  then show ?thesis
    using assms by (auto simp: NewClient_def s1_def [symmetric] 2 Client_Close_def Let_def intro: moves_intros split: option.splits)
qed

lemma tracing_moves:
  assumes "tracing_Init cfg s = (r, s')"
  shows "case r of Inl _ \<Rightarrow> moves s s' a a
    | Inr shutdown \<Rightarrow> \<exists>rs. moves s s' a (rs @ a) \<and> (\<forall>s s1 b. moves s s1 a (rs @ b) \<longrightarrow> moves s (shutdown s1) a b)"
proof -
  obtain e1 s1 where 1: "attempt s = (e1, s1)" by force
  obtain e2 s2 where 2: "attempt s1 = (e2, s2)" by force
  have m: "moves s s1 a a" "moves s s2 a a" using 1 2 by (blast intro: moves_intros)+
  let ?tp = "TracerProvider (sy_calls s2) (ti_Endpoint cfg) (if ti_ServiceName cfg = [] then ''notification-system'' else ti_ServiceName cfg)"
  show ?thesis
  proof (cases "ti_Enabled cfg \<and> e1 = None \<and> e2 = None")
    case True
    then have "s' = record_event (Opened (?tp)) s2"
      "r = Inr (record_event (Closed (?tp)))"
      using assms 1 2 by (auto simp: tracing_Init_def Let_def)
    then show ?thesis using m by (auto intro: moves_intros intro!: exI [of _ "[?tp]"])
  next
    case False
    then show ?thesis
      using assms m by (auto simp: tracing_Init_def 1 2 moves_refl intro!: exI [of _ "[]"] split: if_splits option.splits)
  qed
qed


lemma with_resources_moves:
  assumes body: "\<And>cfg s a. moves s (snd (body cfg s)) a a"
  shows "moves s (snd (with_resources service cfg body s)) a a"
proof -
  let ?cfg = "named service cfg"
  let ?tc = "\<lparr>ti_Enabled = tc_Enabled (cf_Tracing ?cfg), ti_Endpoint = tc_Endpoint (cf_Tracing ?cfg),
               ti_ServiceName = tc_ServiceName (cf_Tracing ?cfg)\<rparr>"
  obtain t s1 where 1: "tracing_Init ?tc s = (t, s1)" by force
  show ?thesis
  proof (cases t)
    case (Inl e)
    then show ?thesis using tracing_moves [OF 1, of a] by (simp add: with_resources_def 1)
  next
    case (Inr shutdown)
    then obtain rs where rs: "moves s s1 a (rs @ a)" and down: "\<And>s2. moves s s2 a (rs @ a) \<Longrightarrow> moves s (shutdown s2) a a"
      using tracing_moves [OF 1, of a] by auto
    obtain p s2 where 2: "bootstrap_Postgres ?cfg s1 = (p, s2)" by force
    show ?thesis
    proof (cases p)
      case (Inl e)
      then have "moves s s2 a (rs @ a)"
        using moves_trans [OF rs] Pools_New_moves [OF 2 [unfolded bootstrap_Postgres_def], of "rs @ a"] by simp
      then show ?thesis using down Inl Inr by (simp add: with_resources_def 1 2)
    next
      case (Inr st)
      then have st: "moves s s2 a (held st @ rs @ a)"
        using moves_trans [OF rs] Pools_New_moves [OF 2 [unfolded bootstrap_Postgres_def], of "rs @ a"] by simp
      obtain c s3 where 3: "bootstrap_Redis ?cfg s2 = (c, s3)" by force
      show ?thesis
      proof (cases c)
        case (Inl e)
        then have "moves s s3 a (held st @ rs @ a)"
          using moves_trans [OF st] NewClient_moves [OF 3 [unfolded bootstrap_Redis_def], of "held st @ rs @ a"] by simp
        then have "moves s (shutdown (Pools_Close st s3)) a a" by (intro down Pools_Close_moves)
        then show ?thesis using Inl \<open>p = Inr st\<close> \<open>t = Inr shutdown\<close> by (simp add: with_resources_def 1 2 3)
      next
        case (Inr client)
        let ?a = "RedisClient (rd_id client) # held st @ rs @ a"
        obtain r s4 where 4: "body ?cfg s3 = (r, s4)" by force
        have "moves s s3 a ?a"
          using Inr moves_trans [OF st] NewClient_moves [OF 3 [unfolded bootstrap_Redis_def], of "held st @ rs @ a"] by simp
        then have "moves s s4 a ?a" using moves_trans body [of s3 ?cfg ?a] 4 by simp
        then have "moves s (shutdown (Pools_Close st (Client_Close client s4))) a a"
          unfolding Client_Close_def by (intro down Pools_Close_moves moves_event)
        then show ?thesis using Inr \<open>p = Inr st\<close> \<open>t = Inr shutdown\<close> by (simp add: with_resources_def 1 2 3 4)
      qed
    qed
  qed
qed

lemma serve_api_moves: "moves s (snd (serve_api cfg s)) a a"
proof -
  obtain e1 s1 where 1: "attempt s = (e1, s1)" by force
  define s2 where "s2 = record_event (RunningAPI (cf_HTTPAddr cfg)) (record_event (Opened (HTTPServer (cf_HTTPAddr cfg))) s1)"
  obtain e3 s3 where 3: "attempt s2 = (e3, s3)" by force
  have m1: "moves s s1 a a" using 1 by (blast intro: moves_intros)
  then have "moves s s3 a (HTTPServer (cf_HTTPAddr cfg) # a)" using 3 unfolding s2_def by (blast intro: moves_intros)
  then show ?thesis
    using m1 by (auto simp: serve_api_def 1 s2_def [symmetric] 3 Let_def intro: moves_intros split: option.split)
qed

lemma serve_job_moves:
  assumes "\<And>s s1 a b. moves s s1 a b \<Longrightarrow> moves s (record_event (job cfg) s1) a b"
  shows "moves s (snd (serve_job os job cfg s)) a a"
proof -
  define addr where "addr = (case os_LookupEnv os ''METRICS_ADDR'' of Some a \<Rightarrow> if a = [] then '':9090'' else a | None \<Rightarrow> '':9090'')"
  obtain down s1 where 1: "attempt s = (down, s1)" by force
  define s2 where "s2 = (if down = None then record_event (Opened (HTTPServer addr)) s1 else s1)"
  obtain e3 s3 where 3: "attempt (record_event (job cfg) s2) = (e3, s3)" by force
  have m1: "moves s s1 a a" using 1 by (blast intro: moves_intros)
  then have "moves s s2 a (if down = None then HTTPServer addr # a else a)" by (simp add: s2_def moves_event)
  then have "moves s s3 a (if down = None then HTTPServer addr # a else a)" using 3 by (blast intro: moves_attemptI assms)
  then show ?thesis
    by (auto simp: serve_job_def addr_def [symmetric] 1 s2_def [symmetric] 3 Let_def intro: moves_intros split: if_splits)
qed



section \<open>Settings that the checks let pass\<close>

definition env_of :: "(string \<times> string) list \<Rightarrow> os" where
  "env_of vars = \<lparr>os_LookupEnv = map_of vars, os_Hostname = None, os_ParseFloat = (\<lambda>s. None)\<rparr>"

lemma given_env: "given (env_of vars) key = (case map_of vars key of Some v \<Rightarrow> if v \<noteq> [] then Some v else None | None \<Rightarrow> None)"
  by (simp add: given_def env_of_def)

lemma parse_11s: "ParseDuration ''11s'' = Some (11 * Second)"
proof -
  have "duration_part ''11s'' = Some (11000000000, [])"
    by (simp add: duration_part_def duration_unit_def is_digit_def digit_val_def)
  then have "duration_loop 0 ''11s'' = Some 11000000000"
    by (simp add: duration_loop.simps [of 0 "''11s''"] duration_loop.simps [of _ "[]"])
  then show ?thesis by (simp add: ParseDuration_def split_sign_def Second_def)
qed

lemmas getters = getString_def getInt_def getFloat_def getBool_def getDuration_def get_parsed_def getDurationList_def getPriorities_def given_env


lemma zero_promote_batch:
  "\<exists>c. Load (env_of [(''SCHEDULER_PROMOTE_BATCH'', ''0'')]) = Inr c \<and> sc_PromoteBatch (scheduler_defaults (scheduler_config c)) = 0"
  by (simp add: Load_def validate_def read_config_def getters AllPriorities_def scheduler_defaults_def scheduler_config_def
      Atoi_def ParseInt_def split_sign_def is_digit_def digits_val_def digit_val_def go_simps)

lemma parse_0s: "ParseDuration ''0s'' = Some 0"
proof -
  have "duration_part ''0s'' = Some (0, [])"
    by (simp add: duration_part_def duration_unit_def is_digit_def digit_val_def)
  then have "duration_loop 0 ''0s'' = Some 0"
    by (simp add: duration_loop.simps [of 0 "''0s''"] duration_loop.simps [of _ "[]"])
  then show ?thesis by (simp add: ParseDuration_def split_sign_def)
qed

lemma zero_poll_interval:
  "\<exists>c. Load (env_of [(''SCHEDULER_POLL_INTERVAL'', ''0s'')]) = Inr c \<and> sc_PollInterval (scheduler_defaults (scheduler_config c)) = 0"
  by (simp add: Load_def validate_def read_config_def getters parse_0s AllPriorities_def scheduler_defaults_def scheduler_config_def go_simps)

lemma promote_loop_panics:
  assumes "sc_PollInterval (sc_cfg S) \<le> 0"
  shows "\<exists>interval fn. (''promote-due'', interval, fn) \<in> set (scheduler_jobs S) \<and> (\<forall>w. runLoop S interval fn w = None)"
  using assms by (intro exI [of _ "sc_PollInterval (sc_cfg S)"] exI [of _ "promoteDue S"]) (simp add: scheduler_jobs_def runLoop_def)

text \<open>
  C40. Zero settings that \<open>Load\<close> lets pass: with a batch size of zero the promotion job never returns
  (every query returns zero rows, and zero is not fewer than zero), and with a poll interval of zero its
  loop panics at its start.
\<close>

theorem zero_settings_accepted:
  "(\<exists>c. Load (env_of [(''SCHEDULER_PROMOTE_BATCH'', ''0'')]) = Inr c
     \<and> (\<forall>w. alone (w_env w) \<and> (\<forall>k. e_fault (w_env w) k = None) \<and> wf_store (w_db w)
          \<longrightarrow> promoteDue (pg_scheduler (scheduler_defaults (scheduler_config c))) w = None))
   \<and> (\<exists>c. Load (env_of [(''SCHEDULER_POLL_INTERVAL'', ''0s'')]) = Inr c
     \<and> (\<exists>interval fn. (''promote-due'', interval, fn) \<in> set (scheduler_jobs (pg_scheduler (scheduler_config c)))
          \<and> (\<forall>w. runLoop (pg_scheduler (scheduler_config c)) interval fn w = None)))"
proof
  show "\<exists>c. Load (env_of [(''SCHEDULER_PROMOTE_BATCH'', ''0'')]) = Inr c
     \<and> (\<forall>w. alone (w_env w) \<and> (\<forall>k. e_fault (w_env w) k = None) \<and> wf_store (w_db w)
          \<longrightarrow> promoteDue (pg_scheduler (scheduler_defaults (scheduler_config c))) w = None)"
    using zero_promote_batch promoteDue_zero_batch by blast
  obtain c where c: "Load (env_of [(''SCHEDULER_POLL_INTERVAL'', ''0s'')]) = Inr c"
    "sc_PollInterval (scheduler_defaults (scheduler_config c)) = 0"
    using zero_poll_interval by blast
  with promote_loop_panics [of "pg_scheduler (scheduler_config c)"]
  show "\<exists>c. Load (env_of [(''SCHEDULER_POLL_INTERVAL'', ''0s'')]) = Inr c
     \<and> (\<exists>interval fn. (''promote-due'', interval, fn) \<in> set (scheduler_jobs (pg_scheduler (scheduler_config c)))
          \<and> (\<forall>w. runLoop (pg_scheduler (scheduler_config c)) interval fn w = None))"
    by auto
qed

theorem zero_settings_accepted_witness:
  "\<exists>c. Load (env_of [(''SCHEDULER_PROMOTE_BATCH'', ''0'')]) = Inr c
     \<and> promoteDue (pg_scheduler (scheduler_defaults (scheduler_config c))) (world_of (store_with [due_later])) = None"
proof -
  have "alone (w_env (world_of (store_with [due_later])))" "\<forall>k. e_fault (w_env (world_of (store_with [due_later]))) k = None"
    "wf_store (w_db (world_of (store_with [due_later])))"
    by (simp_all add: wf_store_with d_key_def due_later_def sample_delivery_def)
  then show ?thesis using zero_settings_accepted by blast
qed

text \<open>Ports on which a worker can be assembled.\<close>

definition sample_deps :: "(world, unit) deps" where
  "sample_deps = \<lparr>dp_redis = (\<lambda>c w. (RInt 0, w)), dp_Now = clock_Now, dp_codec = sample_codec, dp_update = (\<lambda>m w. w),
     dp_execute = sample_execute False, dp_webhook = sample_client (Inr (sample_reply 202 0)),
     dp_limiter = (\<lambda>k l w. (Inr (1, 0), w)),
     dp_buckets = \<lparr>xr_NewLimiter = (\<lambda>p b. ()), xr_Reserve = (\<lambda>t l. (True, 0, l)), xr_Cancel = (\<lambda>t l. l)\<rparr>,
     dp_inproc = (\<lambda>w. NewInProcessRateLimiter 100 100), dp_set_inproc = (\<lambda>R w. w)\<rparr>"

theorem assembled_worker_reads_witness:
  "\<exists>cfg W. Load (env_of []) = Inr cfg \<and> assemble_worker sample_deps sample_worker cfg = Some W \<and> wk_streams W = allStreams"
proof -
  obtain cfg where load: "Load (env_of []) = Inr cfg" and jitter: "yc_JitterRatio (cf_Retry cfg) = Finite (f64 (1 / 5))"
    by (simp add: Load_def validate_def read_config_def getters AllPriorities_def go_simps)
  obtain W where W: "assemble_worker sample_deps sample_worker cfg = Some W"
    by (simp add: assemble_worker_def RetryPolicy_def jitter Let_def)
  have "given (env_of []) ''WORKER_PRIORITIES'' = None" by (simp add: given_env)
  with assembled_worker_reads [OF load W] load W show ?thesis by blast
qed


end
