(* ===== verification/Spec2Isabelle.thy ===== *)
theory Spec2Isabelle
  imports Prelude Domain Float64 Retry GoStrings Template Store Store_Inv Store_Create Store_Scheduler Store_List Store_Props Service World Service_Props Worker Worker_Props Worker_Outcome Scheduler Scheduler_Props Delivery_Path Worker_Pool Scheduler_Run Processes
    GoNum GoTime Json Messages Redis Codec_Sample Redis_Props Auth Http Router Http_Props Provider Provider_Props
    Platform Integration Config Metrics Startup Startup_Props Lifecycle Lifecycle_Props
begin

text \<open>
  A verification of the notification system, a Go service that accepts notifications over HTTP,
  keeps them in PostgreSQL, carries them over Redis streams to workers and delivers them through a
  webhook provider.  Three processes share the database: the API (\<open>cmd/api\<close>) runs the
  notification service behind its router, the worker (\<open>cmd/worker\<close>) consumes the streams and calls
  the provider through a circuit breaker, the scheduler (\<open>cmd/scheduler\<close>) relays the outbox,
  promotes what is due, sweeps retries, takes expired leases back, reconciles and maintains the
  partitions.

  \<^bold>\<open>Conventions.\<close>  An instant is an \<open>int\<close>, nanoseconds since the epoch, a duration an \<open>int\<close> of
  nanoseconds, a UUID a 128 bit word, a Go string a list of bytes.  A call that can fail returns
  \<open>error + 'a\<close>.  Structs are records whose fields carry a prefix and the Go name.  What the program
  takes from outside is an argument: the faults of the database and of Redis, the clocks, the random
  values, the work of other processes between two statements, the answers of the provider and of the
  rate limiter (record \<open>env\<close> of World), the replies of a Redis server, the environment variables, and
  the third-party packages named below.  Loops that may not end are partial functions into
  \<open>option\<close>, so \<open>None\<close> means that the loop runs for ever (or, where a definition says so, that the code
  panics).  Only the JSON parser counts down a number: it
  starts at the length of the text, which every step shortens, and the nesting depth is Go's own
  limit.

  \<^bold>\<open>The theories, from the inside out.\<close>
  \<^item> Prelude: durations, 64 bit wrap-around, row updates and counts on lists of rows.
    GoNum, GoStrings, GoTime, Float64, Json: what the code uses of \<open>strconv\<close>, \<open>strings\<close>, \<open>time\<close>,
    \<open>encoding/base64\<close>, float64 arithmetic and \<open>encoding/json\<close>.
  \<^item> Domain (\<open>internal/domain\<close>): enumerations, errors, entities, messages, list filters, and the
    aggregation of delivery statuses.  Messages: the JSON of stream and dead-letter messages.
  \<^item> Retry (\<open>internal/delivery/retry.go\<close>): backoff, jitter and the evaluation of a failure.
    Template (\<open>internal/template/service.go\<close>): placeholder matching, rendering, missing variables.
  \<^item> Store (\<open>internal/adapters/postgres\<close>): the tables as lists of rows with the constraints of the
    migrations, \<open>withTx\<close>, and one definition per repository operation, on every branch.
    Store\_Inv holds the invariant \<open>store_inv\<close> (keys, foreign keys, batch counters, request status
    equal to the aggregate of its deliveries) and its preservation; Store\_Create, Store\_Scheduler
    and Store\_List the lemmas on creation, on the due-row transitions and on pagination;
    Store\_Props the properties.  Locale \<open>due_transition\<close> is the contract that \<open>PromoteDue\<close> and
    \<open>SweepRetries\<close> share.  Integration: the helpers of \<open>store.go\<close> for tests that share a database, with the
    proof that the tests take turns and that a reset leaves consistent tables.
  \<^item> Lifecycle, Lifecycle\_Props: the abstract life cycle of a delivery, the repository as a step relation
    with any fault and any order of calls, and the refinement between them.
  \<^item> Service (\<open>internal/notification\<close>): validation, \<open>Create\<close>, \<open>CreateBatch\<close>, \<open>Get\<close>, \<open>List\<close>,
    \<open>Cancel\<close>, \<open>GetBatch\<close> over a record of ports.  World interleaves the operations of Store with
    faults and foreign work and gives the ports their meaning.  Service\_Props proves the service
    correct against the locales \<open>service_keeps\<close> (the repository keeps an invariant) and
    \<open>keyed_service\<close> (what a lookup by key returns after a creation), interpreted on the store.
  \<^item> Platform (\<open>internal/platform/clock\<close>, \<open>logging\<close>, \<open>tracing\<close>): clocks, loggers, the correlation id of a
    context, spans.
  \<^item> Worker (\<open>internal/worker\<close>): \<open>process\<close> with all it calls, the wait for the rate limiter, the read
    loop.  Worker\_Props and Worker\_Outcome: termination (locale \<open>timed_worker\<close>), the invariant
    (\<open>rate_keeps\<close>, \<open>worker_keeps\<close>), at most one provider call, and the outcome of a message.
  \<^item> Scheduler (\<open>internal/scheduler\<close>): the seven jobs and the ticking loop.  Scheduler\_Props:
    the draining loops (locale \<open>drain_loop\<close>) and the relay.
  \<^item> Delivery\_Path: the path of a notification through service, relay and worker.
    Worker\_Pool: \<open>Worker.Run\<close> as a state machine of reader, channel and goroutines.  Scheduler\_Run:
    \<open>Scheduler.Run\<close> with its loops interleaved (locale \<open>scheduler_keeps\<close>).  Processes: all processes on
    one database make only the calls of Lifecycle, so every run of theirs refines the life cycle.
  \<^item> Redis (\<open>internal/adapters/redis\<close>): queue, dead-letter queue and the two rate limiters as the
    commands they send and what they make of the replies.  Redis\_Props: the round trip of a message
    and the account of every entry read.  Codec\_Sample is a UUID codec for concrete runs.
  \<^item> Provider (\<open>internal/adapters/provider\<close>): the webhook client, its reading of status, body and
    \<open>Retry-After\<close>, and the breakers around it.  Provider\_Props ties both to the retry policy and to
    the worker.
  \<^item> Auth (\<open>internal/platform/auth\<close>), Http (\<open>handlers.go\<close>, \<open>dto.go\<close>, \<open>cursor.go\<close>, \<open>errors.go\<close>), Router
    (\<open>router.go\<close>, the middlewares, \<open>docs.go\<close>): tokens, every handler from bytes to bytes, and the chain
    around them, with escaped paths and panicking handlers.  Http\_Props: cursors, the confinement of a
    request to its user, what a POST of a notification leads to, that no spelling of a path by-passes authentication.
  \<^item> Config, Metrics (\<open>internal/platform\<close>): reading and checking the settings; the collectors and the
    update behind each helper.  Startup (\<open>internal/bootstrap\<close>, \<open>cmd\<close>, the pools of \<open>store.go\<close>, the
    tracer): how the processes are assembled, which resources they open and close, their exit codes.
    Startup\_Props: what a loaded configuration satisfies, and that everything opened is closed.

  \<^bold>\<open>What the theorems show.\<close>  When nothing fails, an accepted notification, and one whose scheduled or
  retry instant has come, is published and delivered with exactly one call of the provider, and its
  owner sees it sent.  Creation is atomic and idempotent, also when two callers race; every
  operation of the service, and of a worker whose lease holds, keeps \<open>store_inv\<close>; every run of
  the processes refines the life cycle, in which a finished delivery stays finished; a worker that is
  told to stop processes what it has accepted, each message once, and returns; a user sees only
  their own data, from the bearer token to the row, and a POST creates on behalf of the user of its token
  or says why not; a claim excludes every other worker until the
  lease ends and a message leads to at most one provider call, after which the delivery is sent,
  failed or retrying exactly as provider answer, breaker, retry policy and rate limiter decide; the
  relay never marks a row whose message is not on its stream, a message survives the way through
  Redis unchanged, and every entry read is returned or dead-lettered and acknowledged; the scheduler's
  loops return and leave nothing due behind; following cursors lists every request once, also over
  HTTP.  A few theorems record where the code departs from its intent: a late worker can
  revive a finished delivery, the relay spins while Redis is down, a batch size of zero is accepted
  and never returns, a poll interval of zero is accepted and panics, a lease can end during the call it protects, dropping a partition loses
  unfinished deliveries.

  \<^bold>\<open>What is not modelled.\<close>  Isolation anomalies below the level of one repository call (each call is one
  atomic step of the tables), interleavings of goroutines of one process inside one message, job or
  request (the work between two repository calls is that of other processes), the lag of a read replica (a
  query through the reader pool sees the tables of the primary), signals (how long a process runs is
  the outcome of a call), log records, the contents of spans and the metric exposition, the
  \<open>Location\<close> and \<open>Allow\<close> headers of the request multiplexer.  A context is what the code reads from it:
  user, correlation id, whether it has ended.
  Third-party code is an argument with the documented behaviour the theorems need as hypotheses: the
  Redis server, \<open>redis_rate\<close> and \<open>x/time/rate\<close>, \<open>gobreaker\<close>, \<open>golang-jwt\<close>, the text codec of
  \<open>google/uuid\<close>, the HTTP transport.  \<open>strconv.ParseFloat\<close> and the two obsolete layouts of
  \<open>http.ParseTime\<close> are arguments as well.
\<close>

text \<open>
  \<open>AggregateRequestStatus\<close> implements the documented rules.
\<close>

theorem aggregate_rules:
  "AggregateRequestStatus ds =
     (if ds \<noteq> [] \<and> set ds \<subseteq> {DeliverySent, DeliveryFailed, DeliveryCancelled}
      then if set ds \<subseteq> {DeliverySent} then RequestSent
           else if set ds \<subseteq> {DeliveryCancelled} then RequestCancelled
           else if DeliverySent \<in> set ds then RequestPartial
           else RequestFailed
      else RequestPending)"
  by (simp add: AggregateRequestStatus_cases)

end
